theory Spec2Isabelle
  imports Main "HOL-Library.Multiset" "HOL-Library.List_Lexorder" "HOL-Library.Char_ord"
    "HOL-Library.Product_Lexorder"
    "HOL-Library.Word"
begin

section \<open>The package service of pkger/service.go\<close>

text \<open>
  The theory embeds the dry-run differ, the applier builders, the rollback coordinator
  and the sort of \<^verbatim>\<open>CreatePkg\<close> from \<^verbatim>\<open>src/pkger/service.go\<close>.

  Conventions.
  \<^item> A Go \<^verbatim>\<open>error\<close> is its message, a \<open>string\<close>; a nil-able error is an
    \<open>error option\<close>, a call returning a value or an error is a sum with \<open>Inl\<close> the error.
  \<^item> \<^verbatim>\<open>influxdb.ID\<close> is a 64-bit word; ids are only copied and compared.
  \<^item> Go strings are byte strings ordered bytewise, as \<open>string\<close> is here.
  \<^item> The \<^verbatim>\<open>context.Context\<close> handed to a port only influences what the port answers, and
    the answers of a port are arbitrary here, so the context is not passed on.
\<close>

type_synonym error = string
type_synonym ID = "64 word"
type_synonym Duration = int

subsection \<open>sort.Slice\<close>

text \<open>
  \<^verbatim>\<open>sort.Slice\<close> belongs to Go's standard library. Every release sorts a short slice (fewer
  than seven elements in the oldest releases, up to twelve in the current ones) by the
  insertion sort below: element \<open>i\<close> moves left while \<^verbatim>\<open>less(j, j-1)\<close> holds. The model
  uses this insertion sort for every length; for a comparator that orders its input like a
  linear order on keys every correct sort returns a list sorted by those keys, which is
  what the general theorems below state. \<open>sift\<close> works on the prefix held in reverse, so
  that its head is the element at \<open>j - 1\<close>.
\<close>

fun sift :: "('a \<Rightarrow> 'a \<Rightarrow> bool) \<Rightarrow> 'a \<Rightarrow> 'a list \<Rightarrow> 'a list" where
  "sift lt x [] = [x]"
| "sift lt x (y # ys) = (if lt x y then y # sift lt x ys else x # y # ys)"

definition sort_Slice :: "('a \<Rightarrow> 'a \<Rightarrow> bool) \<Rightarrow> 'a list \<Rightarrow> 'a list" where
  "sort_Slice lt xs = rev (foldl (\<lambda>acc x. sift lt x acc) [] xs)"

subsection \<open>Kinds and the resources of a package document\<close>

text \<open>
  \<^verbatim>\<open>Kind\<close> and \<^verbatim>\<open>Resource\<close> are declared in files of the package that are not part of the
  sources at hand. A \<open>Kind\<close> is one of the constants that service.go names; \<^verbatim>\<open>k.is(c)\<close>
  compares two kinds. Of a \<^verbatim>\<open>Resource\<close> the sort reads \<^verbatim>\<open>kind()\<close> and \<^verbatim>\<open>Name()\<close> only.
\<close>

datatype Kind =
    KindUnknown | KindBucket | KindDashboard | KindLabel
  | KindNotificationEndpoint | KindNotificationEndpointHTTP
  | KindNotificationEndpointPagerDuty | KindNotificationEndpointSlack
  | KindPackage | KindTelegraf | KindVariable

definition is_kind :: "Kind \<Rightarrow> Kind \<Rightarrow> bool" where
  "is_kind k c = (k = c)"

record Resource =
  r_kind :: Kind
  r_name :: string

text \<open>The map literal of \<^verbatim>\<open>CreatePkg\<close>; indexing a Go map at a missing key gives 0.\<close>

definition kindPriorities :: "(Kind \<times> int) list" where
  "kindPriorities = [(KindLabel, 1), (KindBucket, 2), (KindVariable, 3), (KindDashboard, 4)]"

definition priority :: "Kind \<Rightarrow> int" where
  "priority k = (case map_of kindPriorities k of None \<Rightarrow> 0 | Some p \<Rightarrow> p)"

text \<open>The comparator handed to \<^verbatim>\<open>sort.Slice\<close> at the end of \<^verbatim>\<open>CreatePkg\<close>.\<close>

definition resource_less :: "Resource \<Rightarrow> Resource \<Rightarrow> bool" where
  "resource_less ri rj =
     (if is_kind (r_kind ri) (r_kind rj) then r_name ri < r_name rj
      else priority (r_kind ri) < priority (r_kind rj))"

text \<open>The last step of \<^verbatim>\<open>CreatePkg\<close>: the resources of the new package are sorted.\<close>

definition CreatePkg_sort :: "Resource list \<Rightarrow> Resource list" where
  "CreatePkg_sort rs = sort_Slice resource_less rs"

subsection \<open>Platform resources\<close>

text \<open>
  The types of package \<^verbatim>\<open>influxdb\<close> that service.go builds, reads or hands to a port, with
  the fields it names. \<^verbatim>\<open>BucketUpdate\<close> holds pointers, \<open>None\<close> is the nil pointer.
  The arguments of a variable, the properties of a view and the fields of a notification
  endpoint or telegraf configuration that service.go never reads are opaque text.
\<close>

record Bucket =
  bkt_ID :: ID
  bkt_OrgID :: ID
  bkt_Name :: string
  bkt_Description :: string
  bkt_RetentionPeriod :: Duration

record BucketUpdate =
  bu_Description :: "string option"
  bu_RetentionPeriod :: "Duration option"

record Label =
  lbl_ID :: ID
  lbl_OrgID :: ID
  lbl_Name :: string
  lbl_Properties :: "(string \<times> string) list"

record LabelUpdate =
  lu_Properties :: "(string \<times> string) list"

record LabelMapping =
  lm_LabelID :: ID
  lm_ResourceID :: ID
  lm_ResourceType :: string

record Variable =
  var_ID :: ID
  var_OrganizationID :: ID
  var_Name :: string
  var_Description :: string
  var_Arguments :: string

record VariableUpdate =
  vu_Description :: string
  vu_Arguments :: string

record Cell =
  cell_X :: "32 word"
  cell_Y :: "32 word"
  cell_H :: "32 word"
  cell_W :: "32 word"
  cell_View_Name :: string
  cell_View_Properties :: string

record Dashboard =
  dash_ID :: ID
  dash_OrganizationID :: ID
  dash_Name :: string
  dash_Description :: string
  dash_Cells :: "Cell list"

record NotificationEndpoint =
  ep_ID :: ID
  ep_OrgID :: ID
  ep_Name :: string
  ep_SecretFields :: "string list"
  ep_fields :: string

record TelegrafConfig =
  tc_ID :: ID
  tc_OrgID :: ID
  tc_Name :: string
  tc_fields :: string

subsection \<open>Package records\<close>

text \<open>
  The records of a parsed package are declared in models.go, which is not among the
  sources; each record below has the fields that service.go reads or writes, the labels
  the record is associated with, and the desired values that its methods report.
  A \<^verbatim>\<open>*label\<close> is the index of the label in the package's list of labels, so that a
  write through one pointer is seen through every other.
\<close>

record label =
  l_id :: ID
  l_OrgID :: ID
  l_name :: string
  l_props :: "(string \<times> string) list"
  l_existing :: "Label option"
  l_mappings :: "((string \<times> string) \<times> bool) list"

record bucket =
  b_id :: ID
  b_OrgID :: ID
  b_name :: string
  b_Description :: string
  b_RetentionRules :: "Duration list"
  b_existing :: "Bucket option"
  b_labels :: "nat list"

record variable =
  v_id :: ID
  v_OrgID :: ID
  v_name :: string
  v_Description :: string
  v_args :: string
  v_existing :: "Variable option"
  v_labels :: "nat list"

record chart =
  ch_XPos :: "64 word"
  ch_YPos :: "64 word"
  ch_Height :: "64 word"
  ch_Width :: "64 word"
  ch_Name :: string

record dashboard =
  d_id :: ID
  d_OrgID :: ID
  d_name :: string
  d_Description :: string
  d_Charts :: "chart list"
  d_labels :: "nat list"

record secretRef =
  Secret :: string

record notificationEndpoint =
  e_id :: ID
  e_OrgID :: ID
  e_name :: string
  e_fields :: string
  e_existing :: "NotificationEndpoint option"
  e_routingKey :: secretRef
  e_token :: secretRef
  e_username :: secretRef
  e_password :: secretRef
  e_labels :: "nat list"

record telegraf =
  t_config :: TelegrafConfig
  t_labels :: "nat list"

record SummaryLabelMapping =
  slm_exists :: bool
  slm_ResourceID :: ID
  slm_ResourceType :: string
  slm_LabelID :: ID

text \<open>
  What the label-mapping dry run reads of a \<^verbatim>\<open>labelAssociater\<close>: the values of its five
  methods.
\<close>

record labelAssociater =
  la_ID :: ID
  la_Name :: string
  la_Labels :: "nat list"
  la_ResourceType :: string
  la_Exists :: bool

text \<open>
  The package. \<open>p_labels\<close> is the list \<^verbatim>\<open>pkg.labels()\<close> returns, and likewise for the
  other kinds: the slices hold pointers, so the appliers and the dry run write into the
  package through them. \<^verbatim>\<open>pkg.mLabels[name]\<close> is the first label of that name,
  \<^verbatim>\<open>pkg.mDashboards\<close> and \<^verbatim>\<open>pkg.mTelegrafs\<close> hold the objects of \<open>p_dashboards\<close> and
  \<open>p_telegrafs\<close>.
\<close>

record Pkg =
  isParsed :: bool
  isVerified :: bool
  mSecrets :: "string list"
  p_labels :: "label list"
  p_buckets :: "bucket list"
  p_variables :: "variable list"
  p_dashboards :: "dashboard list"
  p_endpoints :: "notificationEndpoint list"
  p_telegrafs :: "telegraf list"

subsection \<open>The diff\<close>

text \<open>
  \<^verbatim>\<open>DiffLabelMapping\<close> is built in service.go. The diff records of the six resource kinds
  are built by constructors of models.go.
  Modelled from the spec: \<^verbatim>\<open>newDiffBucket\<close>, \<^verbatim>\<open>newDiffDashboard\<close>, \<^verbatim>\<open>newDiffLabel\<close>,
  \<^verbatim>\<open>newDiffNotificationEndpoint\<close>, \<^verbatim>\<open>newDiffTelegraf\<close>, \<^verbatim>\<open>newDiffVariable\<close> and the types
  they return are missing; the spec has "each section entry has IsNew: bool, the desired
  state, and the existing state (nullable)", sorted by \<^verbatim>\<open>Name\<close>.
\<close>

record ('n, 'o) DiffEntry =
  IsNew :: bool
  Name :: string
  New :: 'n
  Old :: "'o option"

definition newDiffBucket :: "bucket \<Rightarrow> Bucket option \<Rightarrow> (bucket, Bucket) DiffEntry" where
  "newDiffBucket b i = \<lparr>IsNew = (i = None), Name = b_name b, New = b, Old = i\<rparr>"

definition newDiffLabel :: "label \<Rightarrow> Label option \<Rightarrow> (label, Label) DiffEntry" where
  "newDiffLabel l i = \<lparr>IsNew = (i = None), Name = l_name l, New = l, Old = i\<rparr>"

definition newDiffVariable ::
  "variable \<Rightarrow> Variable option \<Rightarrow> (variable, Variable) DiffEntry" where
  "newDiffVariable v i = \<lparr>IsNew = (i = None), Name = v_name v, New = v, Old = i\<rparr>"

definition newDiffNotificationEndpoint ::
  "notificationEndpoint \<Rightarrow> NotificationEndpoint option
     \<Rightarrow> (notificationEndpoint, NotificationEndpoint) DiffEntry" where
  "newDiffNotificationEndpoint e i =
     \<lparr>IsNew = (i = None), Name = e_name e, New = e, Old = i\<rparr>"

definition newDiffDashboard :: "dashboard \<Rightarrow> (dashboard, unit) DiffEntry" where
  "newDiffDashboard d = \<lparr>IsNew = True, Name = d_name d, New = d, Old = None\<rparr>"

definition newDiffTelegraf :: "telegraf \<Rightarrow> (telegraf, unit) DiffEntry" where
  "newDiffTelegraf t = \<lparr>IsNew = True, Name = tc_Name (t_config t), New = t, Old = None\<rparr>"

record DiffLabelMapping =
  dlm_IsNew :: bool
  dlm_ResType :: string
  dlm_ResID :: ID
  dlm_ResName :: string
  dlm_LabelID :: ID
  dlm_LabelName :: string

record Diff =
  Buckets :: "(bucket, Bucket) DiffEntry list"
  Dashboards :: "(dashboard, unit) DiffEntry list"
  Labels :: "(label, Label) DiffEntry list"
  LabelMappings :: "DiffLabelMapping list"
  NotificationEndpoints :: "(notificationEndpoint, NotificationEndpoint) DiffEntry list"
  Telegrafs :: "(telegraf, unit) DiffEntry list"
  Variables :: "(variable, Variable) DiffEntry list"

definition empty_Diff :: Diff where
  "empty_Diff = \<lparr>Buckets = [], Dashboards = [], Labels = [], LabelMappings = [],
     NotificationEndpoints = [], Telegrafs = [], Variables = []\<rparr>"

subsection \<open>Methods declared outside service.go\<close>

text \<open>
  service.go calls methods of the package records, of the package and of library types
  whose bodies are in models.go, parser.go and package \<^verbatim>\<open>influxdb\<close>. They are parameters of
  the model, collected in one record, and every theorem holds for all of them. They are
  taken to be free of effects other than the one shown in their type. \<^verbatim>\<open>Name()\<close> is read
  off the name field. \<open>fmt_q\<close> is the verb \<^verbatim>\<open>%q\<close> of \<^verbatim>\<open>fmt\<close>.
\<close>

record models =
  Validate :: "Pkg \<Rightarrow> error option \<times> Pkg"
  IsParseErr :: "error \<Rightarrow> bool"
  secrets :: "Pkg \<Rightarrow> string list"
  labelMappings :: "Pkg \<Rightarrow> SummaryLabelMapping list"
  bucket_ID :: "bucket \<Rightarrow> ID"
  label_ID :: "label \<Rightarrow> ID"
  variable_ID :: "variable \<Rightarrow> ID"
  dashboard_ID :: "dashboard \<Rightarrow> ID"
  endpoint_ID :: "notificationEndpoint \<Rightarrow> ID"
  telegraf_ID :: "telegraf \<Rightarrow> ID"
  bucket_shouldApply :: "bucket \<Rightarrow> bool"
  label_shouldApply :: "label \<Rightarrow> bool"
  variable_shouldApply :: "variable \<Rightarrow> bool"
  RP :: "Duration list \<Rightarrow> Duration"
  label_properties :: "label \<Rightarrow> (string \<times> string) list"
  toInfluxLabel :: "label \<Rightarrow> Label"
  influxVarArgs :: "variable \<Rightarrow> string"
  summarize :: "notificationEndpoint \<Rightarrow> NotificationEndpoint"
  chart_properties :: "chart \<Rightarrow> string"
  bucket_Exists :: "bucket \<Rightarrow> bool"
  dashboard_Exists :: "dashboard \<Rightarrow> bool"
  endpoint_Exists :: "notificationEndpoint \<Rightarrow> bool"
  telegraf_Exists :: "telegraf \<Rightarrow> bool"
  variable_Exists :: "variable \<Rightarrow> bool"
  ResourceType :: "Kind \<Rightarrow> string"
  setMapping :: "labelAssociater \<Rightarrow> bool \<Rightarrow> label \<Rightarrow> label"
  ID_String :: "ID \<Rightarrow> string"
  fmt_q :: "string \<Rightarrow> string"

subsection \<open>Ports, events and the state\<close>

text \<open>
  A port is a service behind an interface: the model knows nothing of it but that a call
  takes the state \<open>'b\<close> of the platform to an answer and a new state. \<open>Service\<close> has one
  field for each method that the dry run, the appliers and the rollbacks call; a method that
  fills in the struct it is given (\<^verbatim>\<open>CreateBucket(ctx, &b)\<close>) returns the struct.
\<close>

record 'b Service =
  secretSVC_GetSecretKeys :: "ID \<Rightarrow> 'b \<Rightarrow> (error + string list) \<times> 'b"
  bucketSVC_FindBucketByName :: "ID \<Rightarrow> string \<Rightarrow> 'b \<Rightarrow> (error + Bucket) \<times> 'b"
  bucketSVC_UpdateBucket :: "ID \<Rightarrow> BucketUpdate \<Rightarrow> 'b \<Rightarrow> (error + Bucket) \<times> 'b"
  bucketSVC_CreateBucket :: "Bucket \<Rightarrow> 'b \<Rightarrow> (error + Bucket) \<times> 'b"
  bucketSVC_DeleteBucket :: "ID \<Rightarrow> 'b \<Rightarrow> error option \<times> 'b"
  labelSVC_FindLabels :: "string \<Rightarrow> ID \<Rightarrow> 'b \<Rightarrow> (error + Label list) \<times> 'b"
  labelSVC_UpdateLabel :: "ID \<Rightarrow> LabelUpdate \<Rightarrow> 'b \<Rightarrow> (error + Label) \<times> 'b"
  labelSVC_CreateLabel :: "Label \<Rightarrow> 'b \<Rightarrow> (error + Label) \<times> 'b"
  labelSVC_DeleteLabel :: "ID \<Rightarrow> 'b \<Rightarrow> error option \<times> 'b"
  labelSVC_FindResourceLabels :: "ID \<Rightarrow> string \<Rightarrow> 'b \<Rightarrow> (error + Label list) \<times> 'b"
  labelSVC_CreateLabelMapping :: "LabelMapping \<Rightarrow> 'b \<Rightarrow> error option \<times> 'b"
  labelSVC_DeleteLabelMapping :: "LabelMapping \<Rightarrow> 'b \<Rightarrow> error option \<times> 'b"
  endpointSVC_FindNotificationEndpoints ::
    "ID \<Rightarrow> 'b \<Rightarrow> (error + NotificationEndpoint list) \<times> 'b"
  endpointSVC_UpdateNotificationEndpoint ::
    "ID \<Rightarrow> NotificationEndpoint \<Rightarrow> ID \<Rightarrow> 'b \<Rightarrow> (error + NotificationEndpoint) \<times> 'b"
  endpointSVC_CreateNotificationEndpoint ::
    "NotificationEndpoint \<Rightarrow> ID \<Rightarrow> 'b \<Rightarrow> (error + NotificationEndpoint) \<times> 'b"
  endpointSVC_DeleteNotificationEndpoint :: "ID \<Rightarrow> 'b \<Rightarrow> error option \<times> 'b"
  varSVC_FindVariables :: "ID \<Rightarrow> 'b \<Rightarrow> (error + Variable list) \<times> 'b"
  varSVC_UpdateVariable :: "ID \<Rightarrow> VariableUpdate \<Rightarrow> 'b \<Rightarrow> (error + Variable) \<times> 'b"
  varSVC_CreateVariable :: "Variable \<Rightarrow> 'b \<Rightarrow> (error + Variable) \<times> 'b"
  varSVC_DeleteVariable :: "ID \<Rightarrow> 'b \<Rightarrow> error option \<times> 'b"
  dashSVC_CreateDashboard :: "Dashboard \<Rightarrow> 'b \<Rightarrow> (error + Dashboard) \<times> 'b"
  dashSVC_DeleteDashboard :: "ID \<Rightarrow> 'b \<Rightarrow> error option \<times> 'b"
  teleSVC_CreateTelegrafConfig ::
    "TelegrafConfig \<Rightarrow> ID \<Rightarrow> 'b \<Rightarrow> (error + TelegrafConfig) \<times> 'b"
  teleSVC_DeleteTelegrafConfig :: "ID \<Rightarrow> 'b \<Rightarrow> error option \<times> 'b"

text \<open>A call of a port, with its arguments.\<close>

datatype call =
    GetSecretKeys ID
  | FindBucketByName ID string
  | UpdateBucket ID BucketUpdate
  | CreateBucket Bucket
  | DeleteBucket ID
  | FindLabels string ID
  | UpdateLabel ID LabelUpdate
  | CreateLabel Label
  | DeleteLabel ID
  | FindResourceLabels ID string
  | CreateLabelMapping LabelMapping
  | DeleteLabelMapping LabelMapping
  | FindNotificationEndpoints ID
  | UpdateNotificationEndpoint ID NotificationEndpoint ID
  | CreateNotificationEndpoint NotificationEndpoint ID
  | DeleteNotificationEndpoint ID
  | FindVariables ID
  | UpdateVariable ID VariableUpdate
  | CreateVariable Variable
  | DeleteVariable ID
  | CreateDashboard Dashboard
  | DeleteDashboard ID
  | CreateTelegrafConfig TelegrafConfig ID
  | DeleteTelegrafConfig ID

text \<open>The calls that change the platform: all but the six that find or get.\<close>

fun mutating :: "call \<Rightarrow> bool" where
  "mutating (GetSecretKeys _) = False"
| "mutating (FindBucketByName _ _) = False"
| "mutating (FindLabels _ _) = False"
| "mutating (FindResourceLabels _ _) = False"
| "mutating (FindNotificationEndpoints _) = False"
| "mutating (FindVariables _) = False"
| "mutating _ = True"

text \<open>
  The trace records what the code does, in the order in which it does it:
  \<^item> \<open>Port c r\<close>: the call \<open>c\<close> of a port returned, with error \<open>r\<close>;
  \<^item> \<open>Recorded res\<close>: \<^verbatim>\<open>runTilEnd\<close> appended the rollbacker of \<open>res\<close> to the coordinator;
  \<^item> \<open>CreateFn res i\<close>: a worker of \<^verbatim>\<open>runTilEnd\<close> calls \<^verbatim>\<open>app.creater.fn\<close> for item \<open>i\<close>;
  \<^item> \<open>GroupEnd r\<close>: \<^verbatim>\<open>runTilEnd\<close> returns \<open>r\<close>;
  \<^item> \<open>RollbackFn res r\<close>: \<^verbatim>\<open>rollback\<close> called the rollbacker of \<open>res\<close>, which returned \<open>r\<close>;
  \<^item> \<open>LogError msg e\<close>: the logger was given \<open>msg\<close> and the error \<open>e\<close>.
\<close>

datatype event =
    Port call "error option"
  | Recorded string
  | CreateFn string nat
  | GroupEnd "error option"
  | RollbackFn string "error option"
  | LogError string error

text \<open>
  The state: the trace, the platform behind the ports, the package, and the slices that
  the closures of the applier builders share: \<open>rb_labels\<close> is \<^verbatim>\<open>rollBackLabels\<close> of
  \<^verbatim>\<open>applyLabels\<close>, \<open>rb_vars\<close> is \<^verbatim>\<open>rollBackVars\<close>, \<open>rb_buckets\<close> is \<^verbatim>\<open>rollbackBuckets\<close>,
  \<open>rb_dashboards\<close> is \<^verbatim>\<open>rollbackDashboards\<close>, \<open>rb_endpoints\<close> is \<^verbatim>\<open>rollbackEndpoints\<close>,
  \<open>rb_telegrafs\<close> is \<^verbatim>\<open>rollbackTelegrafs\<close>, \<open>rb_mappings\<close> is \<^verbatim>\<open>rollbackMappings\<close>. A slice of
  pointers is a list of indices into the package.
\<close>

record 'b state =
  trace :: "event list"
  backend :: 'b
  pkg :: Pkg
  rb_labels :: "nat list"
  rb_vars :: "nat list"
  rb_buckets :: "nat list"
  rb_dashboards :: "nat list"
  rb_endpoints :: "nat list"
  rb_telegrafs :: "nat list"
  rb_mappings :: "LabelMapping list"

definition emit :: "event \<Rightarrow> 'b state \<Rightarrow> 'b state" where
  "emit ev st = st\<lparr>trace := trace st @ [ev]\<rparr>"

definition err_of :: "error + 'a \<Rightarrow> error option" where
  "err_of r = (case r of Inl e \<Rightarrow> Some e | Inr _ \<Rightarrow> None)"

definition port_val ::
  "call \<Rightarrow> ('b \<Rightarrow> (error + 'a) \<times> 'b) \<Rightarrow> 'b state \<Rightarrow> (error + 'a) \<times> 'b state" where
  "port_val c f st =
     (case f (backend st) of
        (r, b') \<Rightarrow> (r, st\<lparr>trace := trace st @ [Port c (err_of r)], backend := b'\<rparr>))"

definition port_err ::
  "call \<Rightarrow> ('b \<Rightarrow> error option \<times> 'b) \<Rightarrow> 'b state \<Rightarrow> error option \<times> 'b state" where
  "port_err c f st =
     (case f (backend st) of
        (r, b') \<Rightarrow> (r, st\<lparr>trace := trace st @ [Port c r], backend := b'\<rparr>))"

subsection \<open>Strings\<close>

fun Join :: "string list \<Rightarrow> string \<Rightarrow> string" where
  "Join [] sep = []"
| "Join [x] sep = x"
| "Join (x # y # xs) sep = x @ sep @ Join (y # xs) sep"

definition HasSuffix :: "string \<Rightarrow> string \<Rightarrow> bool" where
  "HasSuffix s suffix =
     (length suffix \<le> length s \<and> drop (length s - length suffix) s = suffix)"

definition dq :: string where
  "dq = [CHR 0x22]"

subsection \<open>Appliers\<close>

record applyErrBody =
  aeb_name :: string
  aeb_msg :: string

text \<open>
  The two function fields of Go's \<^verbatim>\<open>creater\<close> and \<^verbatim>\<open>rollbacker\<close> are both called \<^verbatim>\<open>fn\<close>;
  here they are \<open>c_fn\<close> and \<open>r_fn\<close>. A closure is a function of the state.
\<close>

record 'b creater =
  entries :: nat
  c_fn :: "nat \<Rightarrow> ID \<Rightarrow> ID \<Rightarrow> 'b state \<Rightarrow> applyErrBody option \<times> 'b state"

record 'b rollbacker =
  resource :: string
  r_fn :: "'b state \<Rightarrow> error option \<times> 'b state"

record 'b applier =
  creater :: "'b creater"
  rollbacker :: "'b rollbacker"

text \<open>Reading and writing the package through a pointer.\<close>

definition bucket_at :: "'b state \<Rightarrow> nat \<Rightarrow> bucket" where
  "bucket_at st a = p_buckets (pkg st) ! a"

definition upd_bucket :: "nat \<Rightarrow> (bucket \<Rightarrow> bucket) \<Rightarrow> 'b state \<Rightarrow> 'b state" where
  "upd_bucket a f st =
     st\<lparr>pkg := (pkg st)\<lparr>p_buckets := (p_buckets (pkg st))[a := f (p_buckets (pkg st) ! a)]\<rparr>\<rparr>"

definition label_at :: "'b state \<Rightarrow> nat \<Rightarrow> label" where
  "label_at st a = p_labels (pkg st) ! a"

definition upd_label :: "nat \<Rightarrow> (label \<Rightarrow> label) \<Rightarrow> 'b state \<Rightarrow> 'b state" where
  "upd_label a f st =
     st\<lparr>pkg := (pkg st)\<lparr>p_labels := (p_labels (pkg st))[a := f (p_labels (pkg st) ! a)]\<rparr>\<rparr>"

definition variable_at :: "'b state \<Rightarrow> nat \<Rightarrow> variable" where
  "variable_at st a = p_variables (pkg st) ! a"

definition upd_variable :: "nat \<Rightarrow> (variable \<Rightarrow> variable) \<Rightarrow> 'b state \<Rightarrow> 'b state" where
  "upd_variable a f st =
     st\<lparr>pkg := (pkg st)\<lparr>p_variables :=
       (p_variables (pkg st))[a := f (p_variables (pkg st) ! a)]\<rparr>\<rparr>"

definition dashboard_at :: "'b state \<Rightarrow> nat \<Rightarrow> dashboard" where
  "dashboard_at st a = p_dashboards (pkg st) ! a"

definition upd_dashboard :: "nat \<Rightarrow> (dashboard \<Rightarrow> dashboard) \<Rightarrow> 'b state \<Rightarrow> 'b state" where
  "upd_dashboard a f st =
     st\<lparr>pkg := (pkg st)\<lparr>p_dashboards :=
       (p_dashboards (pkg st))[a := f (p_dashboards (pkg st) ! a)]\<rparr>\<rparr>"

definition endpoint_at :: "'b state \<Rightarrow> nat \<Rightarrow> notificationEndpoint" where
  "endpoint_at st a = p_endpoints (pkg st) ! a"

definition upd_endpoint ::
  "nat \<Rightarrow> (notificationEndpoint \<Rightarrow> notificationEndpoint) \<Rightarrow> 'b state \<Rightarrow> 'b state" where
  "upd_endpoint a f st =
     st\<lparr>pkg := (pkg st)\<lparr>p_endpoints :=
       (p_endpoints (pkg st))[a := f (p_endpoints (pkg st) ! a)]\<rparr>\<rparr>"

definition telegraf_at :: "'b state \<Rightarrow> nat \<Rightarrow> telegraf" where
  "telegraf_at st a = p_telegrafs (pkg st) ! a"

definition upd_telegraf :: "nat \<Rightarrow> (telegraf \<Rightarrow> telegraf) \<Rightarrow> 'b state \<Rightarrow> 'b state" where
  "upd_telegraf a f st =
     st\<lparr>pkg := (pkg st)\<lparr>p_telegrafs :=
       (p_telegrafs (pkg st))[a := f (p_telegrafs (pkg st) ! a)]\<rparr>\<rparr>"

text \<open>All pointers to the records of one kind, in the order of the package's list.\<close>

definition ptrs :: "'a list \<Rightarrow> nat list" where
  "ptrs xs = [0..<length xs]"

subsubsection \<open>Buckets\<close>

definition applyBucket ::
  "models \<Rightarrow> 'b Service \<Rightarrow> bucket \<Rightarrow> 'b state \<Rightarrow> (error + Bucket) \<times> 'b state" where
  "applyBucket M s b st =
     (let rp = RP M (b_RetentionRules b) in
      if b_existing b \<noteq> None then
        (let upd = \<lparr>bu_Description = Some (b_Description b), bu_RetentionPeriod = Some rp\<rparr>
         in port_val (UpdateBucket (bucket_ID M b) upd)
              (bucketSVC_UpdateBucket s (bucket_ID M b) upd) st)
      else
        (let influxBucket = \<lparr>bkt_ID = 0, bkt_OrgID = b_OrgID b, bkt_Name = b_name b,
               bkt_Description = b_Description b, bkt_RetentionPeriod = rp\<rparr>
         in port_val (CreateBucket influxBucket) (bucketSVC_CreateBucket s influxBucket) st))"

fun rollbackBuckets_loop ::
  "models \<Rightarrow> 'b Service \<Rightarrow> bucket list \<Rightarrow> string list \<Rightarrow> 'b state
     \<Rightarrow> string list \<times> 'b state" where
  "rollbackBuckets_loop M s [] errs st = (errs, st)"
| "rollbackBuckets_loop M s (b # bs) errs st =
     (if b_existing b = None then
        (case port_err (DeleteBucket (bucket_ID M b))
                (bucketSVC_DeleteBucket s (bucket_ID M b)) st of
           (err, st') \<Rightarrow>
             rollbackBuckets_loop M s bs
               (if err \<noteq> None then errs @ [ID_String M (bucket_ID M b)] else errs) st')
      else
        (let rp = RP M (b_RetentionRules b);
             upd = \<lparr>bu_Description = Some (b_Description b), bu_RetentionPeriod = Some rp\<rparr>
         in case port_val (UpdateBucket (bucket_ID M b) upd)
                  (bucketSVC_UpdateBucket s (bucket_ID M b) upd) st of
              (r, st') \<Rightarrow>
                rollbackBuckets_loop M s bs
                  (if err_of r \<noteq> None then errs @ [ID_String M (bucket_ID M b)] else errs)
                  st'))"

definition rollbackBuckets ::
  "models \<Rightarrow> 'b Service \<Rightarrow> bucket list \<Rightarrow> 'b state \<Rightarrow> error option \<times> 'b state" where
  "rollbackBuckets M s buckets st =
     (case rollbackBuckets_loop M s buckets [] st of
        (errs, st') \<Rightarrow>
          (if 0 < length errs
           then Some (''bucket_ids=['' @ Join errs '', '' @ ''] err='' @ dq
                      @ ''unable to delete bucket'' @ dq)
           else None, st'))"

definition applyBuckets_createFn ::
  "models \<Rightarrow> 'b Service \<Rightarrow> nat list \<Rightarrow> nat \<Rightarrow> ID \<Rightarrow> ID \<Rightarrow> 'b state
     \<Rightarrow> applyErrBody option \<times> 'b state" where
  "applyBuckets_createFn M s buckets i orgID userID st =
     (let a = buckets ! i;
          st1 = upd_bucket a (\<lambda>b. b\<lparr>b_OrgID := orgID\<rparr>) st;
          b = bucket_at st1 a
      in if \<not> bucket_shouldApply M b then (None, st1)
         else (case applyBucket M s b st1 of
                 (Inl err, st2) \<Rightarrow> (Some \<lparr>aeb_name = b_name b, aeb_msg = err\<rparr>, st2)
               | (Inr influxBucket, st2) \<Rightarrow>
                   (None, (upd_bucket a (\<lambda>b. b\<lparr>b_id := bkt_ID influxBucket\<rparr>) st2)
                            \<lparr>rb_buckets := rb_buckets st2 @ [a]\<rparr>)))"

definition applyBuckets :: "models \<Rightarrow> 'b Service \<Rightarrow> nat list \<Rightarrow> 'b applier" where
  "applyBuckets M s buckets =
     \<lparr>creater = \<lparr>entries = length buckets, c_fn = applyBuckets_createFn M s buckets\<rparr>,
      rollbacker = \<lparr>resource = ''bucket'',
        r_fn = (\<lambda>st. rollbackBuckets M s (map (bucket_at st) (rb_buckets st)) st)\<rparr>\<rparr>"

subsubsection \<open>Deleting by id\<close>

fun deleteByIDs_loop ::
  "models \<Rightarrow> (ID \<Rightarrow> 'b state \<Rightarrow> error option \<times> 'b state) \<Rightarrow> (nat \<Rightarrow> ID) \<Rightarrow> nat list
     \<Rightarrow> string list \<Rightarrow> 'b state \<Rightarrow> string list \<times> 'b state" where
  "deleteByIDs_loop M deleteFn iterFn [] errs st = (errs, st)"
| "deleteByIDs_loop M deleteFn iterFn (i # is) errs st =
     (let id = iterFn i in
      case deleteFn id st of
        (err, st') \<Rightarrow>
          deleteByIDs_loop M deleteFn iterFn is
            (if err \<noteq> None then errs @ [ID_String M id] else errs) st')"

definition deleteByIDs ::
  "models \<Rightarrow> string \<Rightarrow> nat \<Rightarrow> (ID \<Rightarrow> 'b state \<Rightarrow> error option \<times> 'b state) \<Rightarrow> (nat \<Rightarrow> ID)
     \<Rightarrow> 'b state \<Rightarrow> error option \<times> 'b state" where
  "deleteByIDs M res numIDs deleteFn iterFn st =
     (case deleteByIDs_loop M deleteFn iterFn [0..<numIDs] [] st of
        (errs, st') \<Rightarrow>
          (if 0 < length errs
           then Some (res @ ''_ids=['' @ Join errs '', '' @ ''] err='' @ dq
                      @ ''unable to delete'' @ dq)
           else None, st'))"

subsubsection \<open>Dashboards\<close>

definition int32 :: "64 word \<Rightarrow> 32 word" where
  "int32 x = ucast x"

definition convertChartsToCells :: "models \<Rightarrow> chart list \<Rightarrow> Cell list" where
  "convertChartsToCells M ch =
     map (\<lambda>c. \<lparr>cell_X = int32 (ch_XPos c), cell_Y = int32 (ch_YPos c),
               cell_H = int32 (ch_Height c), cell_W = int32 (ch_Width c),
               cell_View_Name = ch_Name c, cell_View_Properties = chart_properties M c\<rparr>) ch"

definition applyDashboard ::
  "models \<Rightarrow> 'b Service \<Rightarrow> dashboard \<Rightarrow> 'b state \<Rightarrow> (error + Dashboard) \<times> 'b state" where
  "applyDashboard M s d st =
     (let cells = convertChartsToCells M (d_Charts d);
          influxDashboard = \<lparr>dash_ID = 0, dash_OrganizationID = d_OrgID d,
            dash_Name = d_name d, dash_Description = d_Description d, dash_Cells = cells\<rparr>
      in port_val (CreateDashboard influxDashboard)
           (dashSVC_CreateDashboard s influxDashboard) st)"

definition applyDashboards_createFn ::
  "models \<Rightarrow> 'b Service \<Rightarrow> nat list \<Rightarrow> nat \<Rightarrow> ID \<Rightarrow> ID \<Rightarrow> 'b state
     \<Rightarrow> applyErrBody option \<times> 'b state" where
  "applyDashboards_createFn M s dashboards i orgID userID st =
     (let a = dashboards ! i;
          st1 = upd_dashboard a (\<lambda>d. d\<lparr>d_OrgID := orgID\<rparr>) st;
          d = dashboard_at st1 a
      in case applyDashboard M s d st1 of
           (Inl err, st2) \<Rightarrow> (Some \<lparr>aeb_name = d_name d, aeb_msg = err\<rparr>, st2)
         | (Inr influxBucket, st2) \<Rightarrow>
             (None, (upd_dashboard a (\<lambda>d. d\<lparr>d_id := dash_ID influxBucket\<rparr>) st2)
                      \<lparr>rb_dashboards := rb_dashboards st2 @ [a]\<rparr>))"

definition applyDashboards :: "models \<Rightarrow> 'b Service \<Rightarrow> nat list \<Rightarrow> 'b applier" where
  "applyDashboards M s dashboards =
     \<lparr>creater = \<lparr>entries = length dashboards,
                 c_fn = applyDashboards_createFn M s dashboards\<rparr>,
      rollbacker = \<lparr>resource = ''dashboard'',
        r_fn = (\<lambda>st. deleteByIDs M ''dashboard'' (length (rb_dashboards st))
                  (\<lambda>id. port_err (DeleteDashboard id) (dashSVC_DeleteDashboard s id))
                  (\<lambda>i. dashboard_ID M (dashboard_at st (rb_dashboards st ! i))) st)\<rparr>\<rparr>"

subsubsection \<open>Labels\<close>

definition applyLabel ::
  "models \<Rightarrow> 'b Service \<Rightarrow> label \<Rightarrow> 'b state \<Rightarrow> (error + Label) \<times> 'b state" where
  "applyLabel M s l st =
     (if l_existing l \<noteq> None then
        (let upd = \<lparr>lu_Properties = label_properties M l\<rparr>
         in port_val (UpdateLabel (label_ID M l) upd)
              (labelSVC_UpdateLabel s (label_ID M l) upd) st)
      else
        (let influxLabel = toInfluxLabel M l
         in port_val (CreateLabel influxLabel) (labelSVC_CreateLabel s influxLabel) st))"

fun rollbackLabels_loop ::
  "models \<Rightarrow> 'b Service \<Rightarrow> label list \<Rightarrow> string list \<Rightarrow> 'b state
     \<Rightarrow> string list \<times> 'b state" where
  "rollbackLabels_loop M s [] errs st = (errs, st)"
| "rollbackLabels_loop M s (l # ls) errs st =
     (case l_existing l of
        None \<Rightarrow>
          (case port_err (DeleteLabel (label_ID M l))
                  (labelSVC_DeleteLabel s (label_ID M l)) st of
             (err, st') \<Rightarrow>
               rollbackLabels_loop M s ls
                 (if err \<noteq> None then errs @ [ID_String M (label_ID M l)] else errs) st')
      | Some existing \<Rightarrow>
          (let upd = \<lparr>lu_Properties = lbl_Properties existing\<rparr>
           in case port_val (UpdateLabel (label_ID M l) upd)
                    (labelSVC_UpdateLabel s (label_ID M l) upd) st of
                (r, st') \<Rightarrow>
                  rollbackLabels_loop M s ls
                    (if err_of r \<noteq> None then errs @ [ID_String M (label_ID M l)] else errs)
                    st'))"

definition rollbackLabels ::
  "models \<Rightarrow> 'b Service \<Rightarrow> label list \<Rightarrow> 'b state \<Rightarrow> error option \<times> 'b state" where
  "rollbackLabels M s labels st =
     (case rollbackLabels_loop M s labels [] st of
        (errs, st') \<Rightarrow>
          (if 0 < length errs
           then Some (''label_ids=['' @ Join errs '', '' @ ''] err='' @ dq
                      @ ''unable to delete label'' @ dq)
           else None, st'))"

definition applyLabels_createFn ::
  "models \<Rightarrow> 'b Service \<Rightarrow> nat list \<Rightarrow> nat \<Rightarrow> ID \<Rightarrow> ID \<Rightarrow> 'b state
     \<Rightarrow> applyErrBody option \<times> 'b state" where
  "applyLabels_createFn M s labels i orgID userID st =
     (let a = labels ! i;
          st1 = upd_label a (\<lambda>l. l\<lparr>l_OrgID := orgID\<rparr>) st;
          l = label_at st1 a
      in if \<not> label_shouldApply M l then (None, st1)
         else (case applyLabel M s l st1 of
                 (Inl err, st2) \<Rightarrow> (Some \<lparr>aeb_name = l_name l, aeb_msg = err\<rparr>, st2)
               | (Inr influxLabel, st2) \<Rightarrow>
                   (None, (upd_label a (\<lambda>l. l\<lparr>l_id := lbl_ID influxLabel\<rparr>) st2)
                            \<lparr>rb_labels := rb_labels st2 @ [a]\<rparr>)))"

definition applyLabels :: "models \<Rightarrow> 'b Service \<Rightarrow> nat list \<Rightarrow> 'b applier" where
  "applyLabels M s labels =
     \<lparr>creater = \<lparr>entries = length labels, c_fn = applyLabels_createFn M s labels\<rparr>,
      rollbacker = \<lparr>resource = ''label'',
        r_fn = (\<lambda>st. rollbackLabels M s (map (label_at st) (rb_labels st)) st)\<rparr>\<rparr>"

subsubsection \<open>Notification endpoints\<close>

definition applyNotificationEndpoint ::
  "models \<Rightarrow> 'b Service \<Rightarrow> notificationEndpoint \<Rightarrow> ID \<Rightarrow> 'b state
     \<Rightarrow> (error + NotificationEndpoint) \<times> 'b state" where
  "applyNotificationEndpoint M s e userID st =
     (case e_existing e of
        Some existing \<Rightarrow>
          port_val (UpdateNotificationEndpoint (endpoint_ID M e) existing userID)
            (endpointSVC_UpdateNotificationEndpoint s (endpoint_ID M e) existing userID) st
      | None \<Rightarrow>
          (let actual = summarize M e
           in port_val (CreateNotificationEndpoint actual userID)
                (endpointSVC_CreateNotificationEndpoint s actual userID) st))"

text \<open>
  One round of the loop over \<^verbatim>\<open>influxEndpoint.SecretFields()\<close>; the default case prints a
  line to the standard output and changes nothing.
\<close>

definition set_secret :: "string \<Rightarrow> notificationEndpoint \<Rightarrow> notificationEndpoint" where
  "set_secret key e =
     (if HasSuffix key ''-routing-key'' then e\<lparr>e_routingKey := (e_routingKey e)\<lparr>Secret := key\<rparr>\<rparr>
      else if HasSuffix key ''-token'' then e\<lparr>e_token := (e_token e)\<lparr>Secret := key\<rparr>\<rparr>
      else if HasSuffix key ''-username'' then e\<lparr>e_username := (e_username e)\<lparr>Secret := key\<rparr>\<rparr>
      else if HasSuffix key ''-password'' then e\<lparr>e_password := (e_password e)\<lparr>Secret := key\<rparr>\<rparr>
      else e)"

fun rollbackNotificationEndpoints_loop ::
  "models \<Rightarrow> 'b Service \<Rightarrow> notificationEndpoint list \<Rightarrow> string list \<Rightarrow> 'b state
     \<Rightarrow> string list \<times> 'b state" where
  "rollbackNotificationEndpoints_loop M s [] errs st = (errs, st)"
| "rollbackNotificationEndpoints_loop M s (e # es) errs st =
     (case e_existing e of
        None \<Rightarrow>
          (case port_err (DeleteNotificationEndpoint (endpoint_ID M e))
                  (endpointSVC_DeleteNotificationEndpoint s (endpoint_ID M e)) st of
             (err, st') \<Rightarrow>
               rollbackNotificationEndpoints_loop M s es
                 (if err \<noteq> None then errs @ [ID_String M (endpoint_ID M e)] else errs) st')
      | Some existing \<Rightarrow>
          (case port_val (UpdateNotificationEndpoint (endpoint_ID M e) existing 0)
                  (endpointSVC_UpdateNotificationEndpoint s (endpoint_ID M e) existing 0) st of
             (r, st') \<Rightarrow>
               rollbackNotificationEndpoints_loop M s es
                 (if err_of r \<noteq> None then errs @ [ID_String M (endpoint_ID M e)] else errs)
                 st'))"

definition rollbackNotificationEndpoints ::
  "models \<Rightarrow> 'b Service \<Rightarrow> notificationEndpoint list \<Rightarrow> 'b state
     \<Rightarrow> error option \<times> 'b state" where
  "rollbackNotificationEndpoints M s endpoints st =
     (case rollbackNotificationEndpoints_loop M s endpoints [] st of
        (errs, st') \<Rightarrow>
          (if 0 < length errs
           then Some (''notication_endpoint_ids=['' @ Join errs '', '' @ ''] err='' @ dq
                      @ ''unable to delete'' @ dq)
           else None, st'))"

definition applyNotificationEndpoints_createFn ::
  "models \<Rightarrow> 'b Service \<Rightarrow> nat list \<Rightarrow> nat \<Rightarrow> ID \<Rightarrow> ID \<Rightarrow> 'b state
     \<Rightarrow> applyErrBody option \<times> 'b state" where
  "applyNotificationEndpoints_createFn M s endpoints i orgID userID st =
     (let a = endpoints ! i;
          st1 = upd_endpoint a (\<lambda>e. e\<lparr>e_OrgID := orgID\<rparr>) st;
          endpoint = endpoint_at st1 a
      in case applyNotificationEndpoint M s endpoint userID st1 of
           (Inl err, st2) \<Rightarrow> (Some \<lparr>aeb_name = e_name endpoint, aeb_msg = err\<rparr>, st2)
         | (Inr influxEndpoint, st2) \<Rightarrow>
             (None,
              (upd_endpoint a
                 (\<lambda>e. foldl (\<lambda>e key. set_secret key e) (e\<lparr>e_id := ep_ID influxEndpoint\<rparr>)
                        (ep_SecretFields influxEndpoint)) st2)
                 \<lparr>rb_endpoints := rb_endpoints st2 @ [a]\<rparr>))"

definition applyNotificationEndpoints ::
  "models \<Rightarrow> 'b Service \<Rightarrow> nat list \<Rightarrow> 'b applier" where
  "applyNotificationEndpoints M s endpoints =
     \<lparr>creater = \<lparr>entries = length endpoints,
                 c_fn = applyNotificationEndpoints_createFn M s endpoints\<rparr>,
      rollbacker = \<lparr>resource = ''notification_endpoints'',
        r_fn = (\<lambda>st. rollbackNotificationEndpoints M s
                        (map (endpoint_at st) (rb_endpoints st)) st)\<rparr>\<rparr>"

subsubsection \<open>Telegraf configurations\<close>

definition applyTelegrafs_createFn ::
  "models \<Rightarrow> 'b Service \<Rightarrow> nat list \<Rightarrow> nat \<Rightarrow> ID \<Rightarrow> ID \<Rightarrow> 'b state
     \<Rightarrow> applyErrBody option \<times> 'b state" where
  "applyTelegrafs_createFn M s teles i orgID userID st =
     (let a = teles ! i;
          st1 = upd_telegraf a (\<lambda>t. t\<lparr>t_config := (t_config t)\<lparr>tc_OrgID := orgID\<rparr>\<rparr>) st;
          cfg = t_config (telegraf_at st1 a)
      in case port_val (CreateTelegrafConfig cfg userID)
                (teleSVC_CreateTelegrafConfig s cfg userID) st1 of
           (Inl err, st2) \<Rightarrow> (Some \<lparr>aeb_name = tc_Name cfg, aeb_msg = err\<rparr>, st2)
         | (Inr cfg', st2) \<Rightarrow>
             (None, (upd_telegraf a (\<lambda>t. t\<lparr>t_config := cfg'\<rparr>) st2)
                      \<lparr>rb_telegrafs := rb_telegrafs st2 @ [a]\<rparr>))"

definition applyTelegrafs :: "models \<Rightarrow> 'b Service \<Rightarrow> nat list \<Rightarrow> 'b applier" where
  "applyTelegrafs M s teles =
     \<lparr>creater = \<lparr>entries = length teles, c_fn = applyTelegrafs_createFn M s teles\<rparr>,
      rollbacker = \<lparr>resource = ''telegrafs'',
        r_fn = (\<lambda>st. deleteByIDs M ''telegraf'' (length (rb_telegrafs st))
                  (\<lambda>id. port_err (DeleteTelegrafConfig id) (teleSVC_DeleteTelegrafConfig s id))
                  (\<lambda>i. telegraf_ID M (telegraf_at st (rb_telegrafs st ! i))) st)\<rparr>\<rparr>"

subsubsection \<open>Variables\<close>

definition applyVariable ::
  "models \<Rightarrow> 'b Service \<Rightarrow> variable \<Rightarrow> 'b state \<Rightarrow> (error + Variable) \<times> 'b state" where
  "applyVariable M s v st =
     (if v_existing v \<noteq> None then
        (let upd = \<lparr>vu_Description = v_Description v, vu_Arguments = influxVarArgs M v\<rparr>
         in port_val (UpdateVariable (variable_ID M v) upd)
              (varSVC_UpdateVariable s (variable_ID M v) upd) st)
      else
        (let influxVar = \<lparr>var_ID = 0, var_OrganizationID = v_OrgID v, var_Name = v_name v,
               var_Description = v_Description v, var_Arguments = influxVarArgs M v\<rparr>
         in port_val (CreateVariable influxVar) (varSVC_CreateVariable s influxVar) st))"

fun rollbackVariables_loop ::
  "models \<Rightarrow> 'b Service \<Rightarrow> variable list \<Rightarrow> string list \<Rightarrow> 'b state
     \<Rightarrow> string list \<times> 'b state" where
  "rollbackVariables_loop M s [] errs st = (errs, st)"
| "rollbackVariables_loop M s (v # vs) errs st =
     (case v_existing v of
        None \<Rightarrow>
          (case port_err (DeleteVariable (variable_ID M v))
                  (varSVC_DeleteVariable s (variable_ID M v)) st of
             (err, st') \<Rightarrow>
               rollbackVariables_loop M s vs
                 (if err \<noteq> None then errs @ [ID_String M (variable_ID M v)] else errs) st')
      | Some existing \<Rightarrow>
          (let upd = \<lparr>vu_Description = var_Description existing,
                      vu_Arguments = var_Arguments existing\<rparr>
           in case port_val (UpdateVariable (variable_ID M v) upd)
                    (varSVC_UpdateVariable s (variable_ID M v) upd) st of
                (r, st') \<Rightarrow>
                  rollbackVariables_loop M s vs
                    (if err_of r \<noteq> None then errs @ [ID_String M (variable_ID M v)]
                     else errs) st'))"

definition rollbackVariables ::
  "models \<Rightarrow> 'b Service \<Rightarrow> variable list \<Rightarrow> 'b state \<Rightarrow> error option \<times> 'b state" where
  "rollbackVariables M s variables st =
     (case rollbackVariables_loop M s variables [] st of
        (errs, st') \<Rightarrow>
          (if 0 < length errs
           then Some (''variable_ids=['' @ Join errs '', '' @ ''] err='' @ dq
                      @ ''unable to delete variable'' @ dq)
           else None, st'))"

definition applyVariables_createFn ::
  "models \<Rightarrow> 'b Service \<Rightarrow> nat list \<Rightarrow> nat \<Rightarrow> ID \<Rightarrow> ID \<Rightarrow> 'b state
     \<Rightarrow> applyErrBody option \<times> 'b state" where
  "applyVariables_createFn M s vars i orgID userID st =
     (let a = vars ! i;
          st1 = upd_variable a (\<lambda>v. v\<lparr>v_OrgID := orgID\<rparr>) st;
          v = variable_at st1 a
      in if \<not> variable_shouldApply M v then (None, st1)
         else (case applyVariable M s v st1 of
                 (Inl err, st2) \<Rightarrow> (Some \<lparr>aeb_name = v_name v, aeb_msg = err\<rparr>, st2)
               | (Inr influxVar, st2) \<Rightarrow>
                   (None, (upd_variable a (\<lambda>v. v\<lparr>v_id := var_ID influxVar\<rparr>) st2)
                            \<lparr>rb_vars := rb_vars st2 @ [a]\<rparr>)))"

definition applyVariables :: "models \<Rightarrow> 'b Service \<Rightarrow> nat list \<Rightarrow> 'b applier" where
  "applyVariables M s vars =
     \<lparr>creater = \<lparr>entries = length vars, c_fn = applyVariables_createFn M s vars\<rparr>,
      rollbacker = \<lparr>resource = ''variable'',
        r_fn = (\<lambda>st. rollbackVariables M s (map (variable_at st) (rb_vars st)) st)\<rparr>\<rparr>"

subsubsection \<open>Label mappings\<close>

fun rollbackLabelMappings_loop ::
  "models \<Rightarrow> 'b Service \<Rightarrow> LabelMapping list \<Rightarrow> string list \<Rightarrow> 'b state
     \<Rightarrow> string list \<times> 'b state" where
  "rollbackLabelMappings_loop M s [] errs st = (errs, st)"
| "rollbackLabelMappings_loop M s (l # ls) errs st =
     (case port_err (DeleteLabelMapping l) (labelSVC_DeleteLabelMapping s l) st of
        (err, st') \<Rightarrow>
          rollbackLabelMappings_loop M s ls
            (if err \<noteq> None
             then errs @ [ID_String M (lm_LabelID l) @ '':'' @ ID_String M (lm_ResourceID l)]
             else errs) st')"

definition rollbackLabelMappings ::
  "models \<Rightarrow> 'b Service \<Rightarrow> LabelMapping list \<Rightarrow> 'b state \<Rightarrow> error option \<times> 'b state" where
  "rollbackLabelMappings M s mappings st =
     (case rollbackLabelMappings_loop M s mappings [] st of
        (errs, st') \<Rightarrow>
          (if 0 < length errs
           then Some (''label_resource_id_pairs=['' @ Join errs '', '' @ ''] err='' @ dq
                      @ ''unable to delete label'' @ dq)
           else None, st'))"

definition applyLabelMappings_createFn ::
  "models \<Rightarrow> 'b Service \<Rightarrow> SummaryLabelMapping list \<Rightarrow> nat \<Rightarrow> ID \<Rightarrow> ID \<Rightarrow> 'b state
     \<Rightarrow> applyErrBody option \<times> 'b state" where
  "applyLabelMappings_createFn M s labelMappings' i orgID userID st =
     (let mapping = labelMappings' ! i
      in if slm_exists mapping then (None, st)
         else
           (let m = \<lparr>lm_LabelID = slm_LabelID mapping, lm_ResourceID = slm_ResourceID mapping,
                     lm_ResourceType = slm_ResourceType mapping\<rparr>
            in case port_err (CreateLabelMapping m) (labelSVC_CreateLabelMapping s m) st of
                 (Some err, st2) \<Rightarrow>
                   (Some \<lparr>aeb_name = slm_ResourceType mapping @ '':''
                            @ ID_String M (slm_ResourceID mapping) @ '':''
                            @ ID_String M (slm_LabelID mapping),
                          aeb_msg = err\<rparr>, st2)
               | (None, st2) \<Rightarrow> (None, st2\<lparr>rb_mappings := rb_mappings st2 @ [m]\<rparr>)))"

definition applyLabelMappings ::
  "models \<Rightarrow> 'b Service \<Rightarrow> SummaryLabelMapping list \<Rightarrow> 'b applier" where
  "applyLabelMappings M s labelMappings' =
     \<lparr>creater = \<lparr>entries = length labelMappings',
                 c_fn = applyLabelMappings_createFn M s labelMappings'\<rparr>,
      rollbacker = \<lparr>resource = ''label_mapping'',
        r_fn = (\<lambda>st. rollbackLabelMappings M s (rb_mappings st) st)\<rparr>\<rparr>"

subsection \<open>An instance for the examples\<close>

text \<open>
  The theorems hold for every choice of the methods and of the ports. The examples need
  one choice. In \<open>M0\<close> a record that has an existing match reports the id of the match and
  is said to exist, every record should be applied, validation succeeds and marks the
  package parsed, \<^verbatim>\<open>setMapping\<close> notes the resource and the flag on the label, and
  \<^verbatim>\<open>labelMappings()\<close> lists what was noted.
\<close>

definition bucket_ID0 :: "bucket \<Rightarrow> ID" where
  "bucket_ID0 b = (case b_existing b of Some i \<Rightarrow> bkt_ID i | None \<Rightarrow> b_id b)"

definition label_ID0 :: "label \<Rightarrow> ID" where
  "label_ID0 l = (case l_existing l of Some i \<Rightarrow> lbl_ID i | None \<Rightarrow> l_id l)"

definition variable_ID0 :: "variable \<Rightarrow> ID" where
  "variable_ID0 v = (case v_existing v of Some i \<Rightarrow> var_ID i | None \<Rightarrow> v_id v)"

definition endpoint_ID0 :: "notificationEndpoint \<Rightarrow> ID" where
  "endpoint_ID0 e = (case e_existing e of Some i \<Rightarrow> ep_ID i | None \<Rightarrow> e_id e)"

definition ResourceType0 :: "Kind \<Rightarrow> string" where
  "ResourceType0 k =
     (if k = KindBucket then ''buckets'' else if k = KindDashboard then ''dashboards''
      else if k = KindLabel then ''labels'' else if k = KindTelegraf then ''telegrafs''
      else if k = KindVariable then ''variables'' else ''notificationEndpoints'')"

definition resource_ID0 :: "Pkg \<Rightarrow> string \<Rightarrow> string \<Rightarrow> ID" where
  "resource_ID0 p resType name =
     (if resType = ''buckets'' then
        (case find (\<lambda>b. b_name b = name) (p_buckets p) of
           Some b \<Rightarrow> bucket_ID0 b | None \<Rightarrow> 0)
      else if resType = ''variables'' then
        (case find (\<lambda>v. v_name v = name) (p_variables p) of
           Some v \<Rightarrow> variable_ID0 v | None \<Rightarrow> 0)
      else if resType = ''dashboards'' then
        (case find (\<lambda>d. d_name d = name) (p_dashboards p) of
           Some d \<Rightarrow> d_id d | None \<Rightarrow> 0)
      else if resType = ''telegrafs'' then
        (case find (\<lambda>t. tc_Name (t_config t) = name) (p_telegrafs p) of
           Some t \<Rightarrow> tc_ID (t_config t) | None \<Rightarrow> 0)
      else
        (case find (\<lambda>e. e_name e = name) (p_endpoints p) of
           Some e \<Rightarrow> endpoint_ID0 e | None \<Rightarrow> 0))"

definition labelMappings0 :: "Pkg \<Rightarrow> SummaryLabelMapping list" where
  "labelMappings0 p =
     concat (map (\<lambda>l. map (\<lambda>((resType, name), ex).
                    \<lparr>slm_exists = ex, slm_ResourceID = resource_ID0 p resType name,
                     slm_ResourceType = resType, slm_LabelID = label_ID0 l\<rparr>) (l_mappings l))
            (p_labels p))"

definition M0 :: models where
  "M0 = \<lparr>Validate = (\<lambda>p. (None, p\<lparr>isParsed := True\<rparr>)),
     IsParseErr = (\<lambda>e. False),
     secrets = mSecrets,
     labelMappings = labelMappings0,
     bucket_ID = bucket_ID0,
     label_ID = label_ID0,
     variable_ID = variable_ID0,
     dashboard_ID = d_id,
     endpoint_ID = endpoint_ID0,
     telegraf_ID = (\<lambda>t. tc_ID (t_config t)),
     bucket_shouldApply = (\<lambda>b. True),
     label_shouldApply = (\<lambda>l. True),
     variable_shouldApply = (\<lambda>v. True),
     RP = (\<lambda>rules. case rules of [] \<Rightarrow> 0 | r # _ \<Rightarrow> r),
     label_properties = l_props,
     toInfluxLabel = (\<lambda>l. \<lparr>lbl_ID = 0, lbl_OrgID = l_OrgID l, lbl_Name = l_name l,
                            lbl_Properties = l_props l\<rparr>),
     influxVarArgs = v_args,
     summarize = (\<lambda>e. \<lparr>ep_ID = 0, ep_OrgID = e_OrgID e, ep_Name = e_name e,
                        ep_SecretFields = [], ep_fields = e_fields e\<rparr>),
     chart_properties = (\<lambda>c. []),
     bucket_Exists = (\<lambda>b. b_existing b \<noteq> None),
     dashboard_Exists = (\<lambda>d. False),
     endpoint_Exists = (\<lambda>e. e_existing e \<noteq> None),
     telegraf_Exists = (\<lambda>t. False),
     variable_Exists = (\<lambda>v. v_existing v \<noteq> None),
     ResourceType = ResourceType0,
     setMapping = (\<lambda>la ex l.
        l\<lparr>l_mappings := l_mappings l @ [((la_ResourceType la, la_Name la), ex)]\<rparr>),
     ID_String = (\<lambda>i. [char_of (unat i)]),
     fmt_q = (\<lambda>x. dq @ x @ dq)\<rparr>"

text \<open>
  The platform of the examples: what it holds when the run starts, the next id it hands
  out, and the calls that are to fail. A find answers from what the platform holds, a
  create hands out the next id, an update answers with the record of that id.
\<close>

record platform =
  pf_next :: ID
  pf_secrets :: "string list"
  pf_buckets :: "Bucket list"
  pf_labels :: "Label list"
  pf_variables :: "Variable list"
  pf_endpoints :: "NotificationEndpoint list"
  pf_resource_labels :: "Label list"
  pf_fails :: "call \<Rightarrow> bool"

definition answer_err :: "call \<Rightarrow> platform \<Rightarrow> error option \<times> platform" where
  "answer_err c pf = (if pf_fails pf c then (Some ''boom'', pf) else (None, pf))"

definition answer_new :: "call \<Rightarrow> (ID \<Rightarrow> 'a) \<Rightarrow> platform \<Rightarrow> (error + 'a) \<times> platform" where
  "answer_new c f pf =
     (if pf_fails pf c then (Inl ''boom'', pf)
      else (Inr (f (pf_next pf)), pf\<lparr>pf_next := pf_next pf + 1\<rparr>))"

definition answer_val :: "call \<Rightarrow> 'a \<Rightarrow> platform \<Rightarrow> (error + 'a) \<times> platform" where
  "answer_val c x pf = (if pf_fails pf c then (Inl ''boom'', pf) else (Inr x, pf))"

definition S0 :: "platform Service" where
  "S0 = \<lparr>
     secretSVC_GetSecretKeys = (\<lambda>org pf. answer_val (GetSecretKeys org) (pf_secrets pf) pf),
     bucketSVC_FindBucketByName = (\<lambda>org name pf.
        case find (\<lambda>b. bkt_Name b = name) (pf_buckets pf) of
          None \<Rightarrow> (Inl ''bucket not found'', pf)
        | Some b \<Rightarrow> answer_val (FindBucketByName org name) b pf),
     bucketSVC_UpdateBucket = (\<lambda>id upd. answer_val (UpdateBucket id upd)
        \<lparr>bkt_ID = id, bkt_OrgID = 0, bkt_Name = [],
         bkt_Description = (case bu_Description upd of Some d \<Rightarrow> d | None \<Rightarrow> []),
         bkt_RetentionPeriod = (case bu_RetentionPeriod upd of Some r \<Rightarrow> r | None \<Rightarrow> 0)\<rparr>),
     bucketSVC_CreateBucket = (\<lambda>b. answer_new (CreateBucket b) (\<lambda>id. b\<lparr>bkt_ID := id\<rparr>)),
     bucketSVC_DeleteBucket = (\<lambda>id. answer_err (DeleteBucket id)),
     labelSVC_FindLabels = (\<lambda>name org pf.
        answer_val (FindLabels name org) (filter (\<lambda>l. lbl_Name l = name) (pf_labels pf)) pf),
     labelSVC_UpdateLabel = (\<lambda>id upd. answer_val (UpdateLabel id upd)
        \<lparr>lbl_ID = id, lbl_OrgID = 0, lbl_Name = [], lbl_Properties = lu_Properties upd\<rparr>),
     labelSVC_CreateLabel = (\<lambda>l. answer_new (CreateLabel l) (\<lambda>id. l\<lparr>lbl_ID := id\<rparr>)),
     labelSVC_DeleteLabel = (\<lambda>id. answer_err (DeleteLabel id)),
     labelSVC_FindResourceLabels = (\<lambda>id resType pf.
        answer_val (FindResourceLabels id resType) (pf_resource_labels pf) pf),
     labelSVC_CreateLabelMapping = (\<lambda>m. answer_err (CreateLabelMapping m)),
     labelSVC_DeleteLabelMapping = (\<lambda>m. answer_err (DeleteLabelMapping m)),
     endpointSVC_FindNotificationEndpoints = (\<lambda>org pf.
        answer_val (FindNotificationEndpoints org) (pf_endpoints pf) pf),
     endpointSVC_UpdateNotificationEndpoint = (\<lambda>id e userID.
        answer_val (UpdateNotificationEndpoint id e userID) (e\<lparr>ep_ID := id\<rparr>)),
     endpointSVC_CreateNotificationEndpoint = (\<lambda>e userID.
        answer_new (CreateNotificationEndpoint e userID) (\<lambda>id. e\<lparr>ep_ID := id\<rparr>)),
     endpointSVC_DeleteNotificationEndpoint = (\<lambda>id. answer_err (DeleteNotificationEndpoint id)),
     varSVC_FindVariables = (\<lambda>org pf. answer_val (FindVariables org) (pf_variables pf) pf),
     varSVC_UpdateVariable = (\<lambda>id upd. answer_val (UpdateVariable id upd)
        \<lparr>var_ID = id, var_OrganizationID = 0, var_Name = [],
         var_Description = vu_Description upd, var_Arguments = vu_Arguments upd\<rparr>),
     varSVC_CreateVariable = (\<lambda>v. answer_new (CreateVariable v) (\<lambda>id. v\<lparr>var_ID := id\<rparr>)),
     varSVC_DeleteVariable = (\<lambda>id. answer_err (DeleteVariable id)),
     dashSVC_CreateDashboard = (\<lambda>d. answer_new (CreateDashboard d) (\<lambda>id. d\<lparr>dash_ID := id\<rparr>)),
     dashSVC_DeleteDashboard = (\<lambda>id. answer_err (DeleteDashboard id)),
     teleSVC_CreateTelegrafConfig = (\<lambda>cfg userID.
        answer_new (CreateTelegrafConfig cfg userID) (\<lambda>id. cfg\<lparr>tc_ID := id\<rparr>)),
     teleSVC_DeleteTelegrafConfig = (\<lambda>id. answer_err (DeleteTelegrafConfig id))\<rparr>"

definition platform0 :: platform where
  "platform0 = \<lparr>pf_next = 100, pf_secrets = [], pf_buckets = [], pf_labels = [],
     pf_variables = [], pf_endpoints = [], pf_resource_labels = [],
     pf_fails = (\<lambda>c. False)\<rparr>"

definition pkg0 :: Pkg where
  "pkg0 = \<lparr>isParsed = True, isVerified = True, mSecrets = [], p_labels = [],
     p_buckets = [], p_variables = [], p_dashboards = [], p_endpoints = [],
     p_telegrafs = []\<rparr>"

definition state0 :: "platform \<Rightarrow> Pkg \<Rightarrow> platform state" where
  "state0 pf p = \<lparr>trace = [], backend = pf, pkg = p, rb_labels = [], rb_vars = [],
     rb_buckets = [], rb_dashboards = [], rb_endpoints = [], rb_telegrafs = [],
     rb_mappings = []\<rparr>"

subsection \<open>Go maps\<close>

text \<open>
  A Go map is an association list with one entry for each key. Ranging over a Go map
  visits the entries in an order the language leaves open; the model visits them in the
  order of the list, which is one of these orders.
\<close>

fun map_put :: "'k \<Rightarrow> 'v \<Rightarrow> ('k \<times> 'v) list \<Rightarrow> ('k \<times> 'v) list" where
  "map_put k v [] = [(k, v)]"
| "map_put k v ((k', v') # m) = (if k = k' then (k, v) # m else (k', v') # map_put k v m)"

definition map_delete :: "'k \<Rightarrow> ('k \<times> 'v) list \<Rightarrow> ('k \<times> 'v) list" where
  "map_delete k m = filter (\<lambda>kv. fst kv \<noteq> k) m"

subsection \<open>The dry run\<close>

fun dryRunBuckets_loop ::
  "'b Service \<Rightarrow> ID \<Rightarrow> nat list \<Rightarrow> (string \<times> (bucket, Bucket) DiffEntry) list \<Rightarrow> 'b state
     \<Rightarrow> (string \<times> (bucket, Bucket) DiffEntry) list \<times> 'b state" where
  "dryRunBuckets_loop s orgID [] mExistingBkts st = (mExistingBkts, st)"
| "dryRunBuckets_loop s orgID (a # bkts) mExistingBkts st =
     (let b = bucket_at st a in
      case port_val (FindBucketByName orgID (b_name b))
             (bucketSVC_FindBucketByName s orgID (b_name b)) st of
        (Inr existingBkt, st1) \<Rightarrow>
          (let st2 = upd_bucket a (\<lambda>b. b\<lparr>b_existing := Some existingBkt\<rparr>) st1
           in dryRunBuckets_loop s orgID bkts
                (map_put (b_name b) (newDiffBucket (bucket_at st2 a) (Some existingBkt))
                   mExistingBkts) st2)
      | (Inl err, st1) \<Rightarrow>
          dryRunBuckets_loop s orgID bkts
            (map_put (b_name b) (newDiffBucket b None) mExistingBkts) st1)"

definition dryRunBuckets ::
  "'b Service \<Rightarrow> ID \<Rightarrow> 'b state
     \<Rightarrow> (error + (bucket, Bucket) DiffEntry list) \<times> 'b state" where
  "dryRunBuckets s orgID st =
     (case dryRunBuckets_loop s orgID (ptrs (p_buckets (pkg st))) [] st of
        (mExistingBkts, st') \<Rightarrow>
          (Inr (sort_Slice (\<lambda>di dj. Name di < Name dj) (map snd mExistingBkts)), st'))"

definition dryRunDashboards :: "Pkg \<Rightarrow> (dashboard, unit) DiffEntry list" where
  "dryRunDashboards p = map newDiffDashboard (p_dashboards p)"

fun dryRunLabels_loop ::
  "'b Service \<Rightarrow> ID \<Rightarrow> nat list \<Rightarrow> (string \<times> (label, Label) DiffEntry) list \<Rightarrow> 'b state
     \<Rightarrow> (string \<times> (label, Label) DiffEntry) list \<times> 'b state" where
  "dryRunLabels_loop s orgID [] mExistingLabels st = (mExistingLabels, st)"
| "dryRunLabels_loop s orgID (a # labels) mExistingLabels st =
     (let pkgLabel = label_at st a in
      case port_val (FindLabels (l_name pkgLabel) orgID)
             (labelSVC_FindLabels s (l_name pkgLabel) orgID) st of
        (Inr (existingLabel # _), st1) \<Rightarrow>
          (let st2 = upd_label a (\<lambda>l. l\<lparr>l_existing := Some existingLabel\<rparr>) st1
           in dryRunLabels_loop s orgID labels
                (map_put (l_name pkgLabel) (newDiffLabel (label_at st2 a) (Some existingLabel))
                   mExistingLabels) st2)
      | (_, st1) \<Rightarrow>
          dryRunLabels_loop s orgID labels
            (map_put (l_name pkgLabel) (newDiffLabel pkgLabel None) mExistingLabels) st1)"

definition dryRunLabels ::
  "'b Service \<Rightarrow> ID \<Rightarrow> 'b state \<Rightarrow> (error + (label, Label) DiffEntry list) \<times> 'b state" where
  "dryRunLabels s orgID st =
     (case dryRunLabels_loop s orgID (ptrs (p_labels (pkg st))) [] st of
        (mExistingLabels, st') \<Rightarrow>
          (Inr (sort_Slice (\<lambda>di dj. Name di < Name dj) (map snd mExistingLabels)), st'))"

fun dryRunNotificationEndpoints_loop ::
  "(string \<times> NotificationEndpoint) list \<Rightarrow> nat list
     \<Rightarrow> (string \<times> (notificationEndpoint, NotificationEndpoint) DiffEntry) list \<Rightarrow> 'b state
     \<Rightarrow> (string \<times> (notificationEndpoint, NotificationEndpoint) DiffEntry) list \<times> 'b state"
  where
  "dryRunNotificationEndpoints_loop mExisting [] mExistingToNew st = (mExistingToNew, st)"
| "dryRunNotificationEndpoints_loop mExisting (a # endpoints) mExistingToNew st =
     (let newEndpoint = endpoint_at st a in
      case map_of mExisting (e_name newEndpoint) of
        Some iExisting \<Rightarrow>
          (let st1 = upd_endpoint a (\<lambda>e. e\<lparr>e_existing := Some iExisting\<rparr>) st
           in dryRunNotificationEndpoints_loop mExisting endpoints
                (map_put (e_name newEndpoint)
                   (newDiffNotificationEndpoint (endpoint_at st1 a) (Some iExisting))
                   mExistingToNew) st1)
      | None \<Rightarrow>
          dryRunNotificationEndpoints_loop mExisting endpoints
            (map_put (e_name newEndpoint) (newDiffNotificationEndpoint newEndpoint None)
               mExistingToNew) st)"

definition dryRunNotificationEndpoints ::
  "'b Service \<Rightarrow> ID \<Rightarrow> 'b state
     \<Rightarrow> (error + (notificationEndpoint, NotificationEndpoint) DiffEntry list) \<times> 'b state"
  where
  "dryRunNotificationEndpoints s orgID st =
     (case port_val (FindNotificationEndpoints orgID)
             (endpointSVC_FindNotificationEndpoints s orgID) st of
        (Inl err, st1) \<Rightarrow> (Inl err, st1)
      | (Inr existingEndpoints, st1) \<Rightarrow>
          (let mExisting = foldl (\<lambda>m e. map_put (ep_Name e) e m) [] existingEndpoints
           in case dryRunNotificationEndpoints_loop mExisting (ptrs (p_endpoints (pkg st1)))
                     [] st1 of
                (mExistingToNew, st2) \<Rightarrow>
                  (Inr (sort_Slice (\<lambda>di dj. Name di < Name dj) (map snd mExistingToNew)),
                   st2)))"

definition dryRunSecrets ::
  "models \<Rightarrow> 'b Service \<Rightarrow> ID \<Rightarrow> 'b state \<Rightarrow> error option \<times> 'b state" where
  "dryRunSecrets M s orgID st =
     (let secrets = secrets M (pkg st) in
      if length secrets = 0 then (None, st)
      else (case port_val (GetSecretKeys orgID) (secretSVC_GetSecretKeys s orgID) st of
              (Inl err, st1) \<Rightarrow> (Some err, st1)
            | (Inr existingSecrets, st1) \<Rightarrow>
                (let secrets = filter (\<lambda>k. k \<notin> set existingSecrets) secrets in
                 if length secrets = 0 then (None, st1)
                 else (let missing = sort secrets
                       in (Some (''secrets to not exist for secret reference keys: ''
                                 @ Join missing '', ''), st1)))))"

definition dryRunTelegraf :: "Pkg \<Rightarrow> (telegraf, unit) DiffEntry list" where
  "dryRunTelegraf p = map newDiffTelegraf (p_telegrafs p)"

fun dryRunVariables_loop ::
  "'b Service \<Rightarrow> ID \<Rightarrow> nat list \<Rightarrow> (string \<times> (variable, Variable) DiffEntry) list
     \<Rightarrow> 'b state \<Rightarrow> (string \<times> (variable, Variable) DiffEntry) list \<times> 'b state" where
  "dryRunVariables_loop s orgID [] mExistingLabels st = (mExistingLabels, st)"
| "dryRunVariables_loop s orgID (a # variables) mExistingLabels st =
     (let pkgVar = variable_at st a in
      case port_val (FindVariables orgID) (varSVC_FindVariables s orgID) st of
        (r, st1) \<Rightarrow>
          (case (case r of Inr existingLabels \<Rightarrow>
                   find (\<lambda>existingVar. var_Name existingVar = v_name pkgVar) existingLabels
                 | Inl err \<Rightarrow> None) of
             Some existingVar \<Rightarrow>
               (let st2 = upd_variable a (\<lambda>v. v\<lparr>v_existing := Some existingVar\<rparr>) st1
                in dryRunVariables_loop s orgID variables
                     (map_put (v_name pkgVar)
                        (newDiffVariable (variable_at st2 a) (Some existingVar))
                        mExistingLabels) st2)
           | None \<Rightarrow>
               dryRunVariables_loop s orgID variables
                 (map_put (v_name pkgVar) (newDiffVariable pkgVar None) mExistingLabels) st1))"

definition dryRunVariables ::
  "'b Service \<Rightarrow> ID \<Rightarrow> 'b state
     \<Rightarrow> (error + (variable, Variable) DiffEntry list) \<times> 'b state" where
  "dryRunVariables s orgID st =
     (case dryRunVariables_loop s orgID (ptrs (p_variables (pkg st))) [] st of
        (mExistingLabels, st') \<Rightarrow>
          (Inr (sort_Slice (\<lambda>di dj. Name di < Name dj) (map snd mExistingLabels)), st'))"

subsubsection \<open>Label mappings\<close>

text \<open>
  \<^verbatim>\<open>mapperBuckets(pkg.buckets()).Association(i)\<close> is the bucket \<open>i\<close> behind the interface
  \<^verbatim>\<open>labelAssociater\<close>, and likewise for the other kinds; the resource type of a record is
  taken to be that of its kind. The dry run of the label mappings writes to labels only,
  so what a resource reports does not change while it runs.
\<close>

definition mapperBuckets :: "models \<Rightarrow> bucket list \<Rightarrow> labelAssociater list" where
  "mapperBuckets M bs =
     map (\<lambda>b. \<lparr>la_ID = bucket_ID M b, la_Name = b_name b, la_Labels = b_labels b,
               la_ResourceType = ResourceType M KindBucket, la_Exists = bucket_Exists M b\<rparr>) bs"

definition mapperDashboards :: "models \<Rightarrow> dashboard list \<Rightarrow> labelAssociater list" where
  "mapperDashboards M ds =
     map (\<lambda>d. \<lparr>la_ID = dashboard_ID M d, la_Name = d_name d, la_Labels = d_labels d,
               la_ResourceType = ResourceType M KindDashboard,
               la_Exists = dashboard_Exists M d\<rparr>) ds"

definition mapperNotificationEndpoints ::
  "models \<Rightarrow> notificationEndpoint list \<Rightarrow> labelAssociater list" where
  "mapperNotificationEndpoints M es =
     map (\<lambda>e. \<lparr>la_ID = endpoint_ID M e, la_Name = e_name e, la_Labels = e_labels e,
               la_ResourceType = ResourceType M KindNotificationEndpoint,
               la_Exists = endpoint_Exists M e\<rparr>) es"

definition mapperTelegrafs :: "models \<Rightarrow> telegraf list \<Rightarrow> labelAssociater list" where
  "mapperTelegrafs M ts =
     map (\<lambda>t. \<lparr>la_ID = telegraf_ID M t, la_Name = tc_Name (t_config t),
               la_Labels = t_labels t, la_ResourceType = ResourceType M KindTelegraf,
               la_Exists = telegraf_Exists M t\<rparr>) ts"

definition mapperVariables :: "models \<Rightarrow> variable list \<Rightarrow> labelAssociater list" where
  "mapperVariables M vs =
     map (\<lambda>v. \<lparr>la_ID = variable_ID M v, la_Name = v_name v, la_Labels = v_labels v,
               la_ResourceType = ResourceType M KindVariable,
               la_Exists = variable_Exists M v\<rparr>) vs"

text \<open>\<^verbatim>\<open>pkg.mLabels[labelName]\<close>: the pointer to the label of that name, or nil.\<close>

definition mLabels :: "Pkg \<Rightarrow> string \<Rightarrow> nat option" where
  "mLabels p labelName =
     (case filter (\<lambda>a. l_name (p_labels p ! a) = labelName) (ptrs (p_labels p)) of
        [] \<Rightarrow> None
      | a # _ \<Rightarrow> Some a)"

text \<open>
  The closure that \<^verbatim>\<open>dryRunLabelMappings\<close> hands to \<^verbatim>\<open>dryRunResourceLabelMapping\<close>: it
  notes the mapping on the label of the package and appends a diff. For a name that the
  package has no label of, \<^verbatim>\<open>setMapping\<close> is called on a nil pointer; the model takes this
  call to change nothing.
\<close>

definition mappingFn ::
  "models \<Rightarrow> labelAssociater \<Rightarrow> ID \<Rightarrow> string \<Rightarrow> bool \<Rightarrow> DiffLabelMapping list \<times> 'b state
     \<Rightarrow> DiffLabelMapping list \<times> 'b state" where
  "mappingFn M la labelID labelName isNew ds =
     (case ds of
        (diffs, st) \<Rightarrow>
          (diffs @ [\<lparr>dlm_IsNew = isNew, dlm_ResType = la_ResourceType la,
                     dlm_ResID = la_ID la, dlm_ResName = la_Name la, dlm_LabelID = labelID,
                     dlm_LabelName = labelName\<rparr>],
           case mLabels (pkg st) labelName of
             None \<Rightarrow> st
           | Some a \<Rightarrow> upd_label a (setMapping M la (\<not> isNew)) st))"

definition labelSlcToMap :: "'b state \<Rightarrow> nat list \<Rightarrow> (string \<times> nat) list" where
  "labelSlcToMap st labels = foldl (\<lambda>m a. map_put (l_name (label_at st a)) a m) [] labels"

fun add_new_mappings ::
  "models \<Rightarrow> labelAssociater \<Rightarrow> nat list \<Rightarrow> DiffLabelMapping list \<times> 'b state
     \<Rightarrow> DiffLabelMapping list \<times> 'b state" where
  "add_new_mappings M la [] ds = ds"
| "add_new_mappings M la (l # ls) ds =
     add_new_mappings M la ls
       (mappingFn M la (label_ID M (label_at (snd ds) l)) (l_name (label_at (snd ds) l))
          True ds)"

fun add_existing_mappings ::
  "models \<Rightarrow> labelAssociater \<Rightarrow> Label list \<Rightarrow> (string \<times> nat) list
     \<Rightarrow> DiffLabelMapping list \<times> 'b state
     \<Rightarrow> (string \<times> nat) list \<times> DiffLabelMapping list \<times> 'b state" where
  "add_existing_mappings M la [] pkgLabels ds = (pkgLabels, ds)"
| "add_existing_mappings M la (l # ls) pkgLabels ds =
     add_existing_mappings M la ls (map_delete (lbl_Name l) pkgLabels)
       (mappingFn M la (lbl_ID l) (lbl_Name l) False ds)"

definition dryRunResourceLabelMapping ::
  "models \<Rightarrow> 'b Service \<Rightarrow> labelAssociater \<Rightarrow> DiffLabelMapping list \<times> 'b state
     \<Rightarrow> error option \<times> DiffLabelMapping list \<times> 'b state" where
  "dryRunResourceLabelMapping M s la ds =
     (if \<not> la_Exists la then (None, add_new_mappings M la (la_Labels la) ds)
      else
        (case port_val (FindResourceLabels (la_ID la) (la_ResourceType la))
                (labelSVC_FindResourceLabels s (la_ID la) (la_ResourceType la)) (snd ds) of
           (Inl err, st1) \<Rightarrow> (Some err, fst ds, st1)
         | (Inr existingLabels, st1) \<Rightarrow>
             (let pkgLabels = labelSlcToMap st1 (la_Labels la)
              in case add_existing_mappings M la existingLabels pkgLabels (fst ds, st1) of
                   (pkgLabels, ds') \<Rightarrow>
                     (None, add_new_mappings M la (map snd pkgLabels) ds'))))"

fun dryRunLabelMappings_loop ::
  "models \<Rightarrow> 'b Service \<Rightarrow> labelAssociater list \<Rightarrow> DiffLabelMapping list \<times> 'b state
     \<Rightarrow> error option \<times> DiffLabelMapping list \<times> 'b state" where
  "dryRunLabelMappings_loop M s [] ds = (None, ds)"
| "dryRunLabelMappings_loop M s (la # las) ds =
     (case dryRunResourceLabelMapping M s la ds of
        (Some err, ds') \<Rightarrow> (Some err, ds')
      | (None, ds') \<Rightarrow> dryRunLabelMappings_loop M s las ds')"

text \<open>The comparator of the label-mapping diffs.\<close>

definition mapping_less :: "DiffLabelMapping \<Rightarrow> DiffLabelMapping \<Rightarrow> bool" where
  "mapping_less n m =
     (if dlm_ResType n < dlm_ResType m then True
      else if dlm_ResType n > dlm_ResType m then False
      else if dlm_ResName n < dlm_ResName m then True
      else if dlm_ResName n > dlm_ResName m then False
      else dlm_LabelName n < dlm_LabelName m)"

definition dryRunLabelMappings ::
  "models \<Rightarrow> 'b Service \<Rightarrow> 'b state \<Rightarrow> (error + DiffLabelMapping list) \<times> 'b state" where
  "dryRunLabelMappings M s st =
     (let p = pkg st;
          mappers = [mapperBuckets M (p_buckets p), mapperDashboards M (p_dashboards p),
                     mapperNotificationEndpoints M (p_endpoints p),
                     mapperTelegrafs M (p_telegrafs p), mapperVariables M (p_variables p)]
      in case dryRunLabelMappings_loop M s (concat mappers) ([], st) of
           (Some err, diffs, st') \<Rightarrow> (Inl err, st')
         | (None, diffs, st') \<Rightarrow> (Inr (sort_Slice mapping_less diffs), st'))"

subsubsection \<open>DryRun\<close>

text \<open>
  \<^verbatim>\<open>DryRun\<close> returns a summary, the diff and an error. The summary is \<^verbatim>\<open>pkg.Summary()\<close> of
  the package as \<^verbatim>\<open>DryRun\<close> leaves it, which the model returns in the state; the summary
  itself is not modelled. \<open>DryRun_sections\<close> is the part of \<^verbatim>\<open>DryRun\<close> after validation.
\<close>

definition DryRun_sections ::
  "models \<Rightarrow> 'b Service \<Rightarrow> ID \<Rightarrow> error option \<Rightarrow> 'b state
     \<Rightarrow> (Diff \<times> error option) \<times> 'b state" where
  "DryRun_sections M s orgID parseErr st =
     (case dryRunSecrets M s orgID st of
        (Some err, st1) \<Rightarrow> ((empty_Diff, Some err), st1)
      | (None, st1) \<Rightarrow>
     (case dryRunBuckets s orgID st1 of
        (Inl err, st2) \<Rightarrow> ((empty_Diff, Some err), st2)
      | (Inr diffBuckets, st2) \<Rightarrow>
     (case dryRunLabels s orgID st2 of
        (Inl err, st3) \<Rightarrow> ((empty_Diff, Some err), st3)
      | (Inr diffLabels, st3) \<Rightarrow>
     (case dryRunNotificationEndpoints s orgID st3 of
        (Inl err, st4) \<Rightarrow> ((empty_Diff, Some err), st4)
      | (Inr diffEndpoints, st4) \<Rightarrow>
     (case dryRunVariables s orgID st4 of
        (Inl err, st5) \<Rightarrow> ((empty_Diff, Some err), st5)
      | (Inr diffVars, st5) \<Rightarrow>
     (case dryRunLabelMappings M s st5 of
        (Inl err, st6) \<Rightarrow> ((empty_Diff, Some err), st6)
      | (Inr diffLabelMappings, st6) \<Rightarrow>
          (let st7 = st6\<lparr>pkg := (pkg st6)\<lparr>isVerified := True\<rparr>\<rparr>;
               diff = \<lparr>Buckets = diffBuckets,
                       Dashboards = dryRunDashboards (pkg st7),
                       Labels = diffLabels,
                       LabelMappings = diffLabelMappings,
                       NotificationEndpoints = diffEndpoints,
                       Telegrafs = dryRunTelegraf (pkg st7),
                       Variables = diffVars\<rparr>
           in ((diff, parseErr), st7))))))))"

definition DryRun ::
  "models \<Rightarrow> 'b Service \<Rightarrow> ID \<Rightarrow> ID \<Rightarrow> 'b state \<Rightarrow> (Diff \<times> error option) \<times> 'b state" where
  "DryRun M s orgID userID st =
     (if \<not> isParsed (pkg st) then
        (case Validate M (pkg st) of
           (Some err, p') \<Rightarrow>
             (if \<not> IsParseErr M err then ((empty_Diff, Some err), st\<lparr>pkg := p'\<rparr>)
              else DryRun_sections M s orgID (Some err) (st\<lparr>pkg := p'\<rparr>))
         | (None, p') \<Rightarrow> DryRun_sections M s orgID None (st\<lparr>pkg := p'\<rparr>))
      else DryRun_sections M s orgID None st)"

subsection \<open>The error stream\<close>

record errMsg =
  em_resource :: string
  em_err :: applyErrBody

definition toError :: "models \<Rightarrow> applyErrBody list \<Rightarrow> string \<Rightarrow> string \<Rightarrow> error option" where
  "toError M a resType msg =
     (if length a = 0 then None
      else Some (foldl (\<lambda>errMsg e. errMsg @ [CHR 0x0A, CHR 0x09] @ ''name='' @ fmt_q M (aeb_name e)
                                   @ '' err_msg='' @ fmt_q M (aeb_msg e))
                   (''resource_type='' @ fmt_q M resType @ '' err='' @ fmt_q M msg) a))"

text \<open>
  The goroutine of \<^verbatim>\<open>errStream.do\<close> collects the messages by resource; when the message
  channel is closed it sends nil for an empty map and the joined errors otherwise.
\<close>

definition collect :: "errMsg list \<Rightarrow> (string \<times> applyErrBody list) list" where
  "collect msgs =
     foldl (\<lambda>mErrs msg.
              map_put (em_resource msg)
                ((case map_of mErrs (em_resource msg) of None \<Rightarrow> [] | Some errs \<Rightarrow> errs)
                 @ [em_err msg]) mErrs) [] msgs"

definition joined :: "models \<Rightarrow> errMsg list \<Rightarrow> error option" where
  "joined M msgs =
     (let mErrs = collect msgs in
      if length mErrs = 0 then None
      else Some (Join (map (\<lambda>(res, err).
                          case toError M err res ''failed to create'' of
                            Some e \<Rightarrow> e | None \<Rightarrow> []) mErrs) [CHR 0x0A]))"

text \<open>
  The stream has two \<^verbatim>\<open>select\<close> statements that also wait for \<^verbatim>\<open>ctx.Done()\<close>. How they
  fall is not decided by the code: it is an input of the model.
  \<^item> \<open>add_done\<close>: for each message in turn, whether \<^verbatim>\<open>errStream.add\<close> took the case
    \<^verbatim>\<open><-e.done\<close>, which drops the message (a list that is too short means: delivered);
  \<^item> \<open>agg_done\<close>: whether the goroutine of \<^verbatim>\<open>errStream.do\<close> took the case \<^verbatim>\<open><-e.done\<close>,
    which makes it send nil whatever it has collected.
  When the context is never cancelled no select can take the case: \<open>agg_done\<close> is false and
  \<open>add_done\<close> has no \<open>True\<close>. \<open>picks\<close> is the order in which the workers of the group run.
\<close>

record run =
  picks :: "nat list"
  agg_done :: bool
  add_done :: "bool list"

fun deliver :: "bool list \<Rightarrow> 'a list \<Rightarrow> 'a list" where
  "deliver ds [] = []"
| "deliver [] ms = ms"
| "deliver (d # ds) (m # ms) = (if d then deliver ds ms else m # deliver ds ms)"

definition errStream_close :: "models \<Rightarrow> run \<Rightarrow> errMsg list \<Rightarrow> error option" where
  "errStream_close M rn msgs =
     (if agg_done rn then None else joined M (deliver (add_done rn) msgs))"

subsection \<open>The rollback coordinator\<close>

text \<open>
  \<^verbatim>\<open>runTilEnd\<close> starts one goroutine for each item of each applier and waits for all of
  them. A worker is taken to run \<^verbatim>\<open>app.creater.fn\<close> in one step; the order of these steps
  is an input of the model, any order: \<open>schedule\<close> takes the next worker to run out of those
  not yet run, at the position the next pick names, and runs them in the order of their
  start when the picks are used up. The semaphore (five slots in \<^verbatim>\<open>NewService\<close>) bounds the
  number of workers in flight, which only excludes some of these orders. The trace shows
  the rollbackers of a group as recorded before its workers run.
\<close>

function schedule :: "nat list \<Rightarrow> 'a list \<Rightarrow> 'a list" where
  "schedule ps [] = []"
| "schedule [] (w # ws) = w # ws"
| "schedule (p # ps) (w # ws) =
     (let k = p mod Suc (length ws)
      in ((w # ws) ! k) # schedule ps (take k (w # ws) @ drop (Suc k) (w # ws)))"
  by pat_completeness auto
termination
  by (relation "measure (\<lambda>(ps, ws). length ws)") auto

record 'b rollbackCoordinator =
  rollbacks :: "'b rollbacker list"

definition work_items :: "'b applier list \<Rightarrow> (nat \<times> nat) list" where
  "work_items appliers =
     concat (map (\<lambda>i. map (\<lambda>idx. (i, idx)) [0..<entries (creater (appliers ! i))])
               [0..<length appliers])"

fun run_workers ::
  "'b applier list \<Rightarrow> ID \<Rightarrow> ID \<Rightarrow> (nat \<times> nat) list \<Rightarrow> 'b state \<Rightarrow> errMsg list \<times> 'b state"
  where
  "run_workers appliers orgID userID [] st = ([], st)"
| "run_workers appliers orgID userID ((i, idx) # ws) st =
     (let app = appliers ! i;
          res = resource (rollbacker app)
      in case c_fn (creater app) idx orgID userID (emit (CreateFn res idx) st) of
           (err, st1) \<Rightarrow>
             (case run_workers appliers orgID userID ws st1 of
                (msgs, st2) \<Rightarrow>
                  ((case err of None \<Rightarrow> [] | Some e \<Rightarrow> [\<lparr>em_resource = res, em_err = e\<rparr>])
                   @ msgs, st2)))"

definition runTilEnd ::
  "models \<Rightarrow> run \<Rightarrow> ID \<Rightarrow> ID \<Rightarrow> 'b applier list \<Rightarrow> 'b rollbackCoordinator \<times> 'b state
     \<Rightarrow> error option \<times> 'b rollbackCoordinator \<times> 'b state" where
  "runTilEnd M rn orgID userID appliers rst =
     (case rst of
        (r, st) \<Rightarrow>
          (let r1 = r\<lparr>rollbacks := rollbacks r @ map rollbacker appliers\<rparr>;
               st1 = foldl (\<lambda>st app. emit (Recorded (resource (rollbacker app))) st) st appliers
           in case run_workers appliers orgID userID
                     (schedule (picks rn) (work_items appliers)) st1 of
                (msgs, st2) \<Rightarrow>
                  (let err = errStream_close M rn msgs
                   in (err, r1, emit (GroupEnd err) st2))))"

fun rollback_loop :: "'b rollbacker list \<Rightarrow> 'b state \<Rightarrow> 'b state" where
  "rollback_loop [] st = st"
| "rollback_loop (r # rs) st =
     (case r_fn r st of
        (err, st1) \<Rightarrow>
          (let st2 = emit (RollbackFn (resource r) err) st1
           in rollback_loop rs
                (case err of
                   None \<Rightarrow> st2
                 | Some e \<Rightarrow> emit (LogError (''failed to delete '' @ resource r) e) st2)))"

definition rollback :: "'b rollbackCoordinator \<Rightarrow> error option \<Rightarrow> 'b state \<Rightarrow> 'b state" where
  "rollback r err st = (if err = None then st else rollback_loop (rollbacks r) st)"

subsection \<open>Apply\<close>

fun run_groups ::
  "models \<Rightarrow> (nat \<Rightarrow> run) \<Rightarrow> ID \<Rightarrow> ID \<Rightarrow> nat \<Rightarrow> 'b applier list list
     \<Rightarrow> 'b rollbackCoordinator \<times> 'b state
     \<Rightarrow> error option \<times> 'b rollbackCoordinator \<times> 'b state" where
  "run_groups M runs orgID userID k [] rst = (None, rst)"
| "run_groups M runs orgID userID k (grp # groups) rst =
     (case runTilEnd M (runs k) orgID userID grp rst of
        (Some err, rst1) \<Rightarrow> (Some err, rst1)
      | (None, rst1) \<Rightarrow> run_groups M runs orgID userID (Suc k) groups rst1)"

text \<open>
  \<^verbatim>\<open>Apply\<close> from the line that makes the coordinator. The deferred call of
  \<^verbatim>\<open>coordinator.rollback\<close> runs when \<^verbatim>\<open>Apply\<close> returns, with the error it returns; it is
  written out on each way out. \<open>runs k\<close> says how group \<open>k\<close> runs. The summary that
  \<^verbatim>\<open>Apply\<close> returns is \<^verbatim>\<open>pkg.Summary()\<close> of the package in the state.
\<close>

definition Apply_groups ::
  "models \<Rightarrow> 'b Service \<Rightarrow> (nat \<Rightarrow> run) \<Rightarrow> ID \<Rightarrow> ID \<Rightarrow> 'b state
     \<Rightarrow> error option \<times> 'b state" where
  "Apply_groups M s runs orgID userID st =
     (let coordinator = \<lparr>rollbacks = []\<rparr>;
          p = pkg st;
          appliers =
            [[applyLabels M s (ptrs (p_labels p))],
             [applyVariables M s (ptrs (p_variables p)),
              applyBuckets M s (ptrs (p_buckets p)),
              applyDashboards M s (ptrs (p_dashboards p)),
              applyNotificationEndpoints M s (ptrs (p_endpoints p)),
              applyTelegrafs M s (ptrs (p_telegrafs p))]]
      in case run_groups M runs orgID userID 0 appliers (coordinator, st) of
           (Some err, r, st1) \<Rightarrow> (Some err, rollback r (Some err) st1)
         | (None, r, st1) \<Rightarrow>
             (let secondary = [applyLabelMappings M s (labelMappings M (pkg st1))]
              in case runTilEnd M (runs 2) orgID userID secondary (r, st1) of
                   (Some err, r2, st2) \<Rightarrow> (Some err, rollback r2 (Some err) st2)
                 | (None, r2, st2) \<Rightarrow> (None, rollback r2 None st2)))"

definition Apply ::
  "models \<Rightarrow> 'b Service \<Rightarrow> (nat \<Rightarrow> run) \<Rightarrow> ID \<Rightarrow> ID \<Rightarrow> 'b state
     \<Rightarrow> error option \<times> 'b state" where
  "Apply M s runs orgID userID st =
     (case (if \<not> isParsed (pkg st)
            then (case Validate M (pkg st) of (err, p') \<Rightarrow> (err, st\<lparr>pkg := p'\<rparr>))
            else (None, st)) of
        (Some err, st1) \<Rightarrow> (Some err, st1)
      | (None, st1) \<Rightarrow>
          (case (if \<not> isVerified (pkg st1)
                 then (case DryRun M s orgID userID st1 of ((diff, err), st2) \<Rightarrow> (err, st2))
                 else (None, st1)) of
             (Some err, st2) \<Rightarrow> (Some err, st2)
           | (None, st2) \<Rightarrow> Apply_groups M s runs orgID userID st2))"

subsection \<open>Packages for the examples\<close>

definition mk_label :: "string \<Rightarrow> label" where
  "mk_label n = \<lparr>l_id = 0, l_OrgID = 0, l_name = n, l_props = [], l_existing = None,
     l_mappings = []\<rparr>"

definition mk_bucket :: "string \<Rightarrow> nat list \<Rightarrow> bucket" where
  "mk_bucket n ls = \<lparr>b_id = 0, b_OrgID = 0, b_name = n, b_Description = ''desc'',
     b_RetentionRules = [3600], b_existing = None, b_labels = ls\<rparr>"




text \<open>A label L1 and a bucket B1 that is associated with it.\<close>

definition pkg_label_bucket :: Pkg where
  "pkg_label_bucket = pkg0\<lparr>isVerified := False, p_labels := [mk_label ''L1''],
     p_buckets := [mk_bucket ''B1'' [0]]\<rparr>"

text \<open>
  Two labels L1, L2 and two buckets B1, B2, already verified; a platform on which the
  creation of L2 fails, and one on which the creation of B2 fails.
\<close>

definition pkg_two_two :: Pkg where
  "pkg_two_two = pkg0\<lparr>p_labels := [mk_label ''L1'', mk_label ''L2''],
     p_buckets := [mk_bucket ''B1'' [], mk_bucket ''B2'' []]\<rparr>"

definition fails_L2 :: "call \<Rightarrow> bool" where
  "fails_L2 c = (case c of CreateLabel l \<Rightarrow> lbl_Name l = ''L2'' | _ \<Rightarrow> False)"

definition fails_B2 :: "call \<Rightarrow> bool" where
  "fails_B2 c = (case c of CreateBucket b \<Rightarrow> bkt_Name b = ''B2'' | _ \<Rightarrow> False)"

text \<open>The run of a group whose context is not cancelled, the workers in the order of their start.\<close>

definition run0 :: run where
  "run0 = \<lparr>picks = [], agg_done = False, add_done = []\<rparr>"

text \<open>
  A platform on which the creation of B2 and every deletion of a label fail, and the runs
  of an \<^verbatim>\<open>Apply\<close> whose context is cancelled once the labels are applied: the goroutines of
  the error streams of the later groups take the case \<^verbatim>\<open><-e.done\<close>.
\<close>

definition fails_B2_DeleteLabel :: "call \<Rightarrow> bool" where
  "fails_B2_DeleteLabel c = (case c of DeleteLabel i \<Rightarrow> True | _ \<Rightarrow> fails_B2 c)"

definition cancelled_after_labels :: "nat \<Rightarrow> run" where
  "cancelled_after_labels k = (if k = 0 then run0 else run0\<lparr>agg_done := True\<rparr>)"

subsection \<open>Reading a trace\<close>

text \<open>
  What a trace says about one kind of event, in the order of the trace: the port calls,
  the items whose create function was called, the resources whose rollbacker was recorded
  and those whose rollbacker was called, the results of the groups, what was logged, and
  what the log has to show for the rollbackers that returned an error.
\<close>

fun ev_port :: "event \<Rightarrow> (call \<times> error option) list" where
  "ev_port (Port c r) = [(c, r)]"
| "ev_port _ = []"

fun ev_created :: "event \<Rightarrow> (string \<times> nat) list" where
  "ev_created (CreateFn res i) = [(res, i)]"
| "ev_created _ = []"

fun ev_recorded :: "event \<Rightarrow> string list" where
  "ev_recorded (Recorded res) = [res]"
| "ev_recorded _ = []"

fun ev_rolled_back :: "event \<Rightarrow> string list" where
  "ev_rolled_back (RollbackFn res r) = [res]"
| "ev_rolled_back _ = []"

fun ev_group_end :: "event \<Rightarrow> error option list" where
  "ev_group_end (GroupEnd r) = [r]"
| "ev_group_end _ = []"

fun ev_logged :: "event \<Rightarrow> (string \<times> error) list" where
  "ev_logged (LogError msg e) = [(msg, e)]"
| "ev_logged _ = []"

fun ev_handler_error :: "event \<Rightarrow> (string \<times> error) list" where
  "ev_handler_error (RollbackFn res (Some e)) = [(''failed to delete '' @ res, e)]"
| "ev_handler_error _ = []"

definition ports :: "event list \<Rightarrow> (call \<times> error option) list" where
  "ports tr = concat (map ev_port tr)"

definition created :: "event list \<Rightarrow> (string \<times> nat) list" where
  "created tr = concat (map ev_created tr)"

definition recorded :: "event list \<Rightarrow> string list" where
  "recorded tr = concat (map ev_recorded tr)"

definition rolled_back :: "event list \<Rightarrow> string list" where
  "rolled_back tr = concat (map ev_rolled_back tr)"

definition group_ends :: "event list \<Rightarrow> error option list" where
  "group_ends tr = concat (map ev_group_end tr)"

definition logged :: "event list \<Rightarrow> (string \<times> error) list" where
  "logged tr = concat (map ev_logged tr)"

definition handler_errors :: "event list \<Rightarrow> (string \<times> error) list" where
  "handler_errors tr = concat (map ev_handler_error tr)"

fun is_port :: "event \<Rightarrow> bool" where
  "is_port (Port c r) = True"
| "is_port _ = False"

text \<open>The events that a run added to the trace of the state it started in.\<close>

definition since :: "'b state \<Rightarrow> 'b state \<Rightarrow> event list" where
  "since st st' = drop (length (trace st)) (trace st')"

text \<open>
  The group of a resource name: the labels are group 0, the label mappings group 2, the
  primary resources group 1.
\<close>

definition group_of :: "string \<Rightarrow> nat" where
  "group_of res = (if res = ''label'' then 0 else if res = ''label_mapping'' then 2 else 1)"

text \<open>
  The seven slices of rollback items, and how many items they hold together; the calls
  that create or update.
\<close>

definition rb_lists ::
  "'b state \<Rightarrow> nat list \<times> nat list \<times> nat list \<times> nat list \<times> nat list \<times> nat list
     \<times> LabelMapping list" where
  "rb_lists st = (rb_labels st, rb_vars st, rb_buckets st, rb_dashboards st, rb_endpoints st,
     rb_telegrafs st, rb_mappings st)"

definition rb_count :: "'b state \<Rightarrow> nat" where
  "rb_count st = length (rb_labels st) + length (rb_vars st) + length (rb_buckets st)
     + length (rb_dashboards st) + length (rb_endpoints st) + length (rb_telegrafs st)
     + length (rb_mappings st)"

fun create_or_update :: "call \<Rightarrow> bool" where
  "create_or_update (UpdateBucket _ _) = True"
| "create_or_update (CreateBucket _) = True"
| "create_or_update (UpdateLabel _ _) = True"
| "create_or_update (CreateLabel _) = True"
| "create_or_update (CreateLabelMapping _) = True"
| "create_or_update (UpdateNotificationEndpoint _ _ _) = True"
| "create_or_update (CreateNotificationEndpoint _ _) = True"
| "create_or_update (UpdateVariable _ _) = True"
| "create_or_update (CreateVariable _) = True"
| "create_or_update (CreateDashboard _) = True"
| "create_or_update (CreateTelegrafConfig _ _) = True"
| "create_or_update _ = False"

text \<open>
  \<open>ports_only st st'\<close>: the trace of \<open>st'\<close> is that of \<open>st\<close> followed by port calls only.
  \<open>step_ok st res st'\<close>: a create function that went from \<open>st\<close> to \<open>st'\<close> and returned
  \<open>res\<close> either left every rollback slice as it was, or added one item, returned nil, and
  made exactly one port call, a create or an update that returned without error.
\<close>

definition ports_only :: "'b state \<Rightarrow> 'b state \<Rightarrow> bool" where
  "ports_only st st' =
     (take (length (trace st)) (trace st') = trace st \<and> list_all is_port (since st st'))"

definition step_ok :: "'b state \<Rightarrow> applyErrBody option \<Rightarrow> 'b state \<Rightarrow> bool" where
  "step_ok st res st' =
     (rb_lists st' = rb_lists st
      \<or> (rb_count st' = Suc (rb_count st) \<and> res = None
          \<and> (case since st st' of
                [Port c None] \<Rightarrow> create_or_update c
              | _ \<Rightarrow> False)))"

definition step :: "'b state \<Rightarrow> applyErrBody option \<Rightarrow> 'b state \<Rightarrow> bool" where
  "step st res st' = (step_ok st res st' \<and> ports_only st st')"

text \<open>
  The skeleton of a trace: what is left when the port calls are taken out. \<open>is_read\<close>
  holds of a port call that does not change the platform.
\<close>

definition skeleton :: "event list \<Rightarrow> event list" where
  "skeleton tr = filter (\<lambda>ev. \<not> is_port ev) tr"

fun is_read :: "event \<Rightarrow> bool" where
  "is_read (Port c r) = (\<not> mutating c)"
| "is_read _ = False"

definition reads_only :: "'b state \<Rightarrow> 'b state \<Rightarrow> bool" where
  "reads_only st st' =
     (take (length (trace st)) (trace st') = trace st \<and> list_all is_read (since st st'))"

text \<open>An applier whose create function and rollbacker add port calls only.\<close>

definition applier_ok :: "'b applier \<Rightarrow> bool" where
  "applier_ok app =
     ((\<forall>i orgID userID st. ports_only st (snd (c_fn (creater app) i orgID userID st)))
      \<and> (\<forall>st. ports_only st (snd (r_fn (rollbacker app) st))))"

text \<open>
  The first group of a trace that ended with an error: the error, and the events after
  the end of that group.
\<close>

fun first_failure :: "event list \<Rightarrow> error option" where
  "first_failure [] = None"
| "first_failure (GroupEnd (Some e) # tr) = Some e"
| "first_failure (ev # tr) = first_failure tr"

fun after_failed_group :: "event list \<Rightarrow> event list" where
  "after_failed_group [] = []"
| "after_failed_group (GroupEnd (Some e) # tr) = tr"
| "after_failed_group (ev # tr) = after_failed_group tr"

text \<open>
  What the events of one group look like: the rollbackers \<open>names\<close> were recorded, create
  functions of these resources were called, the group ended with \<open>err\<close>, and nothing was
  rolled back or logged.
\<close>

definition group_segment :: "string list \<Rightarrow> error option \<Rightarrow> event list \<Rightarrow> bool" where
  "group_segment names err evs =
     (recorded evs = names \<and> list_all (\<lambda>c. fst c \<in> set names) (created evs)
      \<and> group_ends evs = [err] \<and> rolled_back evs = [] \<and> logged evs = []
      \<and> handler_errors evs = [] \<and> first_failure evs = err
      \<and> skeleton (after_failed_group evs) = [])"

text \<open>
  What the events of the rollback look like when the rollbackers \<open>names\<close> are on record, and
  what the events of a whole run of the groups look like when it returns \<open>err\<close>.
\<close>

definition rollback_segment :: "string list \<Rightarrow> event list \<Rightarrow> bool" where
  "rollback_segment names evs =
     (rolled_back evs = names \<and> logged evs = handler_errors evs \<and> created evs = []
      \<and> recorded evs = [] \<and> group_ends evs = [])"

definition applier_names :: "string list" where
  "applier_names = [''label'', ''variable'', ''bucket'', ''dashboard'',
     ''notification_endpoints'', ''telegrafs'', ''label_mapping'']"

definition apply_run :: "error option \<Rightarrow> event list \<Rightarrow> bool" where
  "apply_run err evs =
     (sorted (map (\<lambda>c. group_of (fst c)) (created evs))
      \<and> list_all (\<lambda>c. fst c \<in> set applier_names) (created evs)
      \<and> created (after_failed_group evs) = []
      \<and> first_failure evs = err
      \<and> rolled_back evs = (if err = None then [] else recorded evs)
      \<and> rolled_back (after_failed_group evs) = rolled_back evs
      \<and> logged (after_failed_group evs) = logged evs
      \<and> logged evs = handler_errors evs
      \<and> distinct (recorded evs)
      \<and> group_ends evs \<noteq> [])"

text \<open>
  The part of a package that a dry run has no business with: everything but the flag
  \<^verbatim>\<open>isVerified\<close>, the \<^verbatim>\<open>existing\<close> slots and the labels. What may happen to a label is
  that its \<^verbatim>\<open>existing\<close> slot is written and that \<^verbatim>\<open>setMapping\<close> is called on it:
  \<open>label_reach M l l'\<close> holds when such steps lead from \<open>l\<close> to \<open>l'\<close>.
  \<open>dry_step M st st'\<close> holds when \<open>st'\<close> differs from \<open>st\<close> at most by finding and getting
  calls, by these parts of the package (the flag being the same), and by the platform.
\<close>

definition pkg_frame :: "Pkg \<Rightarrow> Pkg" where
  "pkg_frame p = p\<lparr>isVerified := False, p_labels := [],
     p_buckets := map (\<lambda>b. b\<lparr>b_existing := None\<rparr>) (p_buckets p),
     p_variables := map (\<lambda>v. v\<lparr>v_existing := None\<rparr>) (p_variables p),
     p_endpoints := map (\<lambda>e. e\<lparr>e_existing := None\<rparr>) (p_endpoints p)\<rparr>"

inductive label_reach :: "models \<Rightarrow> label \<Rightarrow> label \<Rightarrow> bool" for M :: models where
  reach_refl: "label_reach M l l"
| reach_existing: "label_reach M l l' \<Longrightarrow> label_reach M l (l'\<lparr>l_existing := x\<rparr>)"
| reach_setMapping: "label_reach M l l' \<Longrightarrow> label_reach M l (setMapping M la ex l')"

definition dry_step :: "models \<Rightarrow> 'b state \<Rightarrow> 'b state \<Rightarrow> bool" where
  "dry_step M st st' =
     (reads_only st st' \<and> rb_lists st' = rb_lists st
      \<and> pkg_frame (pkg st') = pkg_frame (pkg st)
      \<and> list_all2 (label_reach M) (p_labels (pkg st)) (p_labels (pkg st'))
      \<and> isVerified (pkg st') = isVerified (pkg st))"

text \<open>
  The sections of a diff that the dry run sorts, and the package as the dry run finds it
  once it is validated.
\<close>

definition diff_sorted :: "Diff \<Rightarrow> bool" where
  "diff_sorted d =
     (sorted (map Name (Buckets d)) \<and> sorted (map Name (Labels d))
      \<and> sorted (map Name (NotificationEndpoints d)) \<and> sorted (map Name (Variables d))
      \<and> sorted (map (\<lambda>m. (dlm_ResType m, dlm_ResName m, dlm_LabelName m))
                  (LabelMappings d)))"

definition validated :: "models \<Rightarrow> Pkg \<Rightarrow> Pkg" where
  "validated M p = (if isParsed p then p else snd (Validate M p))"

section \<open>Properties\<close>

subsection \<open>The insertion sort\<close>

lemma mset_sift: "mset (sift lt x ys) = add_mset x (mset ys)"
  by (induction ys) auto

lemma set_sift: "set (sift lt x ys) = insert x (set ys)"
  by (induction ys) auto

lemma mset_foldl_sift:
  "mset (foldl (\<lambda>acc x. sift lt x acc) acc xs) = mset acc + mset xs"
  by (induction xs arbitrary: acc) (auto simp: mset_sift)

lemma mset_sort_Slice: "mset (sort_Slice lt xs) = mset xs"
  by (simp add: sort_Slice_def mset_foldl_sift)

lemma set_sort_Slice: "set (sort_Slice lt xs) = set xs"
  using mset_sort_Slice [of lt xs] by (metis set_mset_mset)

lemma length_sort_Slice: "length (sort_Slice lt xs) = length xs"
  using mset_sort_Slice [of lt xs] by (metis size_mset)

text \<open>
  A comparator that agrees, on the elements at hand, with the strict order of a key:
  the reversed prefix stays sorted downwards by the key.
\<close>

lemma sift_sorted:
  assumes "\<forall>y \<in> set ys. lt x y = (key x < key y)"
    and "sorted (rev (map key ys))"
  shows "sorted (rev (map (key :: 'a \<Rightarrow> 'k::linorder) (sift lt x ys)))"
  using assms
proof (induction ys)
  case Nil
  then show ?case by simp
next
  case (Cons y ys)
  show ?case
  proof (cases "lt x y")
    case True
    then have lt: "key x < key y" using Cons.prems(1) by simp
    have srt: "sorted (rev (map key ys))" and ub: "\<forall>z \<in> set ys. key z \<le> key y"
      using Cons.prems(2) by (auto simp: sorted_append)
    have ih: "sorted (rev (map key (sift lt x ys)))"
      using Cons.IH Cons.prems(1) srt by simp
    have "\<forall>z \<in> set (sift lt x ys). key z \<le> key y"
      using ub lt by (auto simp: set_sift)
    then show ?thesis using True ih by (auto simp: sorted_append)
  next
    case False
    then have ge: "key y \<le> key x" using Cons.prems(1) by auto
    have ub: "\<forall>z \<in> set ys. key z \<le> key y"
      using Cons.prems(2) by (auto simp: sorted_append)
    then have "\<forall>z \<in> set ys. key z \<le> key x" using ge by auto
    then show ?thesis using False ge Cons.prems(2) by (auto simp: sorted_append)
  qed
qed

lemma foldl_sift_sorted:
  assumes "\<forall>x \<in> set xs \<union> set acc. \<forall>y \<in> set xs \<union> set acc. lt x y = (key x < key y)"
    and "sorted (rev (map key acc))"
  shows "sorted (rev (map (key :: 'a \<Rightarrow> 'k::linorder)
           (foldl (\<lambda>acc x. sift lt x acc) acc xs)))"
  using assms
proof (induction xs arbitrary: acc)
  case Nil
  then show ?case by simp
next
  case (Cons x xs)
  have s1: "sorted (rev (map key (sift lt x acc)))"
    by (rule sift_sorted) (use Cons.prems in auto)
  have "\<forall>a \<in> set xs \<union> set (sift lt x acc). \<forall>b \<in> set xs \<union> set (sift lt x acc).
          lt a b = (key a < key b)"
    using Cons.prems(1) by (simp add: set_sift)
  then show ?case using Cons.IH [of "sift lt x acc"] s1 by simp
qed

lemma sorted_sort_Slice:
  assumes "\<forall>x \<in> set xs. \<forall>y \<in> set xs. lt x y = (key x < key y)"
  shows "sorted (map (key :: 'a \<Rightarrow> 'k::linorder) (sort_Slice lt xs))"
proof -
  have "sorted (rev (map key (foldl (\<lambda>acc x. sift lt x acc) [] xs)))"
    by (rule foldl_sift_sorted) (use assms in auto)
  then show ?thesis by (simp add: sort_Slice_def rev_map)
qed

subsection \<open>Steps of the create functions\<close>

lemma since_same: "trace st' = trace st \<Longrightarrow> since st st' = []"
  by (simp add: since_def)

lemma since_app: "trace st' = trace st @ evs \<Longrightarrow> since st st' = evs"
  by (simp add: since_def)

lemma trace_upd [simp]:
  "trace (upd_bucket a f st) = trace st" "trace (upd_label a g st) = trace st"
  "trace (upd_variable a h st) = trace st" "trace (upd_dashboard a k st) = trace st"
  "trace (upd_endpoint a m st) = trace st" "trace (upd_telegraf a n st) = trace st"
  by (simp_all add: upd_bucket_def upd_label_def upd_variable_def upd_dashboard_def
        upd_endpoint_def upd_telegraf_def)

lemma rb_upd [simp]:
  "rb_lists (upd_bucket a f st) = rb_lists st" "rb_lists (upd_label a g st) = rb_lists st"
  "rb_lists (upd_variable a h st) = rb_lists st" "rb_lists (upd_dashboard a k st) = rb_lists st"
  "rb_lists (upd_endpoint a m st) = rb_lists st" "rb_lists (upd_telegraf a n st) = rb_lists st"
  by (simp_all add: rb_lists_def upd_bucket_def upd_label_def upd_variable_def upd_dashboard_def
        upd_endpoint_def upd_telegraf_def)

lemma rbc_upd [simp]:
  "rb_count (upd_bucket a f st) = rb_count st" "rb_count (upd_label a g st) = rb_count st"
  "rb_count (upd_variable a h st) = rb_count st" "rb_count (upd_dashboard a k st) = rb_count st"
  "rb_count (upd_endpoint a m st) = rb_count st" "rb_count (upd_telegraf a n st) = rb_count st"
  by (simp_all add: rb_count_def upd_bucket_def upd_label_def upd_variable_def upd_dashboard_def
        upd_endpoint_def upd_telegraf_def)

lemma rbc_app [simp]:
  "rb_count (st\<lparr>rb_labels := rb_labels st @ [a]\<rparr>) = Suc (rb_count st)"
  "rb_count (st\<lparr>rb_vars := rb_vars st @ [a]\<rparr>) = Suc (rb_count st)"
  "rb_count (st\<lparr>rb_buckets := rb_buckets st @ [a]\<rparr>) = Suc (rb_count st)"
  "rb_count (st\<lparr>rb_dashboards := rb_dashboards st @ [a]\<rparr>) = Suc (rb_count st)"
  "rb_count (st\<lparr>rb_endpoints := rb_endpoints st @ [a]\<rparr>) = Suc (rb_count st)"
  "rb_count (st\<lparr>rb_telegrafs := rb_telegrafs st @ [a]\<rparr>) = Suc (rb_count st)"
  "rb_count (st\<lparr>rb_mappings := rb_mappings st @ [m]\<rparr>) = Suc (rb_count st)"
  by (simp_all add: rb_count_def)

lemma port_val_cases:
  assumes "port_val c f st = (r, st')"
  shows "trace st' = trace st @ [Port c (err_of r)] \<and> rb_lists st' = rb_lists st
       \<and> rb_count st' = rb_count st \<and> pkg st' = pkg st"
  using assms by (auto simp: port_val_def rb_lists_def rb_count_def split: prod.splits)

lemma port_err_cases:
  assumes "port_err c f st = (r, st')"
  shows "trace st' = trace st @ [Port c r] \<and> rb_lists st' = rb_lists st
       \<and> rb_count st' = rb_count st \<and> pkg st' = pkg st"
  using assms by (auto simp: port_err_def rb_lists_def rb_count_def split: prod.splits)

lemma stepI_none:
  "trace st' = trace st \<Longrightarrow> rb_lists st' = rb_lists st \<Longrightarrow> step st res st'"
  by (simp add: step_def step_ok_def ports_only_def since_same)

lemma stepI_fail:
  "trace st' = trace st @ [Port c r] \<Longrightarrow> rb_lists st' = rb_lists st \<Longrightarrow> step st res st'"
  by (simp add: step_def step_ok_def ports_only_def since_app)

lemma stepI_ok:
  "trace st' = trace st @ [Port c None] \<Longrightarrow> create_or_update c \<Longrightarrow>
   rb_count st' = Suc (rb_count st) \<Longrightarrow> step st None st'"
  by (simp add: step_def step_ok_def ports_only_def since_app)

lemma applyBucket_call:
  assumes "applyBucket M s b st = (r, st')"
  shows "\<exists>c. create_or_update c \<and> trace st' = trace st @ [Port c (err_of r)]
           \<and> rb_lists st' = rb_lists st \<and> rb_count st' = rb_count st"
  using assms by (auto simp: applyBucket_def Let_def split: if_splits dest!: port_val_cases)

lemma applyLabel_call:
  assumes "applyLabel M s l st = (r, st')"
  shows "\<exists>c. create_or_update c \<and> trace st' = trace st @ [Port c (err_of r)]
           \<and> rb_lists st' = rb_lists st \<and> rb_count st' = rb_count st"
  using assms by (auto simp: applyLabel_def Let_def split: if_splits dest!: port_val_cases)

lemma applyVariable_call:
  assumes "applyVariable M s v st = (r, st')"
  shows "\<exists>c. create_or_update c \<and> trace st' = trace st @ [Port c (err_of r)]
           \<and> rb_lists st' = rb_lists st \<and> rb_count st' = rb_count st"
  using assms by (auto simp: applyVariable_def Let_def split: if_splits dest!: port_val_cases)

lemma applyDashboard_call:
  assumes "applyDashboard M s d st = (r, st')"
  shows "\<exists>c. create_or_update c \<and> trace st' = trace st @ [Port c (err_of r)]
           \<and> rb_lists st' = rb_lists st \<and> rb_count st' = rb_count st"
  using assms by (auto simp: applyDashboard_def Let_def dest!: port_val_cases)

lemma applyNotificationEndpoint_call:
  assumes "applyNotificationEndpoint M s e userID st = (r, st')"
  shows "\<exists>c. create_or_update c \<and> trace st' = trace st @ [Port c (err_of r)]
           \<and> rb_lists st' = rb_lists st \<and> rb_count st' = rb_count st"
  using assms
  by (auto simp: applyNotificationEndpoint_def Let_def split: option.splits
        dest!: port_val_cases)

lemma buckets_step:
  assumes "applyBuckets_createFn M s bs i orgID userID st = (res, st')"
  shows "step st res st'"
proof -
  let ?st1 = "upd_bucket (bs ! i) (\<lambda>b. b\<lparr>b_OrgID := orgID\<rparr>) st"
  let ?b = "bucket_at ?st1 (bs ! i)"
  show ?thesis
  proof (cases "bucket_shouldApply M ?b")
    case False
    with assms have "st' = ?st1" by (auto simp: applyBuckets_createFn_def Let_def)
    then show ?thesis by (simp add: stepI_none)
  next
    case True
    obtain r st2 where ab: "applyBucket M s ?b ?st1 = (r, st2)"
      by (cases "applyBucket M s ?b ?st1")
    from applyBucket_call [OF ab] obtain c where c: "create_or_update c"
      "trace st2 = trace st @ [Port c (err_of r)]" "rb_lists st2 = rb_lists st"
      "rb_count st2 = rb_count st" by auto
    show ?thesis
    proof (cases r)
      case (Inl e)
      with assms True ab have "st' = st2" by (auto simp: applyBuckets_createFn_def Let_def)
      with c show ?thesis by (simp add: stepI_fail)
    next
      case (Inr x)
      with assms True ab have "res = None"
        "st' = (upd_bucket (bs ! i) (\<lambda>b. b\<lparr>b_id := bkt_ID x\<rparr>) st2)
                 \<lparr>rb_buckets := rb_buckets st2 @ [bs ! i]\<rparr>"
        by (auto simp: applyBuckets_createFn_def Let_def)
      with c Inr show ?thesis
        by (intro stepI_ok [of _ _ c] | simp add: err_of_def upd_bucket_def rb_count_def)+
    qed
  qed
qed

lemma labels_step:
  assumes "applyLabels_createFn M s ls i orgID userID st = (res, st')"
  shows "step st res st'"
proof -
  let ?st1 = "upd_label (ls ! i) (\<lambda>l. l\<lparr>l_OrgID := orgID\<rparr>) st"
  let ?l = "label_at ?st1 (ls ! i)"
  show ?thesis
  proof (cases "label_shouldApply M ?l")
    case False
    with assms have "st' = ?st1" by (auto simp: applyLabels_createFn_def Let_def)
    then show ?thesis by (simp add: stepI_none)
  next
    case True
    obtain r st2 where ab: "applyLabel M s ?l ?st1 = (r, st2)"
      by (cases "applyLabel M s ?l ?st1")
    from applyLabel_call [OF ab] obtain c where c: "create_or_update c"
      "trace st2 = trace st @ [Port c (err_of r)]" "rb_lists st2 = rb_lists st"
      "rb_count st2 = rb_count st" by auto
    show ?thesis
    proof (cases r)
      case (Inl e)
      with assms True ab have "st' = st2" by (auto simp: applyLabels_createFn_def Let_def)
      with c show ?thesis by (simp add: stepI_fail)
    next
      case (Inr x)
      with assms True ab have "res = None"
        "st' = (upd_label (ls ! i) (\<lambda>l. l\<lparr>l_id := lbl_ID x\<rparr>) st2)
                 \<lparr>rb_labels := rb_labels st2 @ [ls ! i]\<rparr>"
        by (auto simp: applyLabels_createFn_def Let_def)
      with c Inr show ?thesis
        by (intro stepI_ok [of _ _ c] | simp add: err_of_def upd_label_def rb_count_def)+
    qed
  qed
qed

lemma variables_step:
  assumes "applyVariables_createFn M s vs i orgID userID st = (res, st')"
  shows "step st res st'"
proof -
  let ?st1 = "upd_variable (vs ! i) (\<lambda>v. v\<lparr>v_OrgID := orgID\<rparr>) st"
  let ?v = "variable_at ?st1 (vs ! i)"
  show ?thesis
  proof (cases "variable_shouldApply M ?v")
    case False
    with assms have "st' = ?st1" by (auto simp: applyVariables_createFn_def Let_def)
    then show ?thesis by (simp add: stepI_none)
  next
    case True
    obtain r st2 where ab: "applyVariable M s ?v ?st1 = (r, st2)"
      by (cases "applyVariable M s ?v ?st1")
    from applyVariable_call [OF ab] obtain c where c: "create_or_update c"
      "trace st2 = trace st @ [Port c (err_of r)]" "rb_lists st2 = rb_lists st"
      "rb_count st2 = rb_count st" by auto
    show ?thesis
    proof (cases r)
      case (Inl e)
      with assms True ab have "st' = st2" by (auto simp: applyVariables_createFn_def Let_def)
      with c show ?thesis by (simp add: stepI_fail)
    next
      case (Inr x)
      with assms True ab have "res = None"
        "st' = (upd_variable (vs ! i) (\<lambda>v. v\<lparr>v_id := var_ID x\<rparr>) st2)
                 \<lparr>rb_vars := rb_vars st2 @ [vs ! i]\<rparr>"
        by (auto simp: applyVariables_createFn_def Let_def)
      with c Inr show ?thesis
        by (intro stepI_ok [of _ _ c] | simp add: err_of_def upd_variable_def rb_count_def)+
    qed
  qed
qed

lemma dashboards_step:
  assumes "applyDashboards_createFn M s ds i orgID userID st = (res, st')"
  shows "step st res st'"
proof -
  let ?st1 = "upd_dashboard (ds ! i) (\<lambda>d. d\<lparr>d_OrgID := orgID\<rparr>) st"
  let ?d = "dashboard_at ?st1 (ds ! i)"
  obtain r st2 where ab: "applyDashboard M s ?d ?st1 = (r, st2)"
    by (cases "applyDashboard M s ?d ?st1")
  from applyDashboard_call [OF ab] obtain c where c: "create_or_update c"
    "trace st2 = trace st @ [Port c (err_of r)]" "rb_lists st2 = rb_lists st"
    "rb_count st2 = rb_count st" by auto
  show ?thesis
  proof (cases r)
    case (Inl e)
    with assms ab have "st' = st2" by (auto simp: applyDashboards_createFn_def Let_def)
    with c show ?thesis by (simp add: stepI_fail)
  next
    case (Inr x)
    with assms ab have "res = None"
      "st' = (upd_dashboard (ds ! i) (\<lambda>d. d\<lparr>d_id := dash_ID x\<rparr>) st2)
               \<lparr>rb_dashboards := rb_dashboards st2 @ [ds ! i]\<rparr>"
      by (auto simp: applyDashboards_createFn_def Let_def)
    with c Inr show ?thesis
      by (intro stepI_ok [of _ _ c] | simp add: err_of_def upd_dashboard_def rb_count_def)+
  qed
qed

lemma endpoints_step:
  assumes "applyNotificationEndpoints_createFn M s es i orgID userID st = (res, st')"
  shows "step st res st'"
proof -
  let ?st1 = "upd_endpoint (es ! i) (\<lambda>e. e\<lparr>e_OrgID := orgID\<rparr>) st"
  let ?e = "endpoint_at ?st1 (es ! i)"
  obtain r st2 where ab: "applyNotificationEndpoint M s ?e userID ?st1 = (r, st2)"
    by (cases "applyNotificationEndpoint M s ?e userID ?st1")
  from applyNotificationEndpoint_call [OF ab] obtain c where c: "create_or_update c"
    "trace st2 = trace st @ [Port c (err_of r)]" "rb_lists st2 = rb_lists st"
    "rb_count st2 = rb_count st" by auto
  show ?thesis
  proof (cases r)
    case (Inl e)
    with assms ab have "st' = st2"
      by (auto simp: applyNotificationEndpoints_createFn_def Let_def)
    with c show ?thesis by (simp add: stepI_fail)
  next
    case (Inr x)
    with assms ab have "res = None"
      "st' = (upd_endpoint (es ! i)
                (\<lambda>e. foldl (\<lambda>e key. set_secret key e) (e\<lparr>e_id := ep_ID x\<rparr>)
                       (ep_SecretFields x)) st2)
               \<lparr>rb_endpoints := rb_endpoints st2 @ [es ! i]\<rparr>"
      by (auto simp: applyNotificationEndpoints_createFn_def Let_def)
    with c Inr show ?thesis
      by (intro stepI_ok [of _ _ c] | simp add: err_of_def upd_endpoint_def rb_count_def)+
  qed
qed

lemma telegrafs_step:
  assumes "applyTelegrafs_createFn M s ts i orgID userID st = (res, st')"
  shows "step st res st'"
proof -
  let ?st1 = "upd_telegraf (ts ! i) (\<lambda>t. t\<lparr>t_config := (t_config t)\<lparr>tc_OrgID := orgID\<rparr>\<rparr>) st"
  let ?cfg = "t_config (telegraf_at ?st1 (ts ! i))"
  obtain r st2 where ab: "port_val (CreateTelegrafConfig ?cfg userID)
      (teleSVC_CreateTelegrafConfig s ?cfg userID) ?st1 = (r, st2)"
    by (cases "port_val (CreateTelegrafConfig ?cfg userID)
      (teleSVC_CreateTelegrafConfig s ?cfg userID) ?st1")
  from port_val_cases [OF ab] have c:
    "trace st2 = trace st @ [Port (CreateTelegrafConfig ?cfg userID) (err_of r)]"
    "rb_lists st2 = rb_lists st" "rb_count st2 = rb_count st" by auto
  show ?thesis
  proof (cases r)
    case (Inl e)
    with assms ab have "st' = st2" by (auto simp: applyTelegrafs_createFn_def Let_def)
    with c show ?thesis by (simp add: stepI_fail)
  next
    case (Inr x)
    with assms ab have "res = None"
      "st' = (upd_telegraf (ts ! i) (\<lambda>t. t\<lparr>t_config := x\<rparr>) st2)
               \<lparr>rb_telegrafs := rb_telegrafs st2 @ [ts ! i]\<rparr>"
      by (auto simp: applyTelegrafs_createFn_def Let_def)
    with c Inr show ?thesis
      by (intro stepI_ok [of _ _ "CreateTelegrafConfig ?cfg userID"]
          | simp add: err_of_def upd_telegraf_def rb_count_def)+
  qed
qed

lemma mappings_skip:
  assumes "slm_exists (lms ! i)"
  shows "applyLabelMappings_createFn M s lms i orgID userID st = (None, st)"
  using assms by (simp add: applyLabelMappings_createFn_def)

lemma mappings_step:
  assumes "applyLabelMappings_createFn M s lms i orgID userID st = (res, st')"
  shows "step st res st'"
proof (cases "slm_exists (lms ! i)")
  case True
  with assms show ?thesis by (auto simp: mappings_skip stepI_none)
next
  case False
  let ?m = "\<lparr>lm_LabelID = slm_LabelID (lms ! i), lm_ResourceID = slm_ResourceID (lms ! i),
             lm_ResourceType = slm_ResourceType (lms ! i)\<rparr>"
  obtain r st2 where ab:
    "port_err (CreateLabelMapping ?m) (labelSVC_CreateLabelMapping s ?m) st = (r, st2)"
    by (cases "port_err (CreateLabelMapping ?m) (labelSVC_CreateLabelMapping s ?m) st")
  from port_err_cases [OF ab] have c:
    "trace st2 = trace st @ [Port (CreateLabelMapping ?m) r]"
    "rb_lists st2 = rb_lists st" "rb_count st2 = rb_count st" by auto
  show ?thesis
  proof (cases r)
    case (Some e)
    with assms False ab have "st' = st2"
      by (auto simp: applyLabelMappings_createFn_def Let_def)
    with c show ?thesis by (simp add: stepI_fail)
  next
    case None
    with assms False ab have "res = None" "st' = st2\<lparr>rb_mappings := rb_mappings st2 @ [?m]\<rparr>"
      by (auto simp: applyLabelMappings_createFn_def Let_def)
    with c None show ?thesis
      by (intro stepI_ok [of _ _ "CreateLabelMapping ?m"] | simp add: rb_count_def)+
  qed
qed

subsection \<open>Traces\<close>

lemma proj_Nil [simp]:
  "ports [] = []" "created [] = []" "recorded [] = []" "rolled_back [] = []"
  "group_ends [] = []" "logged [] = []" "handler_errors [] = []" "skeleton [] = []"
  by (simp_all add: ports_def created_def recorded_def rolled_back_def group_ends_def
        logged_def handler_errors_def skeleton_def)

lemma proj_append [simp]:
  "ports (xs @ ys) = ports xs @ ports ys"
  "created (xs @ ys) = created xs @ created ys"
  "recorded (xs @ ys) = recorded xs @ recorded ys"
  "rolled_back (xs @ ys) = rolled_back xs @ rolled_back ys"
  "group_ends (xs @ ys) = group_ends xs @ group_ends ys"
  "logged (xs @ ys) = logged xs @ logged ys"
  "handler_errors (xs @ ys) = handler_errors xs @ handler_errors ys"
  "skeleton (xs @ ys) = skeleton xs @ skeleton ys"
  by (simp_all add: ports_def created_def recorded_def rolled_back_def group_ends_def
        logged_def handler_errors_def skeleton_def)

lemma proj_Cons [simp]:
  "ports (ev # xs) = ev_port ev @ ports xs"
  "created (ev # xs) = ev_created ev @ created xs"
  "recorded (ev # xs) = ev_recorded ev @ recorded xs"
  "rolled_back (ev # xs) = ev_rolled_back ev @ rolled_back xs"
  "group_ends (ev # xs) = ev_group_end ev @ group_ends xs"
  "logged (ev # xs) = ev_logged ev @ logged xs"
  "handler_errors (ev # xs) = ev_handler_error ev @ handler_errors xs"
  "skeleton (ev # xs) = (if is_port ev then skeleton xs else ev # skeleton xs)"
  by (simp_all add: ports_def created_def recorded_def rolled_back_def group_ends_def
        logged_def handler_errors_def skeleton_def)

lemma ev_port_free:
  "is_port ev \<Longrightarrow> ev_created ev = [] \<and> ev_recorded ev = [] \<and> ev_rolled_back ev = []
     \<and> ev_group_end ev = [] \<and> ev_logged ev = [] \<and> ev_handler_error ev = []"
  by (cases ev) simp_all

lemma proj_skeleton [simp]:
  "created (skeleton tr) = created tr" "recorded (skeleton tr) = recorded tr"
  "rolled_back (skeleton tr) = rolled_back tr" "group_ends (skeleton tr) = group_ends tr"
  "logged (skeleton tr) = logged tr" "handler_errors (skeleton tr) = handler_errors tr"
  by (induction tr) (simp_all add: ev_port_free)

lemma skeleton_ports: "list_all is_port cs \<Longrightarrow> skeleton cs = []"
  by (induction cs) simp_all

lemma is_read_port: "is_read ev \<Longrightarrow> is_port ev"
  by (cases ev) simp_all

lemma reads_ports: "list_all is_read cs \<Longrightarrow> list_all is_port cs"
  by (induction cs) (simp_all add: is_read_port)

subsection \<open>Runs that only call ports\<close>

lemma ports_onlyI:
  "trace st' = trace st @ cs \<Longrightarrow> list_all is_port cs \<Longrightarrow> ports_only st st'"
  by (simp add: ports_only_def since_def)

lemma ports_onlyD:
  assumes "ports_only st st'"
  shows "trace st' = trace st @ since st st' \<and> list_all is_port (since st st')"
proof -
  have "take (length (trace st)) (trace st') @ drop (length (trace st)) (trace st') = trace st'"
    by (rule append_take_drop_id)
  with assms show ?thesis by (auto simp: ports_only_def since_def)
qed

lemma ports_only_refl [simp]: "ports_only st st"
  by (simp add: ports_only_def since_def)

lemma ports_only_same: "trace st' = trace st \<Longrightarrow> ports_only st st'"
  by (simp add: ports_only_def since_def)

lemma ports_only_trans:
  assumes "ports_only st st1" "ports_only st1 st2"
  shows "ports_only st st2"
proof -
  from assms have "trace st2 = trace st @ (since st st1 @ since st1 st2)"
    "list_all is_port (since st st1 @ since st1 st2)"
    by (auto dest!: ports_onlyD)
  then show ?thesis by (rule ports_onlyI)
qed

lemma reads_onlyI:
  "trace st' = trace st @ cs \<Longrightarrow> list_all is_read cs \<Longrightarrow> reads_only st st'"
  by (simp add: reads_only_def since_def)

lemma reads_onlyD:
  assumes "reads_only st st'"
  shows "trace st' = trace st @ since st st' \<and> list_all is_read (since st st')"
proof -
  have "take (length (trace st)) (trace st') @ drop (length (trace st)) (trace st') = trace st'"
    by (rule append_take_drop_id)
  with assms show ?thesis by (auto simp: reads_only_def since_def)
qed

lemma reads_only_refl [simp]: "reads_only st st"
  by (simp add: reads_only_def since_def)

lemma reads_only_same: "trace st' = trace st \<Longrightarrow> reads_only st st'"
  by (simp add: reads_only_def since_def)

lemma reads_only_trans:
  assumes "reads_only st st1" "reads_only st1 st2"
  shows "reads_only st st2"
proof -
  from assms have "trace st2 = trace st @ (since st st1 @ since st1 st2)"
    "list_all is_read (since st st1 @ since st1 st2)"
    by (auto dest!: reads_onlyD)
  then show ?thesis by (rule reads_onlyI)
qed

lemma reads_only_ports_only: "reads_only st st' \<Longrightarrow> ports_only st st'"
  by (auto dest!: reads_onlyD intro: ports_onlyI reads_ports)

lemma port_val_ports_only: "port_val c f st = (r, st') \<Longrightarrow> ports_only st st'"
  by (auto dest!: port_val_cases intro: ports_onlyI)

lemma port_err_ports_only: "port_err c f st = (r, st') \<Longrightarrow> ports_only st st'"
  by (auto dest!: port_err_cases intro: ports_onlyI)

lemma step_ports_only: "step st res st' \<Longrightarrow> ports_only st st'"
  by (simp add: step_def)

subsection \<open>The rollback handlers only call ports\<close>

lemma rollbackBuckets_loop_ports:
  "rollbackBuckets_loop M s bs errs st = (errs', st') \<Longrightarrow> ports_only st st'"
proof (induction bs arbitrary: errs st)
  case Nil
  then show ?case by simp
next
  case (Cons b bs)
  show ?case
  proof (cases "b_existing b = None")
    case True
    obtain err st1 where p: "port_err (DeleteBucket (bucket_ID M b))
        (bucketSVC_DeleteBucket s (bucket_ID M b)) st = (err, st1)"
      by (cases "port_err (DeleteBucket (bucket_ID M b))
        (bucketSVC_DeleteBucket s (bucket_ID M b)) st")
    with Cons.prems True have "\<exists>e. rollbackBuckets_loop M s bs e st1 = (errs', st')"
      by (auto split: if_splits)
    then have "ports_only st1 st'" using Cons.IH by blast
    with p show ?thesis by (blast intro: ports_only_trans port_err_ports_only)
  next
    case False
    let ?upd = "\<lparr>bu_Description = Some (b_Description b),
                 bu_RetentionPeriod = Some (RP M (b_RetentionRules b))\<rparr>"
    obtain r st1 where p: "port_val (UpdateBucket (bucket_ID M b) ?upd)
        (bucketSVC_UpdateBucket s (bucket_ID M b) ?upd) st = (r, st1)"
      by (cases "port_val (UpdateBucket (bucket_ID M b) ?upd)
        (bucketSVC_UpdateBucket s (bucket_ID M b) ?upd) st")
    with Cons.prems False have "\<exists>e. rollbackBuckets_loop M s bs e st1 = (errs', st')"
      by (auto simp: Let_def split: if_splits)
    then have "ports_only st1 st'" using Cons.IH by blast
    with p show ?thesis by (blast intro: ports_only_trans port_val_ports_only)
  qed
qed

lemma rollbackBuckets_ports: "ports_only st (snd (rollbackBuckets M s bs st))"
  by (auto simp: rollbackBuckets_def split: prod.splits dest: rollbackBuckets_loop_ports)

lemma ports_step_val:
  assumes "port_val c f st = (r, st1)" "ports_only st1 st'"
  shows "ports_only st st'"
  using assms by (blast intro: ports_only_trans port_val_ports_only)

lemma ports_step_err:
  assumes "port_err c f st = (r, st1)" "ports_only st1 st'"
  shows "ports_only st st'"
  using assms by (blast intro: ports_only_trans port_err_ports_only)

lemma rollbackLabels_loop_ports:
  "rollbackLabels_loop M s ls errs st = (errs', st') \<Longrightarrow> ports_only st st'"
  by (induction ls arbitrary: errs st)
     (auto simp: Let_def split: option.splits prod.splits if_splits
           intro: ports_step_val ports_step_err)

lemma rollbackLabels_ports: "ports_only st (snd (rollbackLabels M s ls st))"
  by (auto simp: rollbackLabels_def split: prod.splits dest: rollbackLabels_loop_ports)

lemma rollbackVariables_loop_ports:
  "rollbackVariables_loop M s vs errs st = (errs', st') \<Longrightarrow> ports_only st st'"
  by (induction vs arbitrary: errs st)
     (auto simp: Let_def split: option.splits prod.splits if_splits
           intro: ports_step_val ports_step_err)

lemma rollbackVariables_ports: "ports_only st (snd (rollbackVariables M s vs st))"
  by (auto simp: rollbackVariables_def split: prod.splits dest: rollbackVariables_loop_ports)

lemma rollbackNotificationEndpoints_loop_ports:
  "rollbackNotificationEndpoints_loop M s es errs st = (errs', st') \<Longrightarrow> ports_only st st'"
  by (induction es arbitrary: errs st)
     (auto simp: Let_def split: option.splits prod.splits if_splits
           intro: ports_step_val ports_step_err)

lemma rollbackNotificationEndpoints_ports:
  "ports_only st (snd (rollbackNotificationEndpoints M s es st))"
  by (auto simp: rollbackNotificationEndpoints_def split: prod.splits
        dest: rollbackNotificationEndpoints_loop_ports)

lemma rollbackLabelMappings_loop_ports:
  "rollbackLabelMappings_loop M s ms errs st = (errs', st') \<Longrightarrow> ports_only st st'"
  by (induction ms arbitrary: errs st)
     (auto simp: Let_def split: option.splits prod.splits if_splits
           intro: ports_step_val ports_step_err)

lemma rollbackLabelMappings_ports: "ports_only st (snd (rollbackLabelMappings M s ms st))"
  by (auto simp: rollbackLabelMappings_def split: prod.splits
        dest: rollbackLabelMappings_loop_ports)

lemma deleteByIDs_loop_ports:
  assumes "\<And>id st. ports_only st (snd (deleteFn id st))"
  shows "deleteByIDs_loop M deleteFn iterFn is errs st = (errs', st') \<Longrightarrow> ports_only st st'"
proof (induction "is" arbitrary: errs st)
  case Nil
  then show ?case by simp
next
  case (Cons i "is")
  obtain err st1 where d: "deleteFn (iterFn i) st = (err, st1)"
    by (cases "deleteFn (iterFn i) st")
  then have "ports_only st st1" using assms [of st "iterFn i"] by simp
  moreover from Cons.prems d have "\<exists>e. deleteByIDs_loop M deleteFn iterFn is e st1 = (errs', st')"
    by (auto simp: Let_def split: if_splits)
  then have "ports_only st1 st'" using Cons.IH by blast
  ultimately show ?case by (rule ports_only_trans)
qed

lemma deleteByIDs_ports:
  assumes "\<And>id st. ports_only st (snd (deleteFn id st))"
  shows "ports_only st (snd (deleteByIDs M res n deleteFn iterFn st))"
  using deleteByIDs_loop_ports [OF assms]
  by (auto simp: deleteByIDs_def split: prod.splits)

text \<open>an applier whose functions only call ports\<close>

lemma port_err_snd_ports: "ports_only st (snd (port_err c f st))"
  by (cases "port_err c f st") (auto dest: port_err_ports_only)

lemma applier_ports:
  assumes "app \<in> set [applyLabels M s ls, applyVariables M s vs, applyBuckets M s bs,
             applyDashboards M s ds, applyNotificationEndpoints M s es,
             applyTelegrafs M s ts, applyLabelMappings M s lms]"
  shows "applier_ok app"
proof -
  have c: "ports_only st (snd (c_fn (creater app) i orgID userID st))" for i orgID userID st
  proof -
    obtain res st' where r: "c_fn (creater app) i orgID userID st = (res, st')"
      by (cases "c_fn (creater app) i orgID userID st")
    then have "step st res st'"
      using assms
      by (auto simp: applyLabels_def applyVariables_def applyBuckets_def applyDashboards_def
          applyNotificationEndpoints_def applyTelegrafs_def applyLabelMappings_def
        intro: labels_step variables_step buckets_step dashboards_step endpoints_step
          telegrafs_step mappings_step)
    with r show ?thesis by (simp add: step_def)
  qed
  have r: "ports_only st (snd (r_fn (rollbacker app) st))" for st
    using assms
    by (auto simp: applyLabels_def applyVariables_def applyBuckets_def applyDashboards_def
          applyNotificationEndpoints_def applyTelegrafs_def applyLabelMappings_def
        intro!: rollbackLabels_ports rollbackVariables_ports rollbackBuckets_ports
          rollbackNotificationEndpoints_ports rollbackLabelMappings_ports deleteByIDs_ports
          port_err_snd_ports)
  from c r show ?thesis by (simp add: applier_ok_def)
qed

subsection \<open>The coordinator\<close>

lemma mset_schedule: "mset (schedule ps ws) = mset ws"
proof (induction ps ws rule: schedule.induct)
  case (3 p ps w ws)
  let ?xs = "w # ws"
  let ?k = "p mod Suc (length ws)"
  have k: "?k < length ?xs" by simp
  have "mset ?xs = mset (take ?k ?xs @ ?xs ! ?k # drop (Suc ?k) ?xs)"
    using k by (simp only: id_take_nth_drop [symmetric])
  also have "\<dots> = add_mset (?xs ! ?k) (mset (take ?k ?xs @ drop (Suc ?k) ?xs))"
    by simp
  finally show ?case using 3 by (simp add: Let_def)
qed simp_all

lemma set_schedule: "set (schedule ps ws) = set ws"
  using mset_schedule [of ps ws] by (metis set_mset_mset)

lemma first_failure_append:
  "first_failure (xs @ ys) =
     (case first_failure xs of Some e \<Rightarrow> Some e | None \<Rightarrow> first_failure ys)"
  by (induction xs rule: first_failure.induct) simp_all

lemma after_failed_group_append:
  "after_failed_group (xs @ ys) =
     (case first_failure xs of Some e \<Rightarrow> after_failed_group xs @ ys
      | None \<Rightarrow> after_failed_group ys)"
  by (induction xs rule: first_failure.induct) (simp_all split: option.splits)

lemma no_group_end:
  "group_ends xs = [] \<Longrightarrow> first_failure xs = None"
  by (induction xs rule: first_failure.induct) simp_all

lemma skeleton_first_failure [simp]: "first_failure (skeleton tr) = first_failure tr"
  by (induction tr rule: first_failure.induct) simp_all

lemma run_workers_trace:
  assumes "\<forall>app \<in> set appliers. applier_ok app" "\<forall>w \<in> set ws. fst w < length appliers"
    and "run_workers appliers orgID userID ws st = (msgs, st')"
  shows "\<exists>evs. trace st' = trace st @ evs
           \<and> skeleton evs = map (\<lambda>w. CreateFn (resource (rollbacker (appliers ! fst w))) (snd w)) ws"
  using assms(2,3)
proof (induction ws arbitrary: st msgs st')
  case Nil
  then show ?case by simp
next
  case (Cons w ws)
  obtain i idx where w: "w = (i, idx)" by (cases w)
  let ?app = "appliers ! i"
  let ?res = "resource (rollbacker ?app)"
  let ?st0 = "emit (CreateFn ?res idx) st"
  obtain err st1 where c: "c_fn (creater ?app) idx orgID userID ?st0 = (err, st1)"
    by (cases "c_fn (creater ?app) idx orgID userID ?st0")
  obtain msgs2 st2 where r: "run_workers appliers orgID userID ws st1 = (msgs2, st2)"
    by (cases "run_workers appliers orgID userID ws st1")
  have "i < length appliers" using Cons.prems(1) w by simp
  then have "applier_ok ?app" using assms(1) by simp
  then have "ports_only ?st0 st1" using c by (metis applier_ok_def snd_conv)
  then have t1: "trace st1 = trace st @ [CreateFn ?res idx] @ since ?st0 st1"
    and p1: "list_all is_port (since ?st0 st1)"
    by (auto dest!: ports_onlyD simp: emit_def)
  from Cons.IH [OF _ r] Cons.prems(1) obtain evs where
    e: "trace st2 = trace st1 @ evs"
       "skeleton evs = map (\<lambda>w. CreateFn (resource (rollbacker (appliers ! fst w))) (snd w)) ws"
    by auto
  have "st' = st2" using Cons.prems(2) w c r by (simp add: Let_def)
  then have "trace st' = trace st @ ([CreateFn ?res idx] @ since ?st0 st1 @ evs)"
    using t1 e by simp
  moreover have "skeleton ([CreateFn ?res idx] @ since ?st0 st1 @ evs)
      = map (\<lambda>w. CreateFn (resource (rollbacker (appliers ! fst w))) (snd w)) (w # ws)"
    using p1 e w by (simp add: skeleton_ports)
  ultimately show ?case by blast
qed

lemma work_items_bound: "\<forall>w \<in> set (work_items appliers). fst w < length appliers"
  by (auto simp: work_items_def)

lemma trace_emit [simp]: "trace (emit ev st) = trace st @ [ev]"
  by (simp add: emit_def)

lemma trace_recorded:
  "trace (foldl (\<lambda>st app. emit (Recorded (resource (rollbacker app))) st) st apps)
     = trace st @ map (\<lambda>app. Recorded (resource (rollbacker app))) apps"
  by (induction apps arbitrary: st) simp_all

lemma runTilEnd_trace:
  assumes "\<forall>app \<in> set appliers. applier_ok app"
    and "runTilEnd M rn orgID userID appliers (r, st) = (err, r', st')"
  shows "rollbacks r' = rollbacks r @ map rollbacker appliers
       \<and> err = fst (runTilEnd M rn orgID userID appliers (r, st))
       \<and> (\<exists>evs. trace st' = trace st @ evs
             \<and> skeleton evs = map (\<lambda>app. Recorded (resource (rollbacker app))) appliers
                 @ map (\<lambda>w. CreateFn (resource (rollbacker (appliers ! fst w))) (snd w))
                     (schedule (picks rn) (work_items appliers))
                 @ [GroupEnd err])"
proof -
  let ?st1 = "foldl (\<lambda>st app. emit (Recorded (resource (rollbacker app))) st) st appliers"
  let ?ws = "schedule (picks rn) (work_items appliers)"
  obtain msgs st2 where w: "run_workers appliers orgID userID ?ws ?st1 = (msgs, st2)"
    by (cases "run_workers appliers orgID userID ?ws ?st1")
  have b: "\<forall>w \<in> set ?ws. fst w < length appliers"
    using work_items_bound by (simp add: set_schedule)
  from run_workers_trace [OF assms(1) b w] obtain evs where
    e: "trace st2 = trace ?st1 @ evs"
       "skeleton evs = map (\<lambda>w. CreateFn (resource (rollbacker (appliers ! fst w))) (snd w)) ?ws"
    by auto
  from assms(2) w have res: "err = errStream_close M rn msgs"
    "r' = r\<lparr>rollbacks := rollbacks r @ map rollbacker appliers\<rparr>"
    "st' = emit (GroupEnd err) st2"
    by (auto simp: runTilEnd_def Let_def)
  let ?evs = "map (\<lambda>app. Recorded (resource (rollbacker app))) appliers @ evs @ [GroupEnd err]"
  have "trace st' = trace st @ ?evs"
    using res e by (simp add: trace_recorded)
  moreover have "skeleton ?evs = map (\<lambda>app. Recorded (resource (rollbacker app))) appliers
                 @ map (\<lambda>w. CreateFn (resource (rollbacker (appliers ! fst w))) (snd w)) ?ws
                 @ [GroupEnd err]"
    using e(2) by (simp add: skeleton_def)
  ultimately show ?thesis using res assms(2) by auto
qed

lemma rollback_loop_trace:
  assumes "\<forall>r \<in> set rs. \<forall>st. ports_only st (snd (r_fn r st))"
  shows "\<exists>evs. trace (rollback_loop rs st) = trace st @ evs
           \<and> rolled_back evs = map resource rs \<and> logged evs = handler_errors evs
           \<and> created evs = [] \<and> recorded evs = [] \<and> group_ends evs = []"
  using assms
proof (induction rs arbitrary: st)
  case Nil
  then show ?case by simp
next
  case (Cons r rs)
  obtain err st1 where f: "r_fn r st = (err, st1)" by (cases "r_fn r st")
  have "ports_only st st1" using Cons.prems f by (metis list.set_intros(1) snd_conv)
  then have t1: "trace st1 = trace st @ since st st1" and p1: "list_all is_port (since st st1)"
    by (auto dest!: ports_onlyD)
  let ?tail = "case err of None \<Rightarrow> [] | Some e \<Rightarrow> [LogError (''failed to delete '' @ resource r) e]"
  let ?st3 = "case err of None \<Rightarrow> emit (RollbackFn (resource r) err) st1
              | Some e \<Rightarrow> emit (LogError (''failed to delete '' @ resource r) e)
                           (emit (RollbackFn (resource r) err) st1)"
  have t3: "trace ?st3 = trace st @ since st st1 @ [RollbackFn (resource r) err] @ ?tail"
    using t1 by (cases err) (simp_all add: emit_def)
  from Cons.IH [of ?st3] Cons.prems obtain evs where
    e: "trace (rollback_loop rs ?st3) = trace ?st3 @ evs" "rolled_back evs = map resource rs"
       "logged evs = handler_errors evs" "created evs = []" "recorded evs = []"
       "group_ends evs = []"
    by auto
  have eq: "rollback_loop (r # rs) st = rollback_loop rs ?st3"
    using f by (cases err) (simp_all add: Let_def)
  let ?evs = "since st st1 @ [RollbackFn (resource r) err] @ ?tail @ evs"
  have sk: "skeleton (since st st1) = []" using p1 by (rule skeleton_ports)
  have z: "created (since st st1) = []" "recorded (since st st1) = []"
    "rolled_back (since st st1) = []" "group_ends (since st st1) = []"
    "logged (since st st1) = []" "handler_errors (since st st1) = []"
    using sk proj_skeleton [of "since st st1"] by simp_all
  have "trace (rollback_loop (r # rs) st) = trace st @ ?evs"
    using eq e(1) t3 by simp
  moreover have "rolled_back ?evs = map resource (r # rs)" "logged ?evs = handler_errors ?evs"
    "created ?evs = []" "recorded ?evs = []" "group_ends ?evs = []"
    using e z by (cases err; simp)+
  ultimately show ?case by blast
qed

lemma after_failed_group_last:
  "group_ends xs = [] \<Longrightarrow> after_failed_group (xs @ [GroupEnd err]) = []"
  by (cases err) (simp_all add: after_failed_group_append no_group_end)

lemma first_failure_last:
  "group_ends xs = [] \<Longrightarrow> first_failure (xs @ [GroupEnd err]) = err"
  by (cases err) (simp_all add: first_failure_append no_group_end)

lemma skeleton_after_failed_group:
  "skeleton (after_failed_group tr) = after_failed_group (skeleton tr)"
  by (induction tr rule: first_failure.induct) simp_all

lemma runTilEnd_segment:
  assumes "\<forall>app \<in> set appliers. applier_ok app"
    and "runTilEnd M rn orgID userID appliers (r, st) = (err, r', st')"
  shows "rollbacks r' = rollbacks r @ map rollbacker appliers
       \<and> (\<exists>evs. trace st' = trace st @ evs
             \<and> group_segment (map (\<lambda>app. resource (rollbacker app)) appliers) err evs)"
proof -
  let ?names = "map (\<lambda>app. resource (rollbacker app)) appliers"
  let ?ws = "schedule (picks rn) (work_items appliers)"
  let ?cs = "map (\<lambda>w. CreateFn (resource (rollbacker (appliers ! fst w))) (snd w)) ?ws"
  from runTilEnd_trace [OF assms] obtain evs where
    r: "rollbacks r' = rollbacks r @ map rollbacker appliers"
    and t: "trace st' = trace st @ evs"
    and sk: "skeleton evs = map (\<lambda>app. Recorded (resource (rollbacker app))) appliers
               @ ?cs @ [GroupEnd err]"
    by auto
  have rec: "recorded (map (\<lambda>app. Recorded (resource (rollbacker app))) appliers) = ?names"
    and rec0: "created (map (\<lambda>app. Recorded (resource (rollbacker app))) appliers) = []"
      "group_ends (map (\<lambda>app. Recorded (resource (rollbacker app))) appliers) = []"
      "rolled_back (map (\<lambda>app. Recorded (resource (rollbacker app))) appliers) = []"
      "logged (map (\<lambda>app. Recorded (resource (rollbacker app))) appliers) = []"
      "handler_errors (map (\<lambda>app. Recorded (resource (rollbacker app))) appliers) = []"
    by (induction appliers) simp_all
  have b: "\<forall>w \<in> set ?ws. fst w < length appliers"
    using work_items_bound by (simp add: set_schedule)
  have cr: "created (map (\<lambda>w. CreateFn (resource (rollbacker (appliers ! fst w))) (snd w)) ws)
              = map (\<lambda>w. (resource (rollbacker (appliers ! fst w)), snd w)) ws"
    and cr0: "recorded (map (\<lambda>w. CreateFn (resource (rollbacker (appliers ! fst w))) (snd w)) ws) = []"
      "group_ends (map (\<lambda>w. CreateFn (resource (rollbacker (appliers ! fst w))) (snd w)) ws) = []"
      "rolled_back (map (\<lambda>w. CreateFn (resource (rollbacker (appliers ! fst w))) (snd w)) ws) = []"
      "logged (map (\<lambda>w. CreateFn (resource (rollbacker (appliers ! fst w))) (snd w)) ws) = []"
      "handler_errors (map (\<lambda>w. CreateFn (resource (rollbacker (appliers ! fst w))) (snd w)) ws) = []"
    for ws :: "(nat \<times> nat) list"
    by (induction ws) simp_all
  have inn: "list_all (\<lambda>c. fst c \<in> set ?names)
               (map (\<lambda>w. (resource (rollbacker (appliers ! fst w)), snd w)) ?ws)"
    using b by (auto simp: list_all_iff)
  have ge: "group_ends (map (\<lambda>app. Recorded (resource (rollbacker app))) appliers @ ?cs) = []"
    using rec0 cr0 by simp
  have p: "recorded (skeleton evs) = ?names"
      "created (skeleton evs) = map (\<lambda>w. (resource (rollbacker (appliers ! fst w)), snd w)) ?ws"
      "group_ends (skeleton evs) = [err]" "rolled_back (skeleton evs) = []"
      "logged (skeleton evs) = []" "handler_errors (skeleton evs) = []"
    unfolding sk using rec rec0 cr cr0 by simp_all
  have ff: "first_failure (skeleton evs) = err"
    unfolding sk using first_failure_last [OF ge] by simp
  have af: "after_failed_group (skeleton evs) = []"
    unfolding sk using after_failed_group_last [OF ge] by simp
  have "group_segment ?names err evs"
    unfolding group_segment_def
    using p inn ff af by (simp add: skeleton_after_failed_group)
  with r t show ?thesis by blast
qed

lemma created_groups:
  assumes "list_all (\<lambda>c. fst c \<in> set names) cs" "\<forall>n \<in> set names. group_of n = g"
  shows "map (\<lambda>c. group_of (fst c)) cs = replicate (length cs) g"
  using assms by (induction cs) auto

lemma created_skeleton_after:
  "skeleton (after_failed_group evs) = [] \<Longrightarrow> created (after_failed_group evs) = []
     \<and> rolled_back (after_failed_group evs) = [] \<and> logged (after_failed_group evs) = []"
  using proj_skeleton [of "after_failed_group evs"] by simp

lemma segment_facts:
  assumes "group_segment names err evs" "\<forall>n \<in> set names. group_of n = g"
    and "set names \<subseteq> set applier_names"
  shows "recorded evs = names" "group_ends evs = [err]" "rolled_back evs = []"
    "logged evs = []" "handler_errors evs = []" "first_failure evs = err"
    "created (after_failed_group evs) = []" "rolled_back (after_failed_group evs) = []"
    "logged (after_failed_group evs) = []"
    "map (\<lambda>c. group_of (fst c)) (created evs) = replicate (length (created evs)) g"
    "list_all (\<lambda>c. fst c \<in> set applier_names) (created evs)"
proof -
  from assms(1) have l: "list_all (\<lambda>c. fst c \<in> set names) (created evs)"
    by (simp add: group_segment_def)
  with assms(3) show "list_all (\<lambda>c. fst c \<in> set applier_names) (created evs)"
    by (auto simp: list_all_iff)
  from l assms(2)
  show "map (\<lambda>c. group_of (fst c)) (created evs) = replicate (length (created evs)) g"
    by (rule created_groups)
  from assms(1) have "skeleton (after_failed_group evs) = []"
    by (simp add: group_segment_def)
  from created_skeleton_after [OF this]
  show "created (after_failed_group evs) = []" "rolled_back (after_failed_group evs) = []"
    "logged (after_failed_group evs) = []"
    by simp_all
  from assms(1)
  show "recorded evs = names" "group_ends evs = [err]" "rolled_back evs = []"
    "logged evs = []" "handler_errors evs = []" "first_failure evs = err"
    by (simp_all add: group_segment_def)
qed

lemma group_names:
  "\<forall>n \<in> set [''label'']. group_of n = 0"
  "\<forall>n \<in> set [''variable'', ''bucket'', ''dashboard'', ''notification_endpoints'',
               ''telegrafs'']. group_of n = 1"
  "\<forall>n \<in> set [''label_mapping'']. group_of n = 2"
  "set [''label''] \<subseteq> set applier_names"
  "set [''variable'', ''bucket'', ''dashboard'', ''notification_endpoints'', ''telegrafs'']
     \<subseteq> set applier_names"
  "set [''label_mapping''] \<subseteq> set applier_names"
  by (simp_all add: group_of_def applier_names_def)

lemma run_A:
  assumes "group_segment [''label''] (Some x) evs0"
    and "rollback_segment [''label''] evsR"
  shows "apply_run (Some x) (evs0 @ evsR)"
  using segment_facts [OF assms(1) group_names(1) group_names(4)] assms(2)
  by (simp add: rollback_segment_def apply_run_def first_failure_append
        after_failed_group_append)

lemma run_B:
  assumes "group_segment [''label''] None evs0"
    and "group_segment [''variable'', ''bucket'', ''dashboard'', ''notification_endpoints'',
           ''telegrafs''] (Some x) evs1"
    and "rollback_segment ([''label''] @ [''variable'', ''bucket'', ''dashboard'',
           ''notification_endpoints'', ''telegrafs'']) evsR"
  shows "apply_run (Some x) (evs0 @ evs1 @ evsR)"
  using segment_facts [OF assms(1) group_names(1) group_names(4)]
    segment_facts [OF assms(2) group_names(2) group_names(5)] assms(3)
  by (simp add: rollback_segment_def apply_run_def first_failure_append
        after_failed_group_append sorted_append)

lemma run_C:
  assumes "group_segment [''label''] None evs0"
    and "group_segment [''variable'', ''bucket'', ''dashboard'', ''notification_endpoints'',
           ''telegrafs''] None evs1"
    and "group_segment [''label_mapping''] (Some x) evs2"
    and "rollback_segment ([''label''] @ [''variable'', ''bucket'', ''dashboard'',
           ''notification_endpoints'', ''telegrafs''] @ [''label_mapping'']) evsR"
  shows "apply_run (Some x) (evs0 @ evs1 @ evs2 @ evsR)"
  using segment_facts [OF assms(1) group_names(1) group_names(4)]
    segment_facts [OF assms(2) group_names(2) group_names(5)]
    segment_facts [OF assms(3) group_names(3) group_names(6)] assms(4)
  by (simp add: rollback_segment_def apply_run_def first_failure_append
        after_failed_group_append sorted_append)

lemma run_D:
  assumes "group_segment [''label''] None evs0"
    and "group_segment [''variable'', ''bucket'', ''dashboard'', ''notification_endpoints'',
           ''telegrafs''] None evs1"
    and "group_segment [''label_mapping''] None evs2"
  shows "apply_run None (evs0 @ evs1 @ evs2)"
  using segment_facts [OF assms(1) group_names(1) group_names(4)]
    segment_facts [OF assms(2) group_names(2) group_names(5)]
    segment_facts [OF assms(3) group_names(3) group_names(6)]
  by (simp add: apply_run_def first_failure_append after_failed_group_append sorted_append)

lemma appliers_ok:
  "applier_ok (applyLabels M s ls)" "applier_ok (applyVariables M s vs)"
  "applier_ok (applyBuckets M s bs)" "applier_ok (applyDashboards M s ds)"
  "applier_ok (applyNotificationEndpoints M s es)" "applier_ok (applyTelegrafs M s ts)"
  "applier_ok (applyLabelMappings M s lms)"
  by (rule applier_ports [of _ M s ls vs bs ds es ts lms], simp)+

lemma applier_resource:
  "resource (rollbacker (applyLabels M s ls)) = ''label''"
  "resource (rollbacker (applyVariables M s vs)) = ''variable''"
  "resource (rollbacker (applyBuckets M s bs)) = ''bucket''"
  "resource (rollbacker (applyDashboards M s ds)) = ''dashboard''"
  "resource (rollbacker (applyNotificationEndpoints M s es)) = ''notification_endpoints''"
  "resource (rollbacker (applyTelegrafs M s ts)) = ''telegrafs''"
  "resource (rollbacker (applyLabelMappings M s lms)) = ''label_mapping''"
  by (simp_all add: applyLabels_def applyVariables_def applyBuckets_def applyDashboards_def
        applyNotificationEndpoints_def applyTelegrafs_def applyLabelMappings_def)

lemma rollback_loop_segment:
  assumes "\<forall>app \<in> set apps. applier_ok app"
  shows "\<exists>evs. trace (rollback_loop (map rollbacker apps) st) = trace st @ evs
           \<and> rollback_segment (map (\<lambda>app. resource (rollbacker app)) apps) evs"
proof -
  have "\<forall>r \<in> set (map rollbacker apps). \<forall>st. ports_only st (snd (r_fn r st))"
    using assms by (auto simp: applier_ok_def)
  from rollback_loop_trace [OF this, of st] show ?thesis
    by (auto simp: rollback_segment_def comp_def)
qed

lemma Apply_groups_run:
  assumes "Apply_groups M s runs orgID userID st = (err, st')"
  shows "\<exists>evs. trace st' = trace st @ evs \<and> apply_run err evs"
proof -
  let ?A0 = "[applyLabels M s (ptrs (p_labels (pkg st)))]"
  let ?A1 = "[applyVariables M s (ptrs (p_variables (pkg st))),
              applyBuckets M s (ptrs (p_buckets (pkg st))),
              applyDashboards M s (ptrs (p_dashboards (pkg st))),
              applyNotificationEndpoints M s (ptrs (p_endpoints (pkg st))),
              applyTelegrafs M s (ptrs (p_telegrafs (pkg st)))]"
  let ?n0 = "[''label'']"
  let ?n1 = "[''variable'', ''bucket'', ''dashboard'', ''notification_endpoints'', ''telegrafs'']"
  let ?n2 = "[''label_mapping'']"
  have ok0: "\<forall>app \<in> set ?A0. applier_ok app" and ok1: "\<forall>app \<in> set ?A1. applier_ok app"
    by (simp_all add: appliers_ok)
  have nm0: "map (\<lambda>app. resource (rollbacker app)) ?A0 = ?n0"
    and nm1: "map (\<lambda>app. resource (rollbacker app)) ?A1 = ?n1"
    by (simp_all add: applier_resource)
  obtain e0 r0 st0 where
    r0: "runTilEnd M (runs 0) orgID userID ?A0 (\<lparr>rollbacks = []\<rparr>, st) = (e0, r0, st0)"
    by (cases "runTilEnd M (runs 0) orgID userID ?A0 (\<lparr>rollbacks = []\<rparr>, st)") auto
  from runTilEnd_segment [OF ok0 r0] nm0 obtain evs0 where
    rb0: "rollbacks r0 = map rollbacker ?A0" and t0: "trace st0 = trace st @ evs0"
    and s0: "group_segment ?n0 e0 evs0"
    by auto
  show ?thesis
  proof (cases e0)
    case (Some x)
    with assms r0 have res: "err = Some x" "st' = rollback_loop (rollbacks r0) st0"
      by (simp_all add: Apply_groups_def Let_def rollback_def)
    from rollback_loop_segment [OF ok0, of st0] nm0 obtain evsR where
      tR: "trace (rollback_loop (map rollbacker ?A0) st0) = trace st0 @ evsR"
      and sR: "rollback_segment ?n0 evsR"
      by auto
    have "apply_run (Some x) (evs0 @ evsR)"
      by (rule run_A [OF _ sR]) (use s0 Some in simp)
    moreover have "trace st' = trace st @ evs0 @ evsR"
      using res rb0 tR t0 by simp
    ultimately show ?thesis using res by blast
  next
    case None
    obtain e1 r1 st1 where
      r1: "runTilEnd M (runs (Suc 0)) orgID userID ?A1 (r0, st0) = (e1, r1, st1)"
      by (cases "runTilEnd M (runs (Suc 0)) orgID userID ?A1 (r0, st0)") auto
    from runTilEnd_segment [OF ok1 r1] nm1 obtain evs1 where
      rb1: "rollbacks r1 = rollbacks r0 @ map rollbacker ?A1"
      and t1: "trace st1 = trace st0 @ evs1"
      and s1: "group_segment ?n1 e1 evs1"
      by auto
    have ok01: "\<forall>app \<in> set (?A0 @ ?A1). applier_ok app"
      using ok0 ok1 by auto
    have nm01: "map (\<lambda>app. resource (rollbacker app)) (?A0 @ ?A1) = ?n0 @ ?n1"
      using nm0 nm1 by simp
    show ?thesis
    proof (cases e1)
      case (Some x)
      with assms r0 r1 None have res: "err = Some x" "st' = rollback_loop (rollbacks r1) st1"
        by (simp_all add: Apply_groups_def Let_def rollback_def)
      from rollback_loop_segment [OF ok01, of st1] nm01 obtain evsR where
        tR: "trace (rollback_loop (map rollbacker (?A0 @ ?A1)) st1) = trace st1 @ evsR"
        and sR: "rollback_segment (?n0 @ ?n1) evsR"
        by auto
      have "apply_run (Some x) (evs0 @ evs1 @ evsR)"
        by (rule run_B [OF _ _ sR]) (use s0 s1 None Some in simp_all)
      moreover have "trace st' = trace st @ evs0 @ evs1 @ evsR"
        using res rb0 rb1 tR t0 t1 by simp
      ultimately show ?thesis using res by blast
    next
      case e1None: None
      let ?A2 = "[applyLabelMappings M s (labelMappings M (pkg st1))]"
      have ok2: "\<forall>app \<in> set ?A2. applier_ok app" by (simp add: appliers_ok)
      have nm2: "map (\<lambda>app. resource (rollbacker app)) ?A2 = ?n2"
        by (simp add: applier_resource)
      obtain e2 r2 st2 where
        r2: "runTilEnd M (runs 2) orgID userID ?A2 (r1, st1) = (e2, r2, st2)"
        by (cases "runTilEnd M (runs 2) orgID userID ?A2 (r1, st1)") auto
      from runTilEnd_segment [OF ok2 r2] nm2 obtain evs2 where
        rb2: "rollbacks r2 = rollbacks r1 @ map rollbacker ?A2"
        and t2: "trace st2 = trace st1 @ evs2"
        and s2: "group_segment ?n2 e2 evs2"
        by auto
      have ok012: "\<forall>app \<in> set (?A0 @ ?A1 @ ?A2). applier_ok app"
        using ok0 ok1 ok2 by auto
      have nm012: "map (\<lambda>app. resource (rollbacker app)) (?A0 @ ?A1 @ ?A2) = ?n0 @ ?n1 @ ?n2"
        using nm0 nm1 nm2 by simp
      show ?thesis
      proof (cases e2)
        case (Some x)
        with assms r0 r1 r2 None e1None have res: "err = Some x"
          "st' = rollback_loop (rollbacks r2) st2"
          by (simp_all add: Apply_groups_def Let_def rollback_def)
        from rollback_loop_segment [OF ok012, of st2] nm012 obtain evsR where
          tR: "trace (rollback_loop (map rollbacker (?A0 @ ?A1 @ ?A2)) st2) = trace st2 @ evsR"
          and sR: "rollback_segment (?n0 @ ?n1 @ ?n2) evsR"
          by auto
        have "apply_run (Some x) (evs0 @ evs1 @ evs2 @ evsR)"
          by (rule run_C [OF _ _ _ sR]) (use s0 s1 s2 None e1None Some in simp_all)
        moreover have "trace st' = trace st @ evs0 @ evs1 @ evs2 @ evsR"
          using res rb0 rb1 rb2 tR t0 t1 t2 by simp
        ultimately show ?thesis using res by blast
      next
        case e2None: None
        with assms r0 r1 r2 None e1None have res: "err = None" "st' = st2"
          by (simp_all add: Apply_groups_def Let_def rollback_def)
        have "apply_run None (evs0 @ evs1 @ evs2)"
          by (rule run_D) (use s0 s1 s2 None e1None e2None in simp_all)
        moreover have "trace st' = trace st @ evs0 @ evs1 @ evs2"
          using res t0 t1 t2 by simp
        ultimately show ?thesis using res by blast
      qed
    qed
  qed
qed

subsection \<open>The dry run\<close>

lemma map_update_frame:
  assumes "\<And>x. g (f x) = g x"
  shows "map g (xs[a := f (xs ! a)]) = map g xs"
proof (cases "a < length xs")
  case True
  then show ?thesis by (simp add: map_update assms list_update_same_conv)
next
  case False
  then have "xs[a := f (xs ! a)] = xs" by (simp add: list_update_beyond)
  then show ?thesis by simp
qed

lemma label_reach_trans:
  assumes "label_reach M l2 l3" "label_reach M l1 l2"
  shows "label_reach M l1 l3"
  using assms by induction (auto intro: label_reach.intros)

lemma labels_reach_refl [simp]: "list_all2 (label_reach M) ls ls"
  by (simp add: list_all2_refl reach_refl)

lemma labels_reach_trans:
  "list_all2 (label_reach M) ls1 ls2 \<Longrightarrow> list_all2 (label_reach M) ls2 ls3
     \<Longrightarrow> list_all2 (label_reach M) ls1 ls3"
  by (rule list_all2_trans [of "label_reach M" "label_reach M"])
     (auto intro: label_reach_trans [rotated])

lemma labels_reach_update:
  assumes "\<And>l. label_reach M l (f l)"
  shows "list_all2 (label_reach M) ls (ls[a := f (ls ! a)])"
proof (cases "a < length ls")
  case True
  then show ?thesis
    using assms by (auto simp: list_all2_conv_all_nth nth_list_update reach_refl)
next
  case False
  then have "ls[a := f (ls ! a)] = ls" by (simp add: list_update_beyond)
  then show ?thesis by simp
qed

lemma dry_step_refl [simp]: "dry_step M st st"
  by (simp add: dry_step_def)

lemma dry_step_trans: "dry_step M st st1 \<Longrightarrow> dry_step M st1 st2 \<Longrightarrow> dry_step M st st2"
  by (auto simp: dry_step_def intro: reads_only_trans labels_reach_trans)

lemma dry_port_val:
  assumes "port_val c f st = (r, st')" "\<not> mutating c"
  shows "dry_step M st st'"
proof -
  from port_val_cases [OF assms(1)] have "trace st' = trace st @ [Port c (err_of r)]"
    "rb_lists st' = rb_lists st" "pkg st' = pkg st" by auto
  moreover have "list_all is_read [Port c (err_of r)]" using assms(2) by simp
  ultimately show ?thesis by (simp add: dry_step_def reads_onlyI)
qed

lemma dry_upd:
  "dry_step M st (upd_bucket a (\<lambda>b. b\<lparr>b_existing := x\<rparr>) st)"
  "dry_step M st (upd_label a (\<lambda>l. l\<lparr>l_existing := w\<rparr>) st)"
  "dry_step M st (upd_label a (setMapping M la ex) st)"
  "dry_step M st (upd_variable a (\<lambda>v. v\<lparr>v_existing := y\<rparr>) st)"
  "dry_step M st (upd_endpoint a (\<lambda>e. e\<lparr>e_existing := z\<rparr>) st)"
  by (simp_all add: dry_step_def reads_only_same pkg_frame_def upd_bucket_def upd_label_def
        upd_variable_def upd_endpoint_def rb_lists_def map_update_frame labels_reach_update
        label_reach.intros)

lemma dry_val_then:
  assumes "port_val c f st = (r, st1)" "\<not> mutating c" "dry_step M st1 st'"
  shows "dry_step M st st'"
  using dry_port_val [OF assms(1,2)] assms(3) by (rule dry_step_trans)

lemma dry_upd_then:
  "dry_step M (upd_bucket a (\<lambda>b. b\<lparr>b_existing := x\<rparr>) st) st' \<Longrightarrow> dry_step M st st'"
  "dry_step M (upd_label a (\<lambda>l. l\<lparr>l_existing := w\<rparr>) st) st' \<Longrightarrow> dry_step M st st'"
  "dry_step M (upd_label a (setMapping M la ex) st) st' \<Longrightarrow> dry_step M st st'"
  "dry_step M (upd_variable a (\<lambda>v. v\<lparr>v_existing := y\<rparr>) st) st' \<Longrightarrow> dry_step M st st'"
  "dry_step M (upd_endpoint a (\<lambda>e. e\<lparr>e_existing := z\<rparr>) st) st' \<Longrightarrow> dry_step M st st'"
  by (blast intro: dry_step_trans dry_upd)+

lemma dryRunBuckets_loop_dry:
  "dryRunBuckets_loop s orgID as m st = (m', st') \<Longrightarrow> dry_step M st st'"
proof (induction as arbitrary: m st)
  case Nil
  then show ?case by simp
next
  case (Cons a as)
  let ?b = "bucket_at st a"
  obtain r st1 where p: "port_val (FindBucketByName orgID (b_name ?b))
      (bucketSVC_FindBucketByName s orgID (b_name ?b)) st = (r, st1)"
    by (cases "port_val (FindBucketByName orgID (b_name ?b))
      (bucketSVC_FindBucketByName s orgID (b_name ?b)) st")
  show ?case
  proof (cases r)
    case (Inl e)
    with Cons.prems p have "\<exists>m1. dryRunBuckets_loop s orgID as m1 st1 = (m', st')"
      by (auto simp: Let_def)
    then have "dry_step M st1 st'" using Cons.IH by blast
    with p show ?thesis by (auto intro: dry_val_then)
  next
    case (Inr x)
    with Cons.prems p have "\<exists>m1. dryRunBuckets_loop s orgID as m1
        (upd_bucket a (\<lambda>b. b\<lparr>b_existing := Some x\<rparr>) st1) = (m', st')"
      by (auto simp: Let_def)
    then have "dry_step M (upd_bucket a (\<lambda>b. b\<lparr>b_existing := Some x\<rparr>) st1) st'"
      using Cons.IH by blast
    with p show ?thesis by (auto intro: dry_val_then dry_upd_then)
  qed
qed

lemma dryRunBuckets_dry:
  assumes "dryRunBuckets s orgID st = (r, st')"
  shows "dry_step M st st' \<and> (\<exists>ds. r = Inr ds \<and> sorted (map Name ds))"
proof -
  obtain m st1 where l: "dryRunBuckets_loop s orgID (ptrs (p_buckets (pkg st))) [] st = (m, st1)"
    by (cases "dryRunBuckets_loop s orgID (ptrs (p_buckets (pkg st))) [] st")
  with assms have "st' = st1" "r = Inr (sort_Slice (\<lambda>di dj. Name di < Name dj) (map snd m))"
    by (auto simp: dryRunBuckets_def)
  moreover have "sorted (map Name (sort_Slice (\<lambda>di dj. Name di < Name dj) (map snd m)))"
    by (rule sorted_sort_Slice) simp
  ultimately show ?thesis using dryRunBuckets_loop_dry [OF l] by simp
qed

lemma dryRunLabels_loop_dry:
  "dryRunLabels_loop s orgID as m st = (m', st') \<Longrightarrow> dry_step M st st'"
proof (induction as arbitrary: m st)
  case Nil
  then show ?case by simp
next
  case (Cons a as)
  let ?l = "label_at st a"
  obtain r st1 where p: "port_val (FindLabels (l_name ?l) orgID)
      (labelSVC_FindLabels s (l_name ?l) orgID) st = (r, st1)"
    by (cases "port_val (FindLabels (l_name ?l) orgID)
      (labelSVC_FindLabels s (l_name ?l) orgID) st")
  from Cons.prems p have
    "(\<exists>m1. dryRunLabels_loop s orgID as m1 st1 = (m', st'))
     \<or> (\<exists>m1 x. dryRunLabels_loop s orgID as m1
           (upd_label a (\<lambda>l. l\<lparr>l_existing := Some x\<rparr>) st1) = (m', st'))"
    by (auto simp: Let_def split: sum.splits list.splits)
  then have "dry_step M st1 st'"
    using Cons.IH by (blast intro: dry_upd_then)
  with p show ?case by (auto intro: dry_val_then)
qed

lemma dryRunLabels_dry:
  assumes "dryRunLabels s orgID st = (r, st')"
  shows "dry_step M st st' \<and> (\<exists>ds. r = Inr ds \<and> sorted (map Name ds))"
proof -
  obtain m st1 where l: "dryRunLabels_loop s orgID (ptrs (p_labels (pkg st))) [] st = (m, st1)"
    by (cases "dryRunLabels_loop s orgID (ptrs (p_labels (pkg st))) [] st")
  with assms have "st' = st1" "r = Inr (sort_Slice (\<lambda>di dj. Name di < Name dj) (map snd m))"
    by (auto simp: dryRunLabels_def)
  moreover have "sorted (map Name (sort_Slice (\<lambda>di dj. Name di < Name dj) (map snd m)))"
    by (rule sorted_sort_Slice) simp
  ultimately show ?thesis using dryRunLabels_loop_dry [OF l] by simp
qed

lemma dryRunVariables_loop_dry:
  "dryRunVariables_loop s orgID as m st = (m', st') \<Longrightarrow> dry_step M st st'"
proof (induction as arbitrary: m st)
  case Nil
  then show ?case by simp
next
  case (Cons a as)
  obtain r st1 where p: "port_val (FindVariables orgID) (varSVC_FindVariables s orgID) st
      = (r, st1)"
    by (cases "port_val (FindVariables orgID) (varSVC_FindVariables s orgID) st")
  from Cons.prems p have
    "(\<exists>m1. dryRunVariables_loop s orgID as m1 st1 = (m', st'))
     \<or> (\<exists>m1 x. dryRunVariables_loop s orgID as m1
           (upd_variable a (\<lambda>v. v\<lparr>v_existing := Some x\<rparr>) st1) = (m', st'))"
    by (auto simp: Let_def split: sum.splits option.splits)
  then have "dry_step M st1 st'"
    using Cons.IH by (blast intro: dry_upd_then)
  with p show ?case by (auto intro: dry_val_then)
qed

lemma dryRunVariables_dry:
  assumes "dryRunVariables s orgID st = (r, st')"
  shows "dry_step M st st' \<and> (\<exists>ds. r = Inr ds \<and> sorted (map Name ds))"
proof -
  obtain m st1 where
    l: "dryRunVariables_loop s orgID (ptrs (p_variables (pkg st))) [] st = (m, st1)"
    by (cases "dryRunVariables_loop s orgID (ptrs (p_variables (pkg st))) [] st")
  with assms have "st' = st1" "r = Inr (sort_Slice (\<lambda>di dj. Name di < Name dj) (map snd m))"
    by (auto simp: dryRunVariables_def)
  moreover have "sorted (map Name (sort_Slice (\<lambda>di dj. Name di < Name dj) (map snd m)))"
    by (rule sorted_sort_Slice) simp
  ultimately show ?thesis using dryRunVariables_loop_dry [OF l] by simp
qed

lemma dryRunNotificationEndpoints_loop_dry:
  "dryRunNotificationEndpoints_loop mEx as m st = (m', st') \<Longrightarrow> dry_step M st st'"
proof (induction as arbitrary: m st)
  case Nil
  then show ?case by simp
next
  case (Cons a as)
  from Cons.prems have
    "(\<exists>m1. dryRunNotificationEndpoints_loop mEx as m1 st = (m', st'))
     \<or> (\<exists>m1 x. dryRunNotificationEndpoints_loop mEx as m1
           (upd_endpoint a (\<lambda>e. e\<lparr>e_existing := Some x\<rparr>) st) = (m', st'))"
    by (auto simp: Let_def split: option.splits)
  then show ?case
    using Cons.IH by (blast intro: dry_upd_then)
qed

lemma dryRunNotificationEndpoints_dry:
  assumes "dryRunNotificationEndpoints s orgID st = (r, st')"
  shows "dry_step M st st' \<and> (\<forall>ds. r = Inr ds \<longrightarrow> sorted (map Name ds))"
proof -
  obtain r1 st1 where p: "port_val (FindNotificationEndpoints orgID)
      (endpointSVC_FindNotificationEndpoints s orgID) st = (r1, st1)"
    by (cases "port_val (FindNotificationEndpoints orgID)
      (endpointSVC_FindNotificationEndpoints s orgID) st")
  show ?thesis
  proof (cases r1)
    case (Inl e)
    with assms p have "st' = st1" "r = Inl e" by (auto simp: dryRunNotificationEndpoints_def)
    with p show ?thesis by (auto intro: dry_port_val)
  next
    case (Inr es)
    let ?mEx = "foldl (\<lambda>m e. map_put (ep_Name e) e m) [] es"
    obtain m st2 where l: "dryRunNotificationEndpoints_loop ?mEx (ptrs (p_endpoints (pkg st1)))
        [] st1 = (m, st2)"
      by (cases "dryRunNotificationEndpoints_loop ?mEx (ptrs (p_endpoints (pkg st1))) [] st1")
    with assms p Inr have "st' = st2"
      "r = Inr (sort_Slice (\<lambda>di dj. Name di < Name dj) (map snd m))"
      by (auto simp: dryRunNotificationEndpoints_def Let_def)
    moreover have "sorted (map Name (sort_Slice (\<lambda>di dj. Name di < Name dj) (map snd m)))"
      by (rule sorted_sort_Slice) simp
    moreover have "dry_step M st st2"
      using p dryRunNotificationEndpoints_loop_dry [OF l] by (auto intro: dry_val_then)
    ultimately show ?thesis by simp
  qed
qed

lemma dryRunSecrets_dry:
  assumes "dryRunSecrets M s orgID st = (r, st')"
  shows "dry_step M st st'"
proof (cases "length (secrets M (pkg st)) = 0")
  case True
  with assms show ?thesis by (simp add: dryRunSecrets_def Let_def)
next
  case False
  obtain r1 st1 where p: "port_val (GetSecretKeys orgID) (secretSVC_GetSecretKeys s orgID) st
      = (r1, st1)"
    by (cases "port_val (GetSecretKeys orgID) (secretSVC_GetSecretKeys s orgID) st")
  with assms False have "st' = st1"
    by (auto simp: dryRunSecrets_def Let_def split: sum.splits if_splits)
  with p show ?thesis by (auto intro: dry_port_val)
qed

text \<open>the label mappings\<close>

lemma mappingFn_dry: "dry_step M st (snd (mappingFn M la labelID labelName isNew (diffs, st)))"
  by (auto simp: mappingFn_def dry_upd split: option.splits)

lemma add_new_mappings_dry:
  "dry_step M (snd ds) (snd (add_new_mappings M la ls ds))"
proof (induction ls arbitrary: ds)
  case Nil
  then show ?case by simp
next
  case (Cons l ls)
  let ?ds1 = "mappingFn M la (label_ID M (label_at (snd ds) l)) (l_name (label_at (snd ds) l))
                True ds"
  have "dry_step M (snd ds) (snd ?ds1)"
    using mappingFn_dry [of M "snd ds" la _ _ True "fst ds"] by simp
  moreover have "dry_step M (snd ?ds1) (snd (add_new_mappings M la ls ?ds1))"
    by (rule Cons.IH)
  ultimately show ?case by (auto intro: dry_step_trans)
qed

lemma add_existing_mappings_dry:
  "dry_step M (snd ds) (snd (snd (add_existing_mappings M la ls pl ds)))"
proof (induction ls arbitrary: pl ds)
  case Nil
  then show ?case by simp
next
  case (Cons l ls)
  let ?ds1 = "mappingFn M la (lbl_ID l) (lbl_Name l) False ds"
  have "dry_step M (snd ds) (snd ?ds1)"
    using mappingFn_dry [of M "snd ds" la _ _ False "fst ds"] by simp
  moreover have "dry_step M (snd ?ds1)
      (snd (snd (add_existing_mappings M la ls (map_delete (lbl_Name l) pl) ?ds1)))"
    by (rule Cons.IH)
  ultimately show ?case by (auto intro: dry_step_trans)
qed

lemma dryRunResourceLabelMapping_dry:
  "dry_step M (snd ds) (snd (snd (dryRunResourceLabelMapping M s la ds)))"
proof (cases "la_Exists la")
  case False
  then show ?thesis by (simp add: dryRunResourceLabelMapping_def add_new_mappings_dry)
next
  case True
  obtain r st1 where p: "port_val (FindResourceLabels (la_ID la) (la_ResourceType la))
      (labelSVC_FindResourceLabels s (la_ID la) (la_ResourceType la)) (snd ds) = (r, st1)"
    by (cases "port_val (FindResourceLabels (la_ID la) (la_ResourceType la))
      (labelSVC_FindResourceLabels s (la_ID la) (la_ResourceType la)) (snd ds)")
  then have d1: "dry_step M (snd ds) st1" by (auto intro: dry_port_val)
  show ?thesis
  proof (cases r)
    case (Inl e)
    with True p d1 show ?thesis by (simp add: dryRunResourceLabelMapping_def)
  next
    case (Inr ls)
    let ?pl = "labelSlcToMap st1 (la_Labels la)"
    obtain pl' ds' where a: "add_existing_mappings M la ls ?pl (fst ds, st1) = (pl', ds')"
      by (cases "add_existing_mappings M la ls ?pl (fst ds, st1)")
    have "dry_step M st1 (snd ds')"
      using add_existing_mappings_dry [of M "(fst ds, st1)" la ls ?pl] a by simp
    moreover have "dry_step M (snd ds') (snd (add_new_mappings M la (map snd pl') ds'))"
      by (rule add_new_mappings_dry)
    ultimately have "dry_step M (snd ds) (snd (add_new_mappings M la (map snd pl') ds'))"
      using d1 by (blast intro: dry_step_trans)
    with True p Inr a show ?thesis by (simp add: dryRunResourceLabelMapping_def Let_def)
  qed
qed

lemma dryRunLabelMappings_loop_dry:
  "dry_step M (snd ds) (snd (snd (dryRunLabelMappings_loop M s las ds)))"
proof (induction las arbitrary: ds)
  case Nil
  then show ?case by simp
next
  case (Cons la las)
  obtain e ds1 where r: "dryRunResourceLabelMapping M s la ds = (e, ds1)"
    by (cases "dryRunResourceLabelMapping M s la ds")
  have d1: "dry_step M (snd ds) (snd ds1)"
    using dryRunResourceLabelMapping_dry [of M ds s la] r by simp
  show ?case
  proof (cases e)
    case (Some x)
    with r d1 show ?thesis by simp
  next
    case None
    with r d1 Cons.IH [of ds1] show ?thesis by (auto intro: dry_step_trans)
  qed
qed

lemma mapping_less_key:
  "mapping_less n m =
     ((dlm_ResType n, dlm_ResName n, dlm_LabelName n)
        < (dlm_ResType m, dlm_ResName m, dlm_LabelName m))"
  by (auto simp: mapping_less_def less_prod_def)

lemma dryRunLabelMappings_dry:
  assumes "dryRunLabelMappings M s st = (r, st')"
  shows "dry_step M st st'
       \<and> (\<forall>ds. r = Inr ds \<longrightarrow>
             sorted (map (\<lambda>d. (dlm_ResType d, dlm_ResName d, dlm_LabelName d)) ds))"
proof -
  let ?las = "concat [mapperBuckets M (p_buckets (pkg st)),
                mapperDashboards M (p_dashboards (pkg st)),
                mapperNotificationEndpoints M (p_endpoints (pkg st)),
                mapperTelegrafs M (p_telegrafs (pkg st)),
                mapperVariables M (p_variables (pkg st))]"
  obtain e diffs st1 where l: "dryRunLabelMappings_loop M s ?las ([], st) = (e, diffs, st1)"
    by (cases "dryRunLabelMappings_loop M s ?las ([], st)") auto
  have d: "dry_step M st st1"
    using dryRunLabelMappings_loop_dry [of M "([], st)" s ?las] l by simp
  have srt: "sorted (map (\<lambda>d. (dlm_ResType d, dlm_ResName d, dlm_LabelName d))
               (sort_Slice mapping_less diffs))"
    by (rule sorted_sort_Slice) (simp add: mapping_less_key)
  from assms l have "st' = st1"
    "r = (case e of Some err \<Rightarrow> Inl err | None \<Rightarrow> Inr (sort_Slice mapping_less diffs))"
    by (auto simp: dryRunLabelMappings_def Let_def split: option.splits)
  with d srt show ?thesis by (auto split: option.splits)
qed

lemma diff_sorted_empty [simp]: "diff_sorted empty_Diff"
  by (simp add: diff_sorted_def empty_Diff_def)

lemma dry_step_verify:
  "dry_step M st st1 \<Longrightarrow> reads_only st (st1\<lparr>pkg := (pkg st1)\<lparr>isVerified := True\<rparr>\<rparr>)
     \<and> rb_lists (st1\<lparr>pkg := (pkg st1)\<lparr>isVerified := True\<rparr>\<rparr>) = rb_lists st
     \<and> pkg_frame ((pkg st1)\<lparr>isVerified := True\<rparr>) = pkg_frame (pkg st)
     \<and> list_all2 (label_reach M) (p_labels (pkg st)) (p_labels (pkg st1))"
  by (simp add: dry_step_def reads_only_def since_def rb_lists_def pkg_frame_def)

lemma DryRun_sections_dry:
  assumes "DryRun_sections M s orgID parseErr st = ((diff, err), st')"
  shows "reads_only st st' \<and> rb_lists st' = rb_lists st
       \<and> pkg_frame (pkg st') = pkg_frame (pkg st)
       \<and> list_all2 (label_reach M) (p_labels (pkg st)) (p_labels (pkg st'))
       \<and> diff_sorted diff
       \<and> ((diff = empty_Diff \<and> err \<noteq> None \<and> isVerified (pkg st') = isVerified (pkg st))
          \<or> (err = parseErr \<and> isVerified (pkg st')
              \<and> Dashboards diff = map newDiffDashboard (p_dashboards (pkg st'))
              \<and> Telegrafs diff = map newDiffTelegraf (p_telegrafs (pkg st'))))"
proof -
  have fail: ?thesis if "dry_step M st st'" "diff = empty_Diff" "err \<noteq> None"
    using that by (simp add: dry_step_def)
  obtain e1 st1 where r1: "dryRunSecrets M s orgID st = (e1, st1)"
    by (cases "dryRunSecrets M s orgID st")
  have d1: "dry_step M st st1" using r1 by (rule dryRunSecrets_dry)
  show ?thesis
  proof (cases e1)
    case (Some x)
    with assms r1 d1 show ?thesis by (intro fail) (auto simp: DryRun_sections_def)
  next
    case n1: None
    obtain q2 st2 where r2: "dryRunBuckets s orgID st1 = (q2, st2)"
      by (cases "dryRunBuckets s orgID st1")
    from dryRunBuckets_dry [OF r2] obtain bs where
      d2: "dry_step M st1 st2" and q2: "q2 = Inr bs" "sorted (map Name bs)" by auto
    obtain q3 st3 where r3: "dryRunLabels s orgID st2 = (q3, st3)"
      by (cases "dryRunLabels s orgID st2")
    from dryRunLabels_dry [OF r3] obtain ls where
      d3: "dry_step M st2 st3" and q3: "q3 = Inr ls" "sorted (map Name ls)" by auto
    obtain q4 st4 where r4: "dryRunNotificationEndpoints s orgID st3 = (q4, st4)"
      by (cases "dryRunNotificationEndpoints s orgID st3")
    from dryRunNotificationEndpoints_dry [OF r4] have
      d4: "dry_step M st3 st4" and s4: "\<forall>ds. q4 = Inr ds \<longrightarrow> sorted (map Name ds)" by auto
    have d04: "dry_step M st st4" using d1 d2 d3 d4 by (blast intro: dry_step_trans)
    show ?thesis
    proof (cases q4)
      case (Inl x)
      with assms r1 n1 r2 q2 r3 q3 r4 d04 show ?thesis
        by (intro fail) (auto simp: DryRun_sections_def)
    next
      case (Inr es)
      obtain q5 st5 where r5: "dryRunVariables s orgID st4 = (q5, st5)"
        by (cases "dryRunVariables s orgID st4")
      from dryRunVariables_dry [OF r5] obtain vs where
        d5: "dry_step M st4 st5" and q5: "q5 = Inr vs" "sorted (map Name vs)" by auto
      obtain q6 st6 where r6: "dryRunLabelMappings M s st5 = (q6, st6)"
        by (cases "dryRunLabelMappings M s st5")
      from dryRunLabelMappings_dry [OF r6] have
        d6: "dry_step M st5 st6"
        and s6: "\<forall>ds. q6 = Inr ds \<longrightarrow>
                  sorted (map (\<lambda>d. (dlm_ResType d, dlm_ResName d, dlm_LabelName d)) ds)"
        by auto
      have d06: "dry_step M st st6" using d04 d5 d6 by (blast intro: dry_step_trans)
      show ?thesis
      proof (cases q6)
        case (Inl x)
        with assms r1 n1 r2 q2 r3 q3 r4 Inr r5 q5 r6 d06 show ?thesis
          by (intro fail) (auto simp: DryRun_sections_def)
      next
        case i6: (Inr ms)
        let ?st7 = "st6\<lparr>pkg := (pkg st6)\<lparr>isVerified := True\<rparr>\<rparr>"
        from assms r1 n1 r2 q2 r3 q3 r4 Inr r5 q5 r6 i6 have res:
          "st' = ?st7" "err = parseErr"
          "diff = \<lparr>Buckets = bs, Dashboards = dryRunDashboards (pkg ?st7), Labels = ls,
                   LabelMappings = ms, NotificationEndpoints = es,
                   Telegrafs = dryRunTelegraf (pkg ?st7), Variables = vs\<rparr>"
          by (auto simp: DryRun_sections_def Let_def)
        have "diff_sorted diff"
          using res(3) q2 q3 q5 s4 s6 Inr i6 by (simp add: diff_sorted_def)
        with res dry_step_verify [OF d06] show ?thesis
          by (simp add: dryRunDashboards_def dryRunTelegraf_def)
      qed
    qed
  qed
qed

lemma DryRun_dry:
  assumes "DryRun M s orgID userID st = ((diff, err), st')"
  shows "reads_only st st' \<and> rb_lists st' = rb_lists st
       \<and> pkg_frame (pkg st') = pkg_frame (validated M (pkg st))
       \<and> list_all2 (label_reach M) (p_labels (validated M (pkg st))) (p_labels (pkg st'))
       \<and> diff_sorted diff
       \<and> ((diff = empty_Diff \<and> err \<noteq> None
            \<and> isVerified (pkg st') = isVerified (validated M (pkg st)))
          \<or> (isVerified (pkg st')
              \<and> Dashboards diff = map newDiffDashboard (p_dashboards (pkg st'))
              \<and> Telegrafs diff = map newDiffTelegraf (p_telegrafs (pkg st'))))"
proof (cases "isParsed (pkg st)")
  case True
  with assms have "DryRun_sections M s orgID None st = ((diff, err), st')"
    by (simp add: DryRun_def)
  from DryRun_sections_dry [OF this] True show ?thesis
    by (auto simp: validated_def)
next
  case False
  obtain verr p' where v: "Validate M (pkg st) = (verr, p')" by (cases "Validate M (pkg st)")
  let ?st0 = "st\<lparr>pkg := p'\<rparr>"
  have val: "validated M (pkg st) = p'" using False v by (simp add: validated_def)
  have same: "reads_only st st' = reads_only ?st0 st'" "rb_lists ?st0 = rb_lists st"
    "pkg ?st0 = p'"
    by (simp_all add: reads_only_def since_def rb_lists_def)
  show ?thesis
  proof (cases "\<exists>e. verr = Some e \<and> \<not> IsParseErr M e")
    case True
    with assms False v have "st' = ?st0" "diff = empty_Diff" "err \<noteq> None"
      by (auto simp: DryRun_def)
    then show ?thesis using val
      by (simp add: reads_only_def since_def rb_lists_def)
  next
    case np: False
    with assms False v have "DryRun_sections M s orgID verr ?st0 = ((diff, err), st')"
      by (auto simp: DryRun_def split: option.splits)
    from DryRun_sections_dry [OF this] show ?thesis
      unfolding same val by auto
  qed
qed



subsection \<open>Apply\<close>

lemma reads_free:
  assumes "list_all is_read evs"
  shows "created evs = []" "recorded evs = []" "rolled_back evs = []" "group_ends evs = []"
    "logged evs = []" "handler_errors evs = []" "first_failure evs = None"
    "after_failed_group evs = []"
proof -
  from assms have sk: "skeleton evs = []" by (simp add: reads_ports skeleton_ports)
  from proj_skeleton [of evs]
  show p: "created evs = []" "recorded evs = []" "rolled_back evs = []" "group_ends evs = []"
    "logged evs = []" "handler_errors evs = []"
    by (simp_all add: sk)
  from p(4) show "first_failure evs = None" by (rule no_group_end)
  from assms show "after_failed_group evs = []"
    by (induction evs rule: first_failure.induct) simp_all
qed

lemma apply_run_after_reads:
  assumes "list_all is_read pre" "apply_run err evs"
  shows "apply_run err (pre @ evs)"
  using assms(2) reads_free [OF assms(1)]
  by (simp add: apply_run_def first_failure_append after_failed_group_append)

lemma since_trans:
  assumes "trace st1 = trace st @ xs" "trace st2 = trace st1 @ ys"
  shows "since st st2 = xs @ ys" "take (length (trace st)) (trace st2) = trace st"
  using assms by (simp_all add: since_def)

lemma Apply_run:
  assumes "Apply M s runs orgID userID st = (err, st')"
  shows "take (length (trace st)) (trace st') = trace st
       \<and> ((err \<noteq> None \<and> list_all is_read (since st st')) \<or> apply_run err (since st st'))"
proof -
  obtain verr st1 where
    v: "(if \<not> isParsed (pkg st)
         then (case Validate M (pkg st) of (err, p') \<Rightarrow> (err, st\<lparr>pkg := p'\<rparr>))
         else (None, st)) = (verr, st1)"
    by (cases "(if \<not> isParsed (pkg st)
         then (case Validate M (pkg st) of (err, p') \<Rightarrow> (err, st\<lparr>pkg := p'\<rparr>))
         else (None, st))") auto
  then have t1: "trace st1 = trace st" by (auto split: if_splits prod.splits)
  show ?thesis
  proof (cases verr)
    case (Some e)
    with assms v have "err = Some e" "st' = st1" by (simp_all add: Apply_def)
    with t1 show ?thesis by (simp add: since_def)
  next
    case None
    obtain derr st2 where
      d: "(if \<not> isVerified (pkg st1)
           then (case DryRun M s orgID userID st1 of ((diff, err), st2) \<Rightarrow> (err, st2))
           else (None, st1)) = (derr, st2)"
      by (cases "(if \<not> isVerified (pkg st1)
           then (case DryRun M s orgID userID st1 of ((diff, err), st2) \<Rightarrow> (err, st2))
           else (None, st1))") auto
    have "reads_only st1 st2"
    proof (cases "isVerified (pkg st1)")
      case True
      with d show ?thesis by simp
    next
      case False
      with d obtain diff where "DryRun M s orgID userID st1 = ((diff, derr), st2)"
        by (auto split: prod.splits)
      from DryRun_dry [OF this] show ?thesis by simp
    qed
    from reads_onlyD [OF this] t1
    have t2: "trace st2 = trace st @ since st1 st2" and rd: "list_all is_read (since st1 st2)"
      by simp_all
    have eq: "since st st2 = since st1 st2" using t1 by (simp add: since_def)
    have tk: "take (length (trace st)) (trace st2) = trace st"
      using t2 by (metis append_eq_conv_conj)
    show ?thesis
    proof (cases derr)
      case (Some e)
      with assms v d None have "err = Some e" "st' = st2" by (simp_all add: Apply_def)
      with tk rd eq show ?thesis by simp
    next
      case dNone: None
      with assms v d None have "Apply_groups M s runs orgID userID st2 = (err, st')"
        by (simp add: Apply_def)
      from Apply_groups_run [OF this] obtain evs where
        t3: "trace st' = trace st2 @ evs" and run: "apply_run err evs"
        by auto
      from since_trans [OF t2 t3] apply_run_after_reads [OF rd run]
      show ?thesis by simp
    qed
  qed
qed

subsection \<open>C9: the order of the resources of a new package\<close>

lemma priority_simps:
  "priority KindLabel = 1" "priority KindBucket = 2" "priority KindVariable = 3"
  "priority KindDashboard = 4" "priority KindNotificationEndpoint = 0"
  "priority KindNotificationEndpointHTTP = 0" "priority KindNotificationEndpointPagerDuty = 0"
  "priority KindNotificationEndpointSlack = 0" "priority KindTelegraf = 0"
  by (simp_all add: priority_def kindPriorities_def)

text \<open>
  Claim C9 as stated fails: the table of \<^verbatim>\<open>CreatePkg\<close> has no entry for the notification
  endpoint kinds and for Telegraf, the lookup gives 0, and such a resource is sorted in
  front of a label, not behind the dashboards. A package of one label and one telegraf
  configuration comes out with the telegraf configuration first.
\<close>

theorem CreatePkg_sort_telegraf_first:
  "CreatePkg_sort [\<lparr>r_kind = KindLabel, r_name = ''l''\<rparr>,
                   \<lparr>r_kind = KindTelegraf, r_name = ''t''\<rparr>]
     = [\<lparr>r_kind = KindTelegraf, r_name = ''t''\<rparr>, \<lparr>r_kind = KindLabel, r_name = ''l''\<rparr>]"
  by (simp add: CreatePkg_sort_def sort_Slice_def resource_less_def is_kind_def priority_simps)

text \<open>
  Claim C9, amended: \<^verbatim>\<open>CreatePkg\<close> sorts the resources by the priority of the table,
  Label 1, Bucket 2, Variable 3, Dashboard 4, and 0 for every kind the table does not
  list (the notification endpoint kinds and Telegraf, which so come first), resources of
  one kind by name ascending. Two kinds of equal priority compare as equal, so the order
  is promised for a package in which no two kinds share a priority, that is with at most
  one kind outside the table. The result has the resources of the input.
\<close>

theorem CreatePkg_sort_order:
  assumes "inj_on priority (r_kind ` set rs)"
  shows "sorted_wrt (\<lambda>a b. priority (r_kind a) < priority (r_kind b)
                        \<or> (r_kind a = r_kind b \<and> r_name a \<le> r_name b)) (CreatePkg_sort rs)
       \<and> mset (CreatePkg_sort rs) = mset rs
       \<and> priority KindLabel = 1 \<and> priority KindBucket = 2 \<and> priority KindVariable = 3
       \<and> priority KindDashboard = 4 \<and> priority KindNotificationEndpoint = 0
       \<and> priority KindTelegraf = 0"
proof -
  let ?key = "\<lambda>r. (priority (r_kind r), r_name r)"
  let ?out = "CreatePkg_sort rs"
  have agree: "\<forall>x \<in> set rs. \<forall>y \<in> set rs. resource_less x y = (?key x < ?key y)"
  proof (intro ballI)
    fix x y assume "x \<in> set rs" "y \<in> set rs"
    then have "priority (r_kind x) = priority (r_kind y) \<Longrightarrow> r_kind x = r_kind y"
      using assms by (auto dest: inj_onD)
    then show "resource_less x y = (?key x < ?key y)"
      by (cases "priority (r_kind x) = priority (r_kind y)")
         (auto simp: resource_less_def is_kind_def less_prod_def)
  qed
  have "sorted (map ?key ?out)"
    unfolding CreatePkg_sort_def by (rule sorted_sort_Slice) (rule agree)
  then have by_key: "sorted_wrt (\<lambda>a b. ?key a \<le> ?key b) ?out"
    by (simp add: sorted_map)
  have step: "priority (r_kind a) < priority (r_kind b)
                \<or> (r_kind a = r_kind b \<and> r_name a \<le> r_name b)"
    if "a \<in> set ?out" "b \<in> set ?out" and le: "?key a \<le> ?key b" for a b
  proof -
    from that have "a \<in> set rs" "b \<in> set rs"
      by (simp_all add: CreatePkg_sort_def set_sort_Slice)
    then have "priority (r_kind a) = priority (r_kind b) \<Longrightarrow> r_kind a = r_kind b"
      using assms by (auto dest: inj_onD)
    then show ?thesis
      using le by (cases "priority (r_kind a) = priority (r_kind b)")
                  (auto simp: less_eq_prod_def)
  qed
  have "sorted_wrt (\<lambda>a b. priority (r_kind a) < priority (r_kind b)
                      \<or> (r_kind a = r_kind b \<and> r_name a \<le> r_name b)) ?out"
    using step by_key by (rule sorted_wrt_mono_rel)
  then show ?thesis
    by (simp add: CreatePkg_sort_def mset_sort_Slice priority_simps)
qed

text \<open>
  Witness for C9: a dashboard, a telegraf configuration, two labels and a bucket; the
  telegraf configuration comes first, then the labels by name, the bucket, the dashboard.
\<close>

theorem CreatePkg_sort_order_witness:
  "inj_on priority (r_kind ` set
      [\<lparr>r_kind = KindDashboard, r_name = ''d''\<rparr>, \<lparr>r_kind = KindTelegraf, r_name = ''t''\<rparr>,
       \<lparr>r_kind = KindLabel, r_name = ''b''\<rparr>, \<lparr>r_kind = KindBucket, r_name = ''x''\<rparr>,
       \<lparr>r_kind = KindLabel, r_name = ''a''\<rparr>])
   \<and> sorted_wrt (\<lambda>a b. priority (r_kind a) < priority (r_kind b)
                        \<or> (r_kind a = r_kind b \<and> r_name a \<le> r_name b))
       (CreatePkg_sort
         [\<lparr>r_kind = KindDashboard, r_name = ''d''\<rparr>, \<lparr>r_kind = KindTelegraf, r_name = ''t''\<rparr>,
          \<lparr>r_kind = KindLabel, r_name = ''b''\<rparr>, \<lparr>r_kind = KindBucket, r_name = ''x''\<rparr>,
          \<lparr>r_kind = KindLabel, r_name = ''a''\<rparr>])
   \<and> CreatePkg_sort
         [\<lparr>r_kind = KindDashboard, r_name = ''d''\<rparr>, \<lparr>r_kind = KindTelegraf, r_name = ''t''\<rparr>,
          \<lparr>r_kind = KindLabel, r_name = ''b''\<rparr>, \<lparr>r_kind = KindBucket, r_name = ''x''\<rparr>,
          \<lparr>r_kind = KindLabel, r_name = ''a''\<rparr>]
       = [\<lparr>r_kind = KindTelegraf, r_name = ''t''\<rparr>, \<lparr>r_kind = KindLabel, r_name = ''a''\<rparr>,
          \<lparr>r_kind = KindLabel, r_name = ''b''\<rparr>, \<lparr>r_kind = KindBucket, r_name = ''x''\<rparr>,
          \<lparr>r_kind = KindDashboard, r_name = ''d''\<rparr>]"
proof -
  let ?rs = "[\<lparr>r_kind = KindDashboard, r_name = ''d''\<rparr>, \<lparr>r_kind = KindTelegraf, r_name = ''t''\<rparr>,
       \<lparr>r_kind = KindLabel, r_name = ''b''\<rparr>, \<lparr>r_kind = KindBucket, r_name = ''x''\<rparr>,
       \<lparr>r_kind = KindLabel, r_name = ''a''\<rparr>]"
  have h: "inj_on priority (r_kind ` set ?rs)"
    by (auto simp: inj_on_def priority_simps)
  have v: "CreatePkg_sort ?rs
       = [\<lparr>r_kind = KindTelegraf, r_name = ''t''\<rparr>, \<lparr>r_kind = KindLabel, r_name = ''a''\<rparr>,
          \<lparr>r_kind = KindLabel, r_name = ''b''\<rparr>, \<lparr>r_kind = KindBucket, r_name = ''x''\<rparr>,
          \<lparr>r_kind = KindDashboard, r_name = ''d''\<rparr>]"
    by (simp add: CreatePkg_sort_def sort_Slice_def resource_less_def is_kind_def
          priority_simps)
  from CreatePkg_sort_order [OF h] have
    "sorted_wrt (\<lambda>a b. priority (r_kind a) < priority (r_kind b)
                        \<or> (r_kind a = r_kind b \<and> r_name a \<le> r_name b)) (CreatePkg_sort ?rs)"
    by (rule conjunct1)
  with h v show ?thesis by blast
qed

subsection \<open>C1: what the rollback of an updated resource sends\<close>

text \<open>
  Claim C1 asks that the rollback of an updated bucket sends the description and the
  retention period of the snapshot. \<^verbatim>\<open>rollbackBuckets\<close> reads \<^verbatim>\<open>b.Description\<close> and
  \<^verbatim>\<open>b.RetentionRules.RP()\<close>, the values of the package, as \<^verbatim>\<open>applyBucket\<close> did: for a bucket
  that the platform had with description old and retention 60 and that the package
  declares with description new and retention 3600, the rollback sends new and 3600.
\<close>

theorem rollbackBuckets_sends_desired_values:
  "trace (snd (rollbackBuckets M0 S0
       [\<lparr>b_id = 7, b_OrgID = 1, b_name = ''b1'', b_Description = ''new'',
         b_RetentionRules = [3600],
         b_existing = Some \<lparr>bkt_ID = 7, bkt_OrgID = 1, bkt_Name = ''b1'',
                             bkt_Description = ''old'', bkt_RetentionPeriod = 60\<rparr>,
         b_labels = []\<rparr>] (state0 platform0 pkg0)))
   = [Port (UpdateBucket 7 \<lparr>bu_Description = Some ''new'', bu_RetentionPeriod = Some 3600\<rparr>)
        None]"
  by (simp add: rollbackBuckets_def M0_def S0_def state0_def platform0_def bucket_ID0_def
        port_val_def answer_val_def err_of_def)

subsection \<open>C10: the update of a notification endpoint\<close>

text \<open>
  Claim C10: for a notification endpoint with an existing match, \<^verbatim>\<open>applyNotificationEndpoint\<close>
  makes one call, \<^verbatim>\<open>UpdateNotificationEndpoint\<close>, whose payload is the snapshot \<^verbatim>\<open>e.existing\<close>;
  it returns what the port answers; and the endpoint the package declares
  (\<^verbatim>\<open>e.summarize()\<close>) has no part in it: whatever \<open>summarize\<close> is, the run is the same.
\<close>

theorem applyNotificationEndpoint_update_payload:
  assumes "e_existing e = Some existing"
  shows "trace (snd (applyNotificationEndpoint M s e userID st)) =
           trace st @ [Port (UpdateNotificationEndpoint (endpoint_ID M e) existing userID)
             (err_of (fst (endpointSVC_UpdateNotificationEndpoint s (endpoint_ID M e) existing
                userID (backend st))))]
       \<and> fst (applyNotificationEndpoint M s e userID st) =
           fst (endpointSVC_UpdateNotificationEndpoint s (endpoint_ID M e) existing userID
                 (backend st))
       \<and> applyNotificationEndpoint (M\<lparr>summarize := f\<rparr>) s e userID st =
           applyNotificationEndpoint M s e userID st"
  using assms by (simp add: applyNotificationEndpoint_def port_val_def split: prod.splits)

text \<open>
  Witness for C10: the platform has the endpoint with the fields url=old, the package
  declares url=new; the one call carries the snapshot with url=old.
\<close>

theorem applyNotificationEndpoint_update_payload_witness:
  "e_existing
     \<lparr>e_id = 0, e_OrgID = 1, e_name = ''e1'', e_fields = ''url=new'',
      e_existing = Some \<lparr>ep_ID = 9, ep_OrgID = 1, ep_Name = ''e1'', ep_SecretFields = [],
                          ep_fields = ''url=old''\<rparr>,
      e_routingKey = \<lparr>Secret = []\<rparr>, e_token = \<lparr>Secret = []\<rparr>,
      e_username = \<lparr>Secret = []\<rparr>, e_password = \<lparr>Secret = []\<rparr>, e_labels = []\<rparr>
     = Some \<lparr>ep_ID = 9, ep_OrgID = 1, ep_Name = ''e1'', ep_SecretFields = [],
             ep_fields = ''url=old''\<rparr>
   \<and> trace (snd (applyNotificationEndpoint M0 S0
       \<lparr>e_id = 0, e_OrgID = 1, e_name = ''e1'', e_fields = ''url=new'',
        e_existing = Some \<lparr>ep_ID = 9, ep_OrgID = 1, ep_Name = ''e1'', ep_SecretFields = [],
                            ep_fields = ''url=old''\<rparr>,
        e_routingKey = \<lparr>Secret = []\<rparr>, e_token = \<lparr>Secret = []\<rparr>,
        e_username = \<lparr>Secret = []\<rparr>, e_password = \<lparr>Secret = []\<rparr>, e_labels = []\<rparr>
       3 (state0 platform0 pkg0)))
     = [Port (UpdateNotificationEndpoint 9
          \<lparr>ep_ID = 9, ep_OrgID = 1, ep_Name = ''e1'', ep_SecretFields = [],
           ep_fields = ''url=old''\<rparr> 3) None]"
  using applyNotificationEndpoint_update_payload
    [of "\<lparr>e_id = 0, e_OrgID = 1, e_name = ''e1'', e_fields = ''url=new'',
        e_existing = Some \<lparr>ep_ID = 9, ep_OrgID = 1, ep_Name = ''e1'', ep_SecretFields = [],
                            ep_fields = ''url=old''\<rparr>,
        e_routingKey = \<lparr>Secret = []\<rparr>, e_token = \<lparr>Secret = []\<rparr>,
        e_username = \<lparr>Secret = []\<rparr>, e_password = \<lparr>Secret = []\<rparr>, e_labels = []\<rparr>"
        "\<lparr>ep_ID = 9, ep_OrgID = 1, ep_Name = ''e1'', ep_SecretFields = [],
          ep_fields = ''url=old''\<rparr>" M0 S0 3 "state0 platform0 pkg0"]
  by (simp add: M0_def S0_def state0_def platform0_def endpoint_ID0_def answer_val_def
        err_of_def)

subsection \<open>C8: the order of the sections of a diff\<close>




subsection \<open>C6: what a dry run changes\<close>




subsection \<open>C5: what enters the rollback lists\<close>



subsection \<open>C2: an error of Apply and the rollback\<close>

text \<open>
  Claim C2: when \<^verbatim>\<open>Apply\<close> returns an error, every rollbacker the coordinator has on
  record was called exactly once, and an error of a rollbacker is logged and nothing
  else. On the events \<^verbatim>\<open>Apply\<close> added to the trace: the rollbackers called are those
  recorded, each recorded once; what was logged is one line for each rollbacker that
  returned an error; either no group ran (validation or the dry run failed, nothing is on
  record) or the error returned is the error of the first group that failed, and every
  rollbacker was called and every line logged after that group had ended with this error.
\<close>

theorem Apply_error_rolls_back:
  assumes "Apply M s runs orgID userID st = (Some e, st')"
  shows "mset (rolled_back (since st st')) = mset (recorded (since st st'))
       \<and> distinct (recorded (since st st'))
       \<and> logged (since st st') = handler_errors (since st st')
       \<and> (group_ends (since st st') = [] \<or> first_failure (since st st') = Some e)
       \<and> rolled_back (after_failed_group (since st st')) = rolled_back (since st st')
       \<and> logged (after_failed_group (since st st')) = logged (since st st')"
proof -
  from Apply_run [OF assms]
  consider "list_all is_read (since st st')" | "apply_run (Some e) (since st st')"
    by auto
  then show ?thesis
  proof cases
    case 1
    from reads_free [OF this] show ?thesis by simp
  next
    case 2
    then show ?thesis by (simp add: apply_run_def)
  qed
qed

text \<open>
  Witness for C2: two labels and two buckets, the creation of B2 fails and so does the
  deletion of a label. \<^verbatim>\<open>Apply\<close> returns the error of the group of the buckets, the six
  rollbackers on record are called once each, and the error of the rollbacker of the
  labels is logged.
\<close>

theorem Apply_error_rolls_back_witness:
  "fst (Apply M0 S0 (\<lambda>k. run0) 1 2
         (state0 (platform0\<lparr>pf_fails := fails_B2_DeleteLabel\<rparr>) pkg_two_two))
     = first_failure (since (state0 (platform0\<lparr>pf_fails := fails_B2_DeleteLabel\<rparr>) pkg_two_two)
         (snd (Apply M0 S0 (\<lambda>k. run0) 1 2
            (state0 (platform0\<lparr>pf_fails := fails_B2_DeleteLabel\<rparr>) pkg_two_two))))
   \<and> fst (Apply M0 S0 (\<lambda>k. run0) 1 2
         (state0 (platform0\<lparr>pf_fails := fails_B2_DeleteLabel\<rparr>) pkg_two_two)) \<noteq> None
   \<and> mset (rolled_back (since (state0 (platform0\<lparr>pf_fails := fails_B2_DeleteLabel\<rparr>) pkg_two_two)
         (snd (Apply M0 S0 (\<lambda>k. run0) 1 2
            (state0 (platform0\<lparr>pf_fails := fails_B2_DeleteLabel\<rparr>) pkg_two_two)))))
     = mset [''label'', ''variable'', ''bucket'', ''dashboard'', ''notification_endpoints'',
         ''telegrafs'']
   \<and> map fst (logged (since (state0 (platform0\<lparr>pf_fails := fails_B2_DeleteLabel\<rparr>) pkg_two_two)
         (snd (Apply M0 S0 (\<lambda>k. run0) 1 2
            (state0 (platform0\<lparr>pf_fails := fails_B2_DeleteLabel\<rparr>) pkg_two_two)))))
     = [''failed to delete label'']"
proof -
  let ?st = "state0 (platform0\<lparr>pf_fails := fails_B2_DeleteLabel\<rparr>) pkg_two_two"
  let ?X = "Apply M0 S0 (\<lambda>k. run0) 1 2 ?st"
  let ?evs = "since ?st (snd ?X)"
  have a: "fst ?X = first_failure ?evs" by code_simp
  have b: "fst ?X \<noteq> None" by code_simp
  then obtain e where e: "fst ?X = Some e" by auto
  with a have ff: "first_failure ?evs = Some e" by simp
  from e have h: "?X = (Some e, snd ?X)" by (metis prod.collapse)
  have r: "recorded ?evs = [''label'', ''variable'', ''bucket'', ''dashboard'',
      ''notification_endpoints'', ''telegrafs'']"
    by code_simp
  from Apply_error_rolls_back [OF h]
  have "mset (rolled_back ?evs) = mset (recorded ?evs)" by (rule conjunct1)
  with r have "mset (rolled_back ?evs) = mset [''label'', ''variable'', ''bucket'',
      ''dashboard'', ''notification_endpoints'', ''telegrafs'']"
    by simp
  moreover have "map fst (logged ?evs) = [''failed to delete label'']" by code_simp
  ultimately show ?thesis using a b by simp
qed

subsection \<open>C3: the order of the groups\<close>

text \<open>
  Claim C3: \<^verbatim>\<open>Apply\<close> runs the groups one after the other, the labels, then the primary
  resources, then the label mappings, and once a group has ended with an error no create
  function of a later group is called. On the events \<^verbatim>\<open>Apply\<close> added to the trace: the
  calls of create functions are ordered by the group of their resource, they are calls
  of the seven appliers, and none comes after the end of the first group that failed.
\<close>

theorem Apply_group_order:
  assumes "Apply M s runs orgID userID st = (err, st')"
  shows "sorted (map (\<lambda>c. group_of (fst c)) (created (since st st')))
       \<and> list_all (\<lambda>c. fst c \<in> set applier_names) (created (since st st'))
       \<and> created (after_failed_group (since st st')) = []"
proof -
  from Apply_run [OF assms]
  consider "list_all is_read (since st st')" | "apply_run err (since st st')"
    by auto
  then show ?thesis
  proof cases
    case 1
    from reads_free [OF this] show ?thesis by simp
  next
    case 2
    then show ?thesis by (simp add: apply_run_def)
  qed
qed

text \<open>
  Witness for C3: with two labels and two buckets, when the creation of L2 fails the
  create functions of the two labels are called and no other; for a label and a bucket
  associated with it on a platform where nothing fails, the create functions are called
  in the order label, bucket, label mapping.
\<close>

theorem Apply_group_order_witness:
  "created (since (state0 (platform0\<lparr>pf_fails := fails_L2\<rparr>) pkg_two_two)
      (snd (Apply M0 S0 (\<lambda>k. run0) 1 2
         (state0 (platform0\<lparr>pf_fails := fails_L2\<rparr>) pkg_two_two))))
     = [(''label'', 0), (''label'', 1)]
   \<and> sorted (map (\<lambda>c. group_of (fst c))
        (created (since (state0 (platform0\<lparr>pf_fails := fails_L2\<rparr>) pkg_two_two)
          (snd (Apply M0 S0 (\<lambda>k. run0) 1 2
             (state0 (platform0\<lparr>pf_fails := fails_L2\<rparr>) pkg_two_two))))))
   \<and> created (since (state0 platform0 pkg_label_bucket)
        (snd (Apply M0 S0 (\<lambda>k. run0) 1 2 (state0 platform0 pkg_label_bucket))))
     = [(''label'', 0), (''bucket'', 0), (''label_mapping'', 0)]"
proof -
  let ?st = "state0 (platform0\<lparr>pf_fails := fails_L2\<rparr>) pkg_two_two"
  let ?X = "Apply M0 S0 (\<lambda>k. run0) 1 2 ?st"
  have h: "?X = (fst ?X, snd ?X)" by simp
  from Apply_group_order [OF h]
  have "sorted (map (\<lambda>c. group_of (fst c)) (created (since ?st (snd ?X))))"
    by (rule conjunct1)
  moreover have "created (since ?st (snd ?X)) = [(''label'', 0), (''label'', 1)]"
    by code_simp
  moreover have "created (since (state0 platform0 pkg_label_bucket)
        (snd (Apply M0 S0 (\<lambda>k. run0) 1 2 (state0 platform0 pkg_label_bucket))))
     = [(''label'', 0), (''bucket'', 0), (''label_mapping'', 0)]"
    by code_simp
  ultimately show ?thesis by blast
qed

subsection \<open>C4: the order of the rollback\<close>

text \<open>
  Claim C4 as stated fails: \<^verbatim>\<open>rollbackCoordinator.rollback\<close> ranges over \<^verbatim>\<open>r.rollbacks\<close>
  from the first to the last. With two labels and two buckets, when the creation of B2
  fails, the rollbacker of the labels, recorded first, is called first and the one of the
  telegraf configurations, recorded last, is called last; the labels are deleted before
  the bucket.
\<close>

theorem rollback_starts_with_labels:
  "rolled_back (since (state0 (platform0\<lparr>pf_fails := fails_B2\<rparr>) pkg_two_two)
      (snd (Apply M0 S0 (\<lambda>k. run0) 1 2
         (state0 (platform0\<lparr>pf_fails := fails_B2\<rparr>) pkg_two_two))))
     = [''label'', ''variable'', ''bucket'', ''dashboard'', ''notification_endpoints'',
        ''telegrafs'']
   \<and> recorded (since (state0 (platform0\<lparr>pf_fails := fails_B2\<rparr>) pkg_two_two)
      (snd (Apply M0 S0 (\<lambda>k. run0) 1 2
         (state0 (platform0\<lparr>pf_fails := fails_B2\<rparr>) pkg_two_two))))
     = [''label'', ''variable'', ''bucket'', ''dashboard'', ''notification_endpoints'',
        ''telegrafs'']
   \<and> map fst (filter (\<lambda>c. \<not> create_or_update (fst c))
        (ports (since (state0 (platform0\<lparr>pf_fails := fails_B2\<rparr>) pkg_two_two)
          (snd (Apply M0 S0 (\<lambda>k. run0) 1 2
             (state0 (platform0\<lparr>pf_fails := fails_B2\<rparr>) pkg_two_two))))))
     = [DeleteLabel 100, DeleteLabel 101, DeleteBucket 102]"
  by code_simp

text \<open>
  Claim C4, amended: when \<^verbatim>\<open>Apply\<close> fails the rollbackers on record are called one after
  the other in the order in which they were recorded, the one recorded first being called
  first; when \<^verbatim>\<open>Apply\<close> returns no error none is called.
\<close>

theorem rollback_in_insertion_order:
  assumes "Apply M s runs orgID userID st = (err, st')"
  shows "rolled_back (since st st') = (if err = None then [] else recorded (since st st'))"
proof -
  from Apply_run [OF assms]
  consider "err \<noteq> None" "list_all is_read (since st st')" | "apply_run err (since st st')"
    by auto
  then show ?thesis
  proof cases
    case 1
    from reads_free [OF 1(2)] 1(1) show ?thesis by simp
  next
    case 2
    then show ?thesis by (simp add: apply_run_def)
  qed
qed

text \<open>
  Witness for C4: in the run where the creation of B2 and the deletion of a label fail,
  the rollbackers are called in the order of their recording; in the run where nothing
  fails none is called.
\<close>

theorem rollback_in_insertion_order_witness:
  "rolled_back (since (state0 (platform0\<lparr>pf_fails := fails_B2_DeleteLabel\<rparr>) pkg_two_two)
      (snd (Apply M0 S0 (\<lambda>k. run0) 1 2
         (state0 (platform0\<lparr>pf_fails := fails_B2_DeleteLabel\<rparr>) pkg_two_two))))
     = [''label'', ''variable'', ''bucket'', ''dashboard'', ''notification_endpoints'',
        ''telegrafs'']
   \<and> rolled_back (since (state0 platform0 pkg_label_bucket)
        (snd (Apply M0 S0 (\<lambda>k. run0) 1 2 (state0 platform0 pkg_label_bucket)))) = []"
proof -
  let ?st = "state0 (platform0\<lparr>pf_fails := fails_B2_DeleteLabel\<rparr>) pkg_two_two"
  let ?X = "Apply M0 S0 (\<lambda>k. run0) 1 2 ?st"
  let ?sa = "state0 platform0 pkg_label_bucket"
  let ?Y = "Apply M0 S0 (\<lambda>k. run0) 1 2 ?sa"
  have h: "?X = (fst ?X, snd ?X)" and h0: "?Y = (fst ?Y, snd ?Y)" by simp_all
  have e: "fst ?X \<noteq> None" by code_simp
  have e0: "fst ?Y = None" by code_simp
  have r: "recorded (since ?st (snd ?X)) = [''label'', ''variable'', ''bucket'',
      ''dashboard'', ''notification_endpoints'', ''telegrafs'']"
    by code_simp
  from rollback_in_insertion_order [OF h] e r
  have "rolled_back (since ?st (snd ?X)) = [''label'', ''variable'', ''bucket'',
      ''dashboard'', ''notification_endpoints'', ''telegrafs'']"
    by simp
  moreover from rollback_in_insertion_order [OF h0] e0
  have "rolled_back (since ?sa (snd ?Y)) = []" by simp
  ultimately show ?thesis by blast
qed

subsection \<open>C7: a cancelled context\<close>

text \<open>
  Claim C7 asks that an \<^verbatim>\<open>Apply\<close> whose context is cancelled midway still collects the
  errors of its workers and rolls back what it created. Once the context is cancelled the
  goroutine of \<^verbatim>\<open>errStream.do\<close> may take the case \<^verbatim>\<open><-e.done\<close>: it then sends nil whatever
  the workers reported, \<^verbatim>\<open>runTilEnd\<close> returns nil, and the deferred rollback finds no error
  and calls no rollbacker. With two labels and two buckets, the context cancelled once the
  labels are applied and the creation of B2 failing: all three groups end with nil,
  \<^verbatim>\<open>Apply\<close> returns nil and no rollbacker is called: the four port calls are the
  creations, three that succeeded and the one that failed, and nothing is deleted.
\<close>

theorem Apply_cancelled_no_rollback:
  "fst (Apply M0 S0 cancelled_after_labels 1 2
         (state0 (platform0\<lparr>pf_fails := fails_B2\<rparr>) pkg_two_two)) = None
   \<and> map (\<lambda>c. (create_or_update (fst c), snd c))
        (ports (since (state0 (platform0\<lparr>pf_fails := fails_B2\<rparr>) pkg_two_two)
          (snd (Apply M0 S0 cancelled_after_labels 1 2
             (state0 (platform0\<lparr>pf_fails := fails_B2\<rparr>) pkg_two_two)))))
     = [(True, None), (True, None), (True, None), (True, Some ''boom'')]
   \<and> created (since (state0 (platform0\<lparr>pf_fails := fails_B2\<rparr>) pkg_two_two)
        (snd (Apply M0 S0 cancelled_after_labels 1 2
           (state0 (platform0\<lparr>pf_fails := fails_B2\<rparr>) pkg_two_two))))
     = [(''label'', 0), (''label'', 1), (''bucket'', 0), (''bucket'', 1)]
   \<and> group_ends (since (state0 (platform0\<lparr>pf_fails := fails_B2\<rparr>) pkg_two_two)
        (snd (Apply M0 S0 cancelled_after_labels 1 2
           (state0 (platform0\<lparr>pf_fails := fails_B2\<rparr>) pkg_two_two))))
     = [None, None, None]
   \<and> rolled_back (since (state0 (platform0\<lparr>pf_fails := fails_B2\<rparr>) pkg_two_two)
        (snd (Apply M0 S0 cancelled_after_labels 1 2
           (state0 (platform0\<lparr>pf_fails := fails_B2\<rparr>) pkg_two_two)))) = []"
  by code_simp

end
